(* ===== verification/Prelude.thy ===== *)
theory Prelude
  imports Main "HOL-Library.Word" "HOL-Library.Sublist"
begin

text \<open>
  What the component theories share: the bytes and texts of the program, the string
  routines of Go's \<^verbatim>\<open>strings\<close> package that the sources call, a state-and-error
  program type for the code that mutates a job and calls other services, with its
  weakest-precondition calculus, and the generic lemmas on lists and bytes.

  A Go string is a \<^typ>\<open>string\<close> read as its bytes. Case folding and white space are
  those of ASCII: every constant the sources compare with (flow names, labels, media
  types, configuration words) is ASCII.
\<close>

section \<open>Types and collections\<close>

type_synonym byte = "8 word"
type_synonym bytes = "byte list"

named_theorems go_strings \<open>unfolding of the modelled routines of the strings package\<close>
named_theorems keeps_intros \<open>how the program combinators keep an observation of the state\<close>
named_theorems pres_intros \<open>how the program combinators preserve a predicate of the state\<close>
named_theorems wp_rules \<open>the weakest-precondition equations of the program combinators\<close>

section \<open>Strings\<close>

definition is_space :: "char \<Rightarrow> bool" where
  "is_space c \<longleftrightarrow> (of_char c :: nat) \<in> {9, 10, 11, 12, 13, 32}"

definition trim_space :: "string \<Rightarrow> string" where
  "trim_space s = rev (dropWhile is_space (rev (dropWhile is_space s)))"

definition lower_char :: "char \<Rightarrow> char" where
  "lower_char c = (let n = (of_char c :: nat) in if 65 \<le> n \<and> n \<le> 90 then char_of (n + 32) else c)"

definition upper_char :: "char \<Rightarrow> char" where
  "upper_char c = (let n = (of_char c :: nat) in if 97 \<le> n \<and> n \<le> 122 then char_of (n - 32) else c)"

definition to_lower :: "string \<Rightarrow> string" where
  "to_lower = map lower_char"

definition to_upper :: "string \<Rightarrow> string" where
  "to_upper = map upper_char"

definition equal_fold :: "string \<Rightarrow> string \<Rightarrow> bool" where
  "equal_fold a b \<longleftrightarrow> to_lower a = to_lower b"

definition has_prefix :: "string \<Rightarrow> string \<Rightarrow> bool" where
  "has_prefix s p \<longleftrightarrow> take (length p) s = p"

definition has_suffix :: "string \<Rightarrow> string \<Rightarrow> bool" where
  "has_suffix s p \<longleftrightarrow> has_prefix (rev s) (rev p)"

definition trim_suffix :: "string \<Rightarrow> string \<Rightarrow> string" where
  "trim_suffix s p = (if has_suffix s p then take (length s - length p) s else s)"

fun contains :: "string \<Rightarrow> string \<Rightarrow> bool" where
  "contains [] p \<longleftrightarrow> p = []"
| "contains (c # s) p \<longleftrightarrow> has_prefix (c # s) p \<or> contains s p"

text \<open>
  \<open>split_on c s\<close> is \<^verbatim>\<open>strings.Split\<close> at a one-byte separator: the empty text has one
  empty part. \<open>replace_all s old new\<close> is \<^verbatim>\<open>strings.ReplaceAll\<close> for a non-empty
  \<open>old\<close>: occurrences are found from the left and do not overlap.
\<close>

fun split_on :: "char \<Rightarrow> string \<Rightarrow> string list" where
  "split_on c [] = [[]]"
| "split_on c (x # xs) =
     (if x = c then [] # split_on c xs
      else (case split_on c xs of [] \<Rightarrow> [[x]] | p # ps \<Rightarrow> (x # p) # ps))"

function replace_all :: "string \<Rightarrow> string \<Rightarrow> string \<Rightarrow> string" where
  "replace_all s old new =
     (if s = [] \<or> old = [] then s
      else if has_prefix s old then new @ replace_all (drop (length old) s) old new
      else hd s # replace_all (tl s) old new)"
  by pat_completeness auto
termination
  by (relation "measure (\<lambda>(s, old, new). length s)") (auto simp: diff_less)

declare replace_all.simps [simp del]

lemma replace_all_code [code]:
  "replace_all [] old new = []"
  "replace_all (c # s) old new =
     (if old = [] then c # s
      else if has_prefix (c # s) old then new @ replace_all (drop (length old - 1) s) old new
      else c # replace_all s old new)"
  by (simp_all add: replace_all.simps [of "[]"] replace_all.simps [of "c # s"] drop_Cons')

fun join :: "string \<Rightarrow> string list \<Rightarrow> string" where
  "join sep [] = []"
| "join sep [x] = x"
| "join sep (x # y # xs) = x @ sep @ join sep (y # xs)"

lemmas string_defs [go_strings] =
  trim_space_def to_lower_def to_upper_def equal_fold_def has_prefix_def has_suffix_def
  trim_suffix_def

lemma equal_fold_refl [simp]: "equal_fold a a"
  by (simp add: equal_fold_def)

lemma trim_space_nil [simp]: "trim_space [] = []"
  by (simp add: trim_space_def)

lemma dropWhile_rev_no_head:
  "dropWhile P xs = xs \<Longrightarrow> dropWhile P (rev (dropWhile P (rev xs))) = rev (dropWhile P (rev xs))"
proof (cases xs)
  case (Cons y ys)
  assume "dropWhile P xs = xs"
  then have y: "\<not> P y"
    using Cons by (metis dropWhile.simps(2) dropWhile_eq_self_iff list.sel(1) list.discI)
  have "rev (dropWhile P (rev xs)) = y # rev (dropWhile P (rev ys))"
    using y by (simp add: Cons dropWhile_append3 dropWhile_append)
  then show ?thesis using y by simp
qed simp

lemma dropWhile_idem [simp]: "dropWhile P (dropWhile P xs) = dropWhile P xs"
  by (induction xs) auto

lemma trim_space_idem [simp]: "trim_space (trim_space s) = trim_space s"
proof -
  have "dropWhile is_space (rev (dropWhile is_space (rev (dropWhile is_space s)))) =
        rev (dropWhile is_space (rev (dropWhile is_space s)))"
    by (rule dropWhile_rev_no_head) simp
  then show ?thesis by (simp add: trim_space_def)
qed

lemma split_on_nonempty [simp]: "split_on c s \<noteq> []"
  by (induction s) (auto split: list.splits)

section \<open>Lists\<close>

lemma those_all_Some: "those (map (\<lambda>x. Some (f x)) xs) = Some (map f xs)"
  by (induction xs) auto

lemma find_Some_in_set: "find P xs = Some x \<Longrightarrow> x \<in> set xs \<and> P x"
  by (auto simp: find_Some_iff)

section \<open>Bytes and big-endian numbers\<close>

text \<open>
  \<open>be_nat\<close> is \<^verbatim>\<open>big.Int.SetBytes\<close>, \<open>nat_be\<close> is \<^verbatim>\<open>big.Int.Bytes\<close> (no leading
  zero byte, nothing for zero).
\<close>

definition be_nat :: "bytes \<Rightarrow> nat" where
  "be_nat bs = foldl (\<lambda>n b. n * 256 + unat b) 0 bs"

fun nat_be :: "nat \<Rightarrow> bytes" where
  "nat_be n = (if n = 0 then [] else nat_be (n div 256) @ [of_nat (n mod 256)])"

declare nat_be.simps [simp del]

lemma unat_byte_less [simp]: "unat (b :: byte) < 256"
  using unsigned_less [of b] by simp

lemma unat_byte_of_nat: "n < 256 \<Longrightarrow> unat (of_nat n :: byte) = n"
  by (simp add: unat_of_nat)

lemma byte_of_nat_unat [simp]: "(of_nat (unat b) :: byte) = b"
  by simp

lemma be_nat_nil [simp]: "be_nat [] = 0"
  by (simp add: be_nat_def)

lemma be_nat_snoc [simp]: "be_nat (bs @ [b]) = be_nat bs * 256 + unat b"
  by (simp add: be_nat_def)

lemma nat_be_zero [simp]: "nat_be 0 = []"
  by (simp add: nat_be.simps)

lemma nat_be_pos: "0 < n \<Longrightarrow> nat_be n = nat_be (n div 256) @ [of_nat (n mod 256)]"
  by (subst nat_be.simps) simp

lemma nat_be_empty [simp]: "nat_be n = [] \<longleftrightarrow> n = 0"
  by (cases "n = 0") (auto simp: nat_be_pos)

lemma be_nat_nat_be [simp]: "be_nat (nat_be n) = n"
proof (induction n rule: nat_be.induct)
  case (1 n)
  then show ?case
    by (cases "n = 0") (simp_all add: nat_be_pos unat_byte_of_nat)
qed

lemma be_nat_zero_cons [simp]: "be_nat (0 # bs) = be_nat bs"
  by (simp add: be_nat_def)

lemma be_nat_append: "be_nat (xs @ ys) = be_nat xs * 256 ^ length ys + be_nat ys"
proof (induction ys rule: rev_induct)
  case (snoc y ys)
  have "be_nat (xs @ ys @ [y]) = be_nat (xs @ ys) * 256 + unat y"
    using be_nat_snoc [of "xs @ ys" y] by simp
  with snoc show ?case by (simp add: algebra_simps)
qed simp

lemma be_nat_cons: "be_nat (b # bs) = unat b * 256 ^ length bs + be_nat bs"
  using be_nat_append [of "[b]" bs] by (simp add: be_nat_def)

lemma be_nat_less: "be_nat bs < 256 ^ length bs"
proof (induction bs rule: rev_induct)
  case (snoc b bs)
  have "be_nat bs * 256 + unat b < (be_nat bs + 1) * 256"
    using unat_byte_less [of b] by simp
  also have "\<dots> \<le> 256 ^ length bs * 256"
    using snoc by simp
  finally show ?case by simp
qed simp

lemma nat_be_be_nat: "bs \<noteq> [] \<Longrightarrow> hd bs \<noteq> 0 \<Longrightarrow> nat_be (be_nat bs) = bs"
proof (induction bs rule: rev_induct)
  case (snoc b bs)
  show ?case
  proof (cases "bs = []")
    case True
    with snoc.prems have "unat b \<noteq> 0" by (simp add: unat_eq_0)
    with True show ?thesis
      by (simp add: be_nat_def nat_be_pos del: unat_eq_0)
  next
    case False
    with snoc have IH: "nat_be (be_nat bs) = bs" by simp
    with False have pos: "0 < be_nat bs" by (metis nat_be_empty gr0I)
    then have "0 < be_nat bs * 256 + unat b" by simp
    then show ?thesis
      by (simp add: nat_be_pos IH)
  qed
qed simp

lemma nat_be_hd: "0 < n \<Longrightarrow> hd (nat_be n) \<noteq> 0"
proof (induction n rule: nat_be.induct)
  case (1 n)
  show ?case
  proof (cases "n div 256 = 0")
    case True
    with "1.prems" have "n < 256" by (simp add: div_eq_0_iff)
    with True "1.prems" show ?thesis
      by (simp add: nat_be_pos) (metis mod_less unat_byte_of_nat unat_0 less_irrefl)
  next
    case False
    then have "nat_be (n div 256) \<noteq> []" by simp
    then have "hd (nat_be n) = hd (nat_be (n div 256))"
      using "1.prems" by (simp add: nat_be_pos [of n])
    with False 1 show ?thesis by simp
  qed
qed

lemma nat_be_length_le: "n < 256 ^ k \<Longrightarrow> length (nat_be n) \<le> k"
proof (induction k arbitrary: n)
  case (Suc k)
  show ?case
  proof (cases "n = 0")
    case False
    have "n div 256 < 256 ^ k" using Suc.prems by (simp add: less_mult_imp_div_less)
    with False Suc.IH show ?thesis by (simp add: nat_be_pos)
  qed simp
qed simp

section \<open>Programs with state and errors\<close>

text \<open>
  A Go method that changes its receiver's state and may return an error is a function
  from the state to the error or the result, and the state it leaves: the changes made
  before an error stay, as they do in the code.
\<close>

type_synonym ('s, 'e, 'a) prog = "'s \<Rightarrow> ('e + 'a) \<times> 's"

definition retE :: "'a \<Rightarrow> ('s, 'e, 'a) prog" where
  "retE x = (\<lambda>s. (Inr x, s))"

definition failE :: "'e \<Rightarrow> ('s, 'e, 'a) prog" where
  "failE e = (\<lambda>s. (Inl e, s))"

definition bindE :: "('s, 'e, 'a) prog \<Rightarrow> ('a \<Rightarrow> ('s, 'e, 'b) prog) \<Rightarrow> ('s, 'e, 'b) prog" where
  "bindE m f = (\<lambda>s. case m s of (Inl e, s') \<Rightarrow> (Inl e, s') | (Inr x, s') \<Rightarrow> f x s')"

definition modE :: "('s \<Rightarrow> 's) \<Rightarrow> ('s, 'e, unit) prog" where
  "modE f = (\<lambda>s. (Inr (), f s))"

definition getE :: "('s \<Rightarrow> 'a) \<Rightarrow> ('s, 'e, 'a) prog" where
  "getE f = (\<lambda>s. (Inr (f s), s))"

definition mapErrE :: "('e \<Rightarrow> 'f) \<Rightarrow> ('s, 'e, 'a) prog \<Rightarrow> ('s, 'f, 'a) prog" where
  "mapErrE h m = (\<lambda>s. case m s of (Inl e, s') \<Rightarrow> (Inl (h e), s') | (Inr x, s') \<Rightarrow> (Inr x, s'))"

definition catchE :: "('s, 'e, 'a) prog \<Rightarrow> ('e \<Rightarrow> ('s, 'f, 'a) prog) \<Rightarrow> ('s, 'f, 'a) prog" where
  "catchE m h = (\<lambda>s. case m s of (Inl e, s') \<Rightarrow> h e s' | (Inr x, s') \<Rightarrow> (Inr x, s'))"

text \<open>\<open>ignE m\<close> is the call \<^verbatim>\<open>_ = m\<close>: its error is dropped, what it did stays.\<close>

definition ignE :: "('s, 'e, 'a) prog \<Rightarrow> ('s, 'f, unit) prog" where
  "ignE m = (\<lambda>s. (Inr (), snd (m s)))"

text \<open>\<open>tryE m\<close> hands the error to the caller as a value: \<^verbatim>\<open>x, err := m\<close>.\<close>

definition tryE :: "('s, 'e, 'a) prog \<Rightarrow> ('s, 'f, 'e + 'a) prog" where
  "tryE m = (\<lambda>s. case m s of (r, s') \<Rightarrow> (Inr r, s'))"

text \<open>\<open>finallyE m d\<close> is \<^verbatim>\<open>defer\<close>: \<open>d\<close> runs when \<open>m\<close> has ended, however it ended.\<close>

definition finallyE :: "('s, 'e, 'a) prog \<Rightarrow> ('s, 'f, unit) prog \<Rightarrow> ('s, 'e, 'a) prog" where
  "finallyE m d = (\<lambda>s. case m s of (r, s') \<Rightarrow> (r, snd (d s')))"

text \<open>\<open>liftE get put m\<close> runs \<open>m\<close> on a part of the state.\<close>

definition liftE :: "('s \<Rightarrow> 't) \<Rightarrow> ('t \<Rightarrow> 's \<Rightarrow> 's) \<Rightarrow> ('t, 'e, 'a) prog \<Rightarrow> ('s, 'e, 'a) prog" where
  "liftE get put m = (\<lambda>s. case m (get s) of (r, t) \<Rightarrow> (r, put t s))"

definition ofsumE :: "'e + 'a \<Rightarrow> ('s, 'e, 'a) prog" where
  "ofsumE r = (\<lambda>s. (r, s))"

fun forE :: "'a list \<Rightarrow> ('a \<Rightarrow> ('s, 'e, unit) prog) \<Rightarrow> ('s, 'e, unit) prog" where
  "forE [] f = retE ()"
| "forE (x # xs) f = bindE (f x) (\<lambda>_. forE xs f)"

text \<open>For running a program on a concrete state.\<close>

lemmas run_defs = retE_def failE_def bindE_def modE_def getE_def mapErrE_def catchE_def ignE_def tryE_def finallyE_def liftE_def ofsumE_def

text \<open>\<open>wp m Q E s\<close>: run from \<open>s\<close>, \<open>m\<close> returns a result satisfying \<open>Q\<close> or an error satisfying \<open>E\<close>.\<close>

definition wp :: "('s, 'e, 'a) prog \<Rightarrow> ('a \<Rightarrow> 's \<Rightarrow> bool) \<Rightarrow> ('e \<Rightarrow> 's \<Rightarrow> bool) \<Rightarrow> 's \<Rightarrow> bool" where
  "wp m Q E s = (case m s of (Inl e, s') \<Rightarrow> E e s' | (Inr x, s') \<Rightarrow> Q x s')"

lemma wp_retE [wp_rules]: "wp (retE x) Q E = Q x"
  by (simp add: wp_def retE_def fun_eq_iff)

lemma wp_failE [wp_rules]: "wp (failE e) Q E = E e"
  by (simp add: wp_def failE_def fun_eq_iff)

lemma wp_bindE [wp_rules]: "wp (bindE m f) Q E = wp m (\<lambda>x. wp (f x) Q E) E"
  by (simp add: wp_def bindE_def fun_eq_iff split: prod.split sum.split)

lemma wp_modE [wp_rules]: "wp (modE f) Q E = (\<lambda>s. Q () (f s))"
  by (simp add: wp_def modE_def fun_eq_iff)

lemma wp_getE [wp_rules]: "wp (getE f) Q E = (\<lambda>s. Q (f s) s)"
  by (simp add: wp_def getE_def fun_eq_iff)

lemma wp_mapErrE [wp_rules]: "wp (mapErrE h m) Q E = wp m Q (\<lambda>e. E (h e))"
  by (simp add: wp_def mapErrE_def fun_eq_iff split: prod.split sum.split)

lemma wp_catchE [wp_rules]: "wp (catchE m h) Q E = wp m Q (\<lambda>e. wp (h e) Q E)"
  by (simp add: wp_def catchE_def fun_eq_iff split: prod.split sum.split)

lemma wp_ignE [wp_rules]: "wp (ignE m) Q E = wp m (\<lambda>_. Q ()) (\<lambda>_. Q ())"
  by (simp add: wp_def ignE_def fun_eq_iff split: prod.split sum.split)

lemma wp_tryE [wp_rules]: "wp (tryE m) Q E = wp m (\<lambda>x. Q (Inr x)) (\<lambda>e. Q (Inl e))"
  by (simp add: wp_def tryE_def fun_eq_iff split: prod.split sum.split)

lemma wp_finallyE [wp_rules]:
  "wp (finallyE m d) Q E = wp m (\<lambda>x. wp d (\<lambda>_. Q x) (\<lambda>_. Q x)) (\<lambda>e. wp d (\<lambda>_. E e) (\<lambda>_. E e))"
  by (simp add: wp_def finallyE_def fun_eq_iff split: prod.split sum.split)

lemma wp_liftE [wp_rules]:
  "wp (liftE get put m) Q E = (\<lambda>s. wp m (\<lambda>x t. Q x (put t s)) (\<lambda>e t. E e (put t s)) (get s))"
  by (simp add: wp_def liftE_def fun_eq_iff split: prod.split sum.split)

lemma wp_ofsumE [wp_rules]: "wp (ofsumE r) Q E = (\<lambda>s. case r of Inl e \<Rightarrow> E e s | Inr x \<Rightarrow> Q x s)"
  by (simp add: wp_def ofsumE_def fun_eq_iff split: sum.split)

lemma wp_if [wp_rules]: "wp (if b then m else n) Q E = (\<lambda>s. if b then wp m Q E s else wp n Q E s)"
  by simp

lemma wp_Let [wp_rules]: "wp (let x = a in f x) Q E = wp (f a) Q E"
  by (simp add: Let_def)

lemma wp_case_option [wp_rules]:
  "wp (case x of None \<Rightarrow> m | Some y \<Rightarrow> f y) Q E = (\<lambda>s. case x of None \<Rightarrow> wp m Q E s | Some y \<Rightarrow> wp (f y) Q E s)"
  by (simp split: option.split)

lemma wp_case_sum [wp_rules]:
  "wp (case x of Inl a \<Rightarrow> f a | Inr b \<Rightarrow> g b) Q E = (\<lambda>s. case x of Inl a \<Rightarrow> wp (f a) Q E s | Inr b \<Rightarrow> wp (g b) Q E s)"
  by (simp split: sum.split)

lemma wp_case_prod [wp_rules]:
  "wp (case x of (a, b) \<Rightarrow> f a b) Q E = (\<lambda>s. case x of (a, b) \<Rightarrow> wp (f a b) Q E s)"
  by (simp split: prod.split)

lemma wp_mono:
  assumes "wp m Q E s" and "\<And>x s'. Q x s' \<Longrightarrow> Q' x s'" and "\<And>e s'. E e s' \<Longrightarrow> E' e s'"
  shows "wp m Q' E' s"
  using assms by (auto simp: wp_def split: prod.splits sum.splits)

lemma wp_conj: "wp m Q E s \<Longrightarrow> wp m Q' E' s \<Longrightarrow> wp m (\<lambda>x s. Q x s \<and> Q' x s) (\<lambda>e s. E e s \<and> E' e s) s"
  by (auto simp: wp_def split: prod.splits sum.splits)

lemma wp_InrD: "wp m Q E s \<Longrightarrow> m s = (Inr x, s') \<Longrightarrow> Q x s'"
  by (simp add: wp_def)

lemma wp_InlD: "wp m Q E s \<Longrightarrow> m s = (Inl e, s') \<Longrightarrow> E e s'"
  by (simp add: wp_def)

lemma wpI: "(\<And>x s'. m s = (Inr x, s') \<Longrightarrow> Q x s') \<Longrightarrow> (\<And>e s'. m s = (Inl e, s') \<Longrightarrow> E e s') \<Longrightarrow> wp m Q E s"
  by (auto simp: wp_def split: prod.split sum.split)

text \<open>A loop keeps an invariant that each round keeps, and its rounds' errors are its own.\<close>

lemma wp_forE:
  assumes inv: "\<And>x s. x \<in> set xs \<Longrightarrow> I s \<Longrightarrow> wp (f x) (\<lambda>_. I) E s" and "I s"
  shows "wp (forE xs f) (\<lambda>_. I) E s"
  using assms
proof (induction xs arbitrary: s)
  case (Cons x xs)
  have "wp (f x) (\<lambda>_. I) E s" using Cons.prems by simp
  then have "wp (f x) (\<lambda>_. wp (forE xs f) (\<lambda>_. I) E) E s"
    by (rule wp_mono) (auto intro!: Cons.IH simp: Cons.prems)
  then show ?case by (simp add: wp_rules)
qed (simp add: wp_rules)

lemma forE_append: "forE (xs @ ys) f = bindE (forE xs f) (\<lambda>_. forE ys f)"
  by (induction xs) (auto simp: run_defs fun_eq_iff split: prod.split sum.split)

lemma wp_forE_upt:
  assumes "\<And>i s. i < n \<Longrightarrow> I i s \<Longrightarrow> wp (f i) (\<lambda>_. I (Suc i)) E s" and "I 0 s"
  shows "wp (forE [0..<n] f) (\<lambda>_. I n) E s"
  using assms
proof (induction n)
  case (Suc n)
  have "wp (forE [0..<n] f) (\<lambda>_. I n) E s" using Suc by simp
  then show ?case
    unfolding upt_Suc_append [OF le0] forE_append wp_bindE
    by (rule wp_mono) (auto simp: wp_rules intro!: Suc.prems)
qed (simp add: wp_rules)

text \<open>\<open>keeps f m\<close>: however \<open>m\<close> ends, it leaves what \<open>f\<close> observes of the state.\<close>

definition keeps :: "('s \<Rightarrow> 'o) \<Rightarrow> ('s, 'e, 'a) prog \<Rightarrow> bool" where
  "keeps f m \<longleftrightarrow> (\<forall>s. f (snd (m s)) = f s)"

lemma wp_same: "wp m (\<lambda>_. P) (\<lambda>_. P) s \<longleftrightarrow> P (snd (m s))"
  by (cases "m s"; cases "fst (m s)") (auto simp: wp_def)

lemma keeps_wp: "keeps f m \<longleftrightarrow> (\<forall>s. wp m (\<lambda>_ s'. f s' = f s) (\<lambda>_ s'. f s' = f s) s)"
  by (simp add: keeps_def wp_same)

lemma keepsI: "(\<And>s. wp m (\<lambda>_ s'. f s' = f s) (\<lambda>_ s'. f s' = f s) s) \<Longrightarrow> keeps f m"
  by (simp add: keeps_wp)

lemma keepsD: "keeps f m \<Longrightarrow> wp m (\<lambda>_ s'. f s' = f s) (\<lambda>_ s'. f s' = f s) s"
  by (simp add: keeps_wp)

lemma keeps_basic [simp, keeps_intros]:
  "keeps f (retE x)" "keeps f (failE e)" "keeps f (getE g)" "keeps f (ofsumE r)"
  by (simp_all add: keeps_def run_defs)

lemma keeps_modE [keeps_intros]: "(\<And>s. f (g s) = f s) \<Longrightarrow> keeps f (modE g)"
  by (simp add: keeps_def run_defs)

lemma keeps_bindE [keeps_intros]: "keeps f m \<Longrightarrow> (\<And>x. keeps f (k x)) \<Longrightarrow> keeps f (bindE m k)"
  unfolding keeps_def bindE_def by (auto split: prod.split sum.split) (metis snd_conv)+

lemma keeps_wrap [keeps_intros]: "keeps f m \<Longrightarrow> keeps f (tryE m)" "keeps f m \<Longrightarrow> keeps f (mapErrE h m)"
  "keeps f m \<Longrightarrow> keeps f (ignE m)"
  by (simp_all add: keeps_wp wp_rules)

lemma keeps_finallyE [keeps_intros]: "keeps f m \<Longrightarrow> keeps f d \<Longrightarrow> keeps f (finallyE m d)"
  unfolding keeps_def finallyE_def by (auto split: prod.split) (metis snd_conv)

lemma keeps_catchE [keeps_intros]: "keeps f m \<Longrightarrow> (\<And>e. keeps f (h e)) \<Longrightarrow> keeps f (catchE m h)"
  unfolding keeps_def catchE_def by (auto split: prod.split sum.split) (metis snd_conv)+

lemma keeps_if [keeps_intros]: "(b \<Longrightarrow> keeps f m) \<Longrightarrow> (\<not> b \<Longrightarrow> keeps f n) \<Longrightarrow> keeps f (if b then m else n)"
  by simp

lemma keeps_case_option [keeps_intros]:
  "(x = None \<Longrightarrow> keeps f m) \<Longrightarrow> (\<And>y. x = Some y \<Longrightarrow> keeps f (g y)) \<Longrightarrow> keeps f (case x of None \<Rightarrow> m | Some y \<Rightarrow> g y)"
  by (cases x) auto

lemma keeps_case_sum [keeps_intros]:
  "(\<And>a. x = Inl a \<Longrightarrow> keeps f (g a)) \<Longrightarrow> (\<And>b. x = Inr b \<Longrightarrow> keeps f (h b)) \<Longrightarrow> keeps f (case x of Inl a \<Rightarrow> g a | Inr b \<Rightarrow> h b)"
  by (cases x) auto

lemma keeps_case_prod [keeps_intros]: "(\<And>a b. x = (a, b) \<Longrightarrow> keeps f (g a b)) \<Longrightarrow> keeps f (case x of (a, b) \<Rightarrow> g a b)"
  by (cases x) auto

lemma keeps_Let [keeps_intros]: "keeps f (g a) \<Longrightarrow> keeps f (let x = a in g x)"
  by simp

lemma keeps_forE [keeps_intros]: "(\<And>x. x \<in> set xs \<Longrightarrow> keeps f (g x)) \<Longrightarrow> keeps f (forE xs g)"
  by (induction xs) (auto intro: keeps_bindE)

lemma keeps_liftE: "(\<And>t s. f (put t s) = f s) \<Longrightarrow> keeps f (liftE get put m)"
  by (simp add: keeps_def liftE_def split: prod.split)

text \<open>\<open>pres P m\<close>: from a state with \<open>P\<close>, however \<open>m\<close> ends, it leaves a state with \<open>P\<close>.\<close>

definition pres :: "('s \<Rightarrow> bool) \<Rightarrow> ('s, 'e, 'a) prog \<Rightarrow> bool" where
  "pres P m \<longleftrightarrow> (\<forall>s. P s \<longrightarrow> P (snd (m s)))"

lemma presI: "(\<And>s. P s \<Longrightarrow> wp m (\<lambda>_. P) (\<lambda>_. P) s) \<Longrightarrow> pres P m"
  by (simp add: pres_def wp_same)

lemma presD: "pres P m \<Longrightarrow> P s \<Longrightarrow> wp m (\<lambda>_. P) (\<lambda>_. P) s"
  by (simp add: pres_def wp_same)

lemma pres_keeps: "keeps f m \<Longrightarrow> (\<And>s s'. f s' = f s \<Longrightarrow> P s \<Longrightarrow> P s') \<Longrightarrow> pres P m"
  unfolding keeps_def pres_def by blast

lemma pres_basic [simp, pres_intros]:
  "pres P (retE x)" "pres P (failE e)" "pres P (getE g)" "pres P (ofsumE r)"
  by (simp_all add: pres_def run_defs)

lemma pres_modE [pres_intros]: "(\<And>s. P s \<Longrightarrow> P (g s)) \<Longrightarrow> pres P (modE g)"
  by (simp add: pres_def run_defs)

lemma pres_bindE [pres_intros]: "pres P m \<Longrightarrow> (\<And>x. pres P (k x)) \<Longrightarrow> pres P (bindE m k)"
  by (rule presI) (auto simp: wp_rules intro: wp_mono [OF presD] presD)

lemma pres_wrap [pres_intros]: "pres P m \<Longrightarrow> pres P (tryE m)" "pres P m \<Longrightarrow> pres P (mapErrE h m)"
  "pres P m \<Longrightarrow> pres P (ignE m)"
  by (rule presI, simp add: wp_rules presD)+

lemma pres_finallyE [pres_intros]: "pres P m \<Longrightarrow> pres P d \<Longrightarrow> pres P (finallyE m d)"
  by (rule presI) (auto simp: wp_rules intro: wp_mono [OF presD] presD)

lemma pres_catchE [pres_intros]: "pres P m \<Longrightarrow> (\<And>e. pres P (h e)) \<Longrightarrow> pres P (catchE m h)"
  by (rule presI) (auto simp: wp_rules intro: wp_mono [OF presD] presD)

lemma pres_cases [pres_intros]:
  "(b \<Longrightarrow> pres P m) \<Longrightarrow> (\<not> b \<Longrightarrow> pres P n) \<Longrightarrow> pres P (if b then m else n)"
  "(x = None \<Longrightarrow> pres P m) \<Longrightarrow> (\<And>y. x = Some y \<Longrightarrow> pres P (g y)) \<Longrightarrow> pres P (case x of None \<Rightarrow> m | Some y \<Rightarrow> g y)"
  "(\<And>a. z = Inl a \<Longrightarrow> pres P (h a)) \<Longrightarrow> (\<And>b. z = Inr b \<Longrightarrow> pres P (k b)) \<Longrightarrow> pres P (case z of Inl a \<Rightarrow> h a | Inr b \<Rightarrow> k b)"
  "(\<And>a b. p = (a, b) \<Longrightarrow> pres P (l a b)) \<Longrightarrow> pres P (case p of (a, b) \<Rightarrow> l a b)"
  "pres P (f v) \<Longrightarrow> pres P (let w = v in f w)"
  by (auto split: option.split sum.split prod.split)

lemma pres_forE [pres_intros]: "(\<And>x. x \<in> set xs \<Longrightarrow> pres P (g x)) \<Longrightarrow> pres P (forE xs g)"
  by (induction xs) (auto intro: pres_bindE)

section \<open>Codecs\<close>

text \<open>
  A way to write values and to read them back: \<open>ok\<close> are the values for which reading is promised
  to give back what was written. Then what is written tells them apart.
\<close>

locale codec =
  fixes ok :: "'a \<Rightarrow> bool" and writes :: "'a \<Rightarrow> 'b" and reads :: "'b \<Rightarrow> 'a option"
  assumes reads_writes: "ok x \<Longrightarrow> reads (writes x) = Some x"
begin

lemma writes_differ: "ok x \<Longrightarrow> ok y \<Longrightarrow> writes x = writes y \<longleftrightarrow> x = y"
proof (rule iffI)
  assume "ok x" "ok y" "writes x = writes y"
  then have "Some x = Some y" by (simp only: reads_writes [symmetric])
  then show "x = y" by simp
qed simp

lemma writes_inj: "inj_on writes (Collect ok)"
  by (auto simp: inj_on_def writes_differ)

end

end
