(* ===== verification/Base64.thy ===== *)
theory Base64
  imports Prelude
begin

text \<open>
  Go's \<^verbatim>\<open>encoding/base64\<close>, \<open>StdEncoding\<close>: the codec every digest, certificate and
  signature value of the program passes through. The decoder skips carriage returns and
  line feeds anywhere, wants the padding of the last group, refuses anything after it,
  and does not look at the unused low bits of a padded group. The lemmas give the round
  trip that the signing boundary and the verification code rest on.
\<close>

section \<open>The alphabet\<close>

definition b64_char :: "nat \<Rightarrow> char" where
  "b64_char n = char_of (if n < 26 then n + 65 else if n < 52 then n + 71
     else if n < 62 then n - 4 else if n = 62 then 43 else 47)"

definition b64_val :: "char \<Rightarrow> nat option" where
  "b64_val c = (let n = (of_char c :: nat) in
     if 65 \<le> n \<and> n \<le> 90 then Some (n - 65)
     else if 97 \<le> n \<and> n \<le> 122 then Some (n - 71)
     else if 48 \<le> n \<and> n \<le> 57 then Some (n + 4)
     else if n = 43 then Some 62 else if n = 47 then Some 63 else None)"

abbreviation b64_pad :: char where
  "b64_pad \<equiv> CHR ''=''"

definition is_newline :: "char \<Rightarrow> bool" where
  "is_newline c \<longleftrightarrow> c = CHR 0x0A \<or> c = CHR 0x0D"

section \<open>Encoding and decoding\<close>

fun b64_encode :: "bytes \<Rightarrow> string" where
  "b64_encode [] = []"
| "b64_encode [a] =
     [b64_char (unat a div 4), b64_char (unat a mod 4 * 16), b64_pad, b64_pad]"
| "b64_encode [a, b] =
     [b64_char (unat a div 4), b64_char (unat a mod 4 * 16 + unat b div 16),
      b64_char (unat b mod 16 * 4), b64_pad]"
| "b64_encode (a # b # c # rest) =
     [b64_char (unat a div 4), b64_char (unat a mod 4 * 16 + unat b div 16),
      b64_char (unat b mod 16 * 4 + unat c div 64), b64_char (unat c mod 64)] @ b64_encode rest"

definition b64_byte1 :: "nat \<Rightarrow> nat \<Rightarrow> byte" where
  "b64_byte1 x y = of_nat (x * 4 + y div 16)"

definition b64_byte2 :: "nat \<Rightarrow> nat \<Rightarrow> byte" where
  "b64_byte2 y z = of_nat (y mod 16 * 16 + z div 4)"

definition b64_byte3 :: "nat \<Rightarrow> nat \<Rightarrow> byte" where
  "b64_byte3 z w = of_nat (z mod 4 * 64 + w)"

fun b64_groups :: "string \<Rightarrow> bytes option" where
  "b64_groups [] = Some []"
| "b64_groups (a # b # c # d # rest) =
     (case (b64_val a, b64_val b) of
        (Some x, Some y) \<Rightarrow>
          (if c = b64_pad then (if d = b64_pad \<and> rest = [] then Some [b64_byte1 x y] else None)
           else (case b64_val c of None \<Rightarrow> None
             | Some z \<Rightarrow>
                 (if d = b64_pad then (if rest = [] then Some [b64_byte1 x y, b64_byte2 y z] else None)
                  else (case b64_val d of None \<Rightarrow> None
                    | Some w \<Rightarrow> map_option (\<lambda>bs. b64_byte1 x y # b64_byte2 y z # b64_byte3 z w # bs)
                        (b64_groups rest)))))
      | _ \<Rightarrow> None)"
| "b64_groups _ = None"

definition b64_decode :: "string \<Rightarrow> bytes option" where
  "b64_decode s = b64_groups (filter (\<lambda>c. \<not> is_newline c) s)"

section \<open>Round trip\<close>

lemma b64_range:
  assumes "n < 64"
  shows "(of_char (b64_char n) :: nat) =
    (if n < 26 then n + 65 else if n < 52 then n + 71 else if n < 62 then n - 4 else if n = 62 then 43 else 47)"
  using assms by (auto simp: b64_char_def)

lemma b64_val_char [simp]: "n < 64 \<Longrightarrow> b64_val (b64_char n) = Some n"
  by (auto simp: b64_val_def Let_def b64_range)

lemma b64_char_not_newline [simp]: "n < 64 \<Longrightarrow> \<not> is_newline (b64_char n)"
  by (auto simp: is_newline_def dest!: arg_cong [where f = "of_char :: char \<Rightarrow> nat"] simp: b64_range split: if_splits)

lemma b64_char_not_pad [simp]: "n < 64 \<Longrightarrow> b64_char n \<noteq> b64_pad"
  by (auto dest!: arg_cong [where f = "of_char :: char \<Rightarrow> nat"] simp: b64_range split: if_splits)

lemma b64_pad_not_newline [simp]: "\<not> is_newline b64_pad"
  by (simp add: is_newline_def)

lemma b64_digit_bounds [simp]:
  fixes a b c :: byte
  shows "unat a div 4 < 64" and "unat a mod 4 * 16 + unat b div 16 < 64"
    and "unat b mod 16 * 4 + unat c div 64 < 64" and "unat a mod 4 * 16 < 64" and "unat b mod 16 * 4 < 64"
  using unat_byte_less [of a] unat_byte_less [of b] unat_byte_less [of c] by linarith+

lemma b64_digits_nat:
  fixes a b c :: nat
  assumes "b < 256" and "c < 256"
  shows "a div 4 * 4 + (a mod 4 * 16 + b div 16) div 16 = a"
    and "a div 4 * 4 + (a mod 4 * 16) div 16 = a"
    and "(a mod 4 * 16 + b div 16) mod 16 * 16 + (b mod 16 * 4 + c div 64) div 4 = b"
    and "(a mod 4 * 16 + b div 16) mod 16 * 16 + (b mod 16 * 4) div 4 = b"
    and "(b mod 16 * 4 + c div 64) mod 4 * 64 + c mod 64 = c"
proof -
  have 1: "b div 16 < 16" "c div 64 < 4" using assms by linarith+
  have 2: "(a mod 4 * 16 + b div 16) div 16 = a mod 4" "(a mod 4 * 16 + b div 16) mod 16 = b div 16"
    "(b mod 16 * 4 + c div 64) div 4 = b mod 16" "(b mod 16 * 4 + c div 64) mod 4 = c div 64"
    using 1 by simp_all
  show "a div 4 * 4 + (a mod 4 * 16 + b div 16) div 16 = a"
    and "a div 4 * 4 + (a mod 4 * 16) div 16 = a"
    and "(a mod 4 * 16 + b div 16) mod 16 * 16 + (b mod 16 * 4 + c div 64) div 4 = b"
    and "(a mod 4 * 16 + b div 16) mod 16 * 16 + (b mod 16 * 4) div 4 = b"
    and "(b mod 16 * 4 + c div 64) mod 4 * 64 + c mod 64 = c"
    by (simp_all only: 2) simp_all
qed

lemma b64_bytes_of_digits [simp]:
  fixes a b c :: byte
  shows "b64_byte1 (unat a div 4) (unat a mod 4 * 16 + unat b div 16) = a"
    and "b64_byte1 (unat a div 4) (unat a mod 4 * 16) = a"
    and "b64_byte2 (unat a mod 4 * 16 + unat b div 16) (unat b mod 16 * 4 + unat c div 64) = b"
    and "b64_byte2 (unat a mod 4 * 16 + unat b div 16) (unat b mod 16 * 4) = b"
    and "b64_byte3 (unat b mod 16 * 4 + unat c div 64) (unat c mod 64) = c"
  by (simp_all only: b64_byte1_def b64_byte2_def b64_byte3_def byte_of_nat_unat
      b64_digits_nat [OF unat_byte_less [of b] unat_byte_less [of c]])

lemma b64_encode_no_newline: "filter (\<lambda>c. \<not> is_newline c) (b64_encode bs) = b64_encode bs"
  by (induction bs rule: b64_encode.induct) simp_all

lemma b64_groups_encode: "b64_groups (b64_encode bs) = Some bs"
  by (induction bs rule: b64_encode.induct) simp_all

lemma b64_decode_encode [simp]: "b64_decode (b64_encode bs) = Some bs"
  by (simp add: b64_decode_def b64_encode_no_newline b64_groups_encode)

interpretation b64_text: codec "\<lambda>bs. True" b64_encode b64_decode
  by unfold_locales simp

lemma b64_encode_inj: "b64_encode xs = b64_encode ys \<longleftrightarrow> xs = ys"
  by (simp add: b64_text.writes_differ)

lemma b64_encode_length: "length (b64_encode bs) = (length bs + 2) div 3 * 4"
proof (induction bs rule: b64_encode.induct)
  case (4 a b c rest)
  have "(length (a # b # c # rest) + 2) div 3 = Suc ((length rest + 2) div 3)" by simp
  with 4 show ?case by simp
qed simp_all

lemma b64_decode_nil [simp]: "b64_decode [] = Some []"
  by (simp add: b64_decode_def)

end
