(* ===== verification/Errors.thy ===== *)
theory Errors
  imports Base64
begin

text \<open>
  The errors of the program as values: its sentinel errors, its typed errors, and the
  ways \<^verbatim>\<open>fmt.Errorf\<close> wraps one error in another. \<open>err_is\<close> is \<^verbatim>\<open>errors.Is\<close> (it looks
  through the wrapping), \<open>err_text\<close> is the \<open>Error()\<close> method, whose text ends up in a
  failed job. Where the text would carry a detail the model does not keep (the position
  of a base64 error), the detail is left out.
\<close>

section \<open>Decimal numbers\<close>

definition digit_char :: "nat \<Rightarrow> char" where
  "digit_char d = char_of (48 + d)"

fun show_nat :: "nat \<Rightarrow> string" where
  "show_nat n = (if n < 10 then [digit_char n] else show_nat (n div 10) @ [digit_char (n mod 10)])"

declare show_nat.simps [simp del]

lemma show_nat_small: "n < 10 \<Longrightarrow> show_nat n = [digit_char n]"
  by (subst show_nat.simps) simp

lemma show_nat_step: "10 \<le> n \<Longrightarrow> show_nat n = show_nat (n div 10) @ [digit_char (n mod 10)]"
  by (subst show_nat.simps) simp

lemma show_nat_nonempty [simp]: "show_nat n \<noteq> []"
  by (cases "n < 10") (simp_all add: show_nat_small show_nat_step)

lemma show_nat_length: "n < 10 ^ Suc k \<Longrightarrow> length (show_nat n) \<le> Suc k"
proof (induction k arbitrary: n)
  case 0
  then show ?case by (simp add: show_nat_small)
next
  case (Suc k)
  show ?case
  proof (cases "n < 10")
    case False
    have "n div 10 < 10 ^ Suc k" using Suc.prems by (simp add: less_mult_imp_div_less)
    with False Suc.IH show ?thesis by (simp add: show_nat_step)
  qed (simp add: show_nat_small)
qed

definition is_digit :: "char \<Rightarrow> bool" where
  "is_digit c \<longleftrightarrow> 48 \<le> (of_char c :: nat) \<and> (of_char c :: nat) \<le> 57"

lemma is_digit_char [simp]: "d < 10 \<Longrightarrow> is_digit (digit_char d)"
  by (simp add: is_digit_def digit_char_def)

lemma show_nat_digits: "list_all is_digit (show_nat n)"
proof (induction n rule: show_nat.induct)
  case (1 n)
  then show ?case
    by (cases "n < 10") (simp_all add: show_nat_small show_nat_step)
qed

section \<open>Quoted texts\<close>

text \<open>
  A text in quotes, as the format \<^verbatim>\<open>%q\<close> gives it for the texts the program quotes in its
  errors. \<open>json_char\<close> is how JSON escapes one byte of ASCII (the two differ only in how
  control characters are escaped); whole JSON strings are in \<open>Json_Text\<close>.
\<close>

definition hex_lower :: "nat \<Rightarrow> char" where
  "hex_lower n = (if n < 10 then char_of (48 + n) else char_of (87 + n))"

definition json_char :: "char \<Rightarrow> string" where
  "json_char c =
     (let n = (of_char c :: nat) in
      if n = 34 \<or> n = 92 then [char_of (92 :: nat), c]
      else if n = 10 then [char_of (92 :: nat), CHR ''n'']
      else if n = 13 then [char_of (92 :: nat), CHR ''r'']
      else if n = 9 then [char_of (92 :: nat), CHR ''t'']
      else if n = 8 then [char_of (92 :: nat), CHR ''b'']
      else if n = 12 then [char_of (92 :: nat), CHR ''f'']
      else if n < 32 \<or> n \<in> {60, 62, 38} then [char_of (92 :: nat), CHR ''u'', CHR ''0'', CHR ''0'', hex_lower (n div 16), hex_lower (n mod 16)]
      else [c])"

definition json_string :: "string \<Rightarrow> string" where
  "json_string s = [char_of (34 :: nat)] @ concat (map json_char s) @ [char_of (34 :: nat)]"

definition quoted :: "string \<Rightarrow> string" where
  "quoted s = json_string s"

section \<open>Errors\<close>

datatype seal_candidate = SealCandidate (sc_id: string) (sc_label: string)

datatype err =
    ErrNotFound
  | ErrUnknownFlow | ErrNotClientFlow | ErrWrongState | ErrCSCNotEnabled | ErrBatchUnsupport
  | ErrMixedFormat | ErrNoAuthCert | ErrFlowNotOffered | ErrNoTimestampCert | ErrDocumentRejected
  | ErrBadSignatureEncoding
  | ErrCSCCredentialExpiring | ErrCSCNotBound
  | ErrIdentityNotFound string
  | ErrSealAmbiguous "seal_candidate list"
  | APIError string string nat string  \<comment> \<open>method, path, status, body\<close>
  | ErrDial string                     \<comment> \<open>no connection was made\<close>
  | ErrOther string                    \<comment> \<open>any other error, by its text\<close>
  | ErrPre string err                  \<comment> \<open>\<open>"text: %w"\<close>\<close>
  | ErrPost err string                 \<comment> \<open>\<open>"%w: text"\<close>\<close>
  | ErrBoth err string err             \<comment> \<open>\<open>"%w: %w"\<close>\<close>

fun err_is :: "err \<Rightarrow> err \<Rightarrow> bool" where
  "err_is (ErrPre t e) x \<longleftrightarrow> ErrPre t e = x \<or> err_is e x"
| "err_is (ErrPost e t) x \<longleftrightarrow> ErrPost e t = x \<or> err_is e x"
| "err_is (ErrBoth a t b) x \<longleftrightarrow> ErrBoth a t b = x \<or> err_is a x \<or> err_is b x"
| "err_is e x \<longleftrightarrow> e = x"

text \<open>\<open>as_api_error\<close> is \<^verbatim>\<open>errors.As(err, *APIError)\<close>: the first one in the chain.\<close>

fun as_api_error :: "err \<Rightarrow> err option" where
  "as_api_error (APIError m p st b) = Some (APIError m p st b)"
| "as_api_error (ErrPre t e) = as_api_error e"
| "as_api_error (ErrPost e t) = as_api_error e"
| "as_api_error (ErrBoth a t b) = (case as_api_error a of Some e \<Rightarrow> Some e | None \<Rightarrow> as_api_error b)"
| "as_api_error _ = None"

fun is_dial_error :: "err \<Rightarrow> bool" where
  "is_dial_error (ErrDial t) = True"
| "is_dial_error (ErrPre t e) = is_dial_error e"
| "is_dial_error (ErrPost e t) = is_dial_error e"
| "is_dial_error (ErrBoth a t b) = (is_dial_error a \<or> is_dial_error b)"
| "is_dial_error _ = False"

fun err_text :: "err \<Rightarrow> string" where
  "err_text ErrNotFound = ''job: not found''"
| "err_text ErrUnknownFlow = ''signing: unknown flow''"
| "err_text ErrNotClientFlow = ''signing: not a client-signature flow''"
| "err_text ErrWrongState = ''signing: job not in the expected state''"
| "err_text ErrCSCNotEnabled = ''signing: csc flow not enabled (no CSC client configured)''"
| "err_text ErrBatchUnsupport = ''signing: batch not supported for this flow''"
| "err_text ErrMixedFormat = ''signing: mixed-format batch not supported''"
| "err_text ErrNoAuthCert = ''signing: no auth certificate (supply the signed-in user's authCertificate)''"
| "err_text ErrFlowNotOffered = ''signing: flow not offered by this deployment''"
| "err_text ErrNoTimestampCert = ''signing: no certificate to request the timestamp with (send the signer's authCertificate, or configure this flow to use the deployment's timestamping-access certificate)''"
| "err_text ErrDocumentRejected = ''signing: provider rejected the document as not a valid signed document''"
| "err_text ErrBadSignatureEncoding = ''signing: bad signature encoding''"
| "err_text ErrCSCCredentialExpiring = ''signing: the short-term signing certificate expires before this signing could finish''"
| "err_text ErrCSCNotBound = ''signing: the signature authorization is not bound to these documents''"
| "err_text (ErrIdentityNotFound p) = ''signing: identity not found: '' @ p"
| "err_text (ErrSealAmbiguous cs) = ''signing: seal ambiguous ('' @ show_nat (length cs) @ '' candidates)''"
| "err_text (APIError m p st b) = ''signapi: '' @ m @ '' '' @ p @ '' returned '' @ show_nat st @ '': '' @ b"
| "err_text (ErrDial t) = t"
| "err_text (ErrOther t) = t"
| "err_text (ErrPre t e) = t @ err_text e"
| "err_text (ErrPost e t) = err_text e @ t"
| "err_text (ErrBoth a t b) = err_text a @ t @ err_text b"

text \<open>\<open>bad_base64\<close> stands for \<open>base64.CorruptInputError\<close>.\<close>

definition bad_base64 :: err where
  "bad_base64 = ErrOther ''illegal base64 data''"

lemma err_is_refl [simp]: "err_is e e"
  by (cases e) auto

end
