(* ===== verification/Job.thy ===== *)
theory Job
  imports Errors
begin

text \<open>
  \<^verbatim>\<open>job/job.go\<close>: the signing flows, the job's state machine, the documents of a batch and
  the job aggregate with its operations. A flow and a signature format are texts, as in
  the code, where any request text can be cast to them; a job's state, a document's state,
  the operation and the pending leg take only the values the program writes. Times are
  integers (nanoseconds); \<open>now\<close> is what \<^verbatim>\<open>time.Now()\<close> returned.

  The lemmas show the shape of the state machine (a linear order every transition
  follows, so a job changes state a bounded number of times) and what \<open>Fail\<close> does to
  every document.
\<close>

section \<open>Flows\<close>

type_synonym Flow = string

definition FlowWebEID :: Flow where "FlowWebEID = ''webEid''"
definition FlowLegacyEID :: Flow where "FlowLegacyEID = ''legacyEid''"
definition FlowEParakstsMobile :: Flow where "FlowEParakstsMobile = ''eparakstsMobile''"
definition FlowEIDScan :: Flow where "FlowEIDScan = ''eidScan''"
definition FlowEParakstsMobileEseal :: Flow where "FlowEParakstsMobileEseal = ''eparakstsMobileEseal''"
definition FlowCSCEidScan :: Flow where "FlowCSCEidScan = ''cscEidScan''"
definition FlowCSCEidPlugin :: Flow where "FlowCSCEidPlugin = ''cscEidPlugin''"

lemmas flow_names =
  FlowWebEID_def FlowLegacyEID_def FlowEParakstsMobile_def FlowEIDScan_def
  FlowEParakstsMobileEseal_def FlowCSCEidScan_def FlowCSCEidPlugin_def

definition IsCSC :: "Flow \<Rightarrow> bool" where
  "IsCSC f \<longleftrightarrow> f = FlowCSCEidScan \<or> f = FlowCSCEidPlugin"

definition IsClientSide :: "Flow \<Rightarrow> bool" where
  "IsClientSide f \<longleftrightarrow> f = FlowWebEID \<or> f = FlowLegacyEID"

definition Flows :: "Flow list" where
  "Flows = [FlowWebEID, FlowLegacyEID, FlowEParakstsMobile, FlowEIDScan, FlowEParakstsMobileEseal,
     FlowCSCEidScan, FlowCSCEidPlugin]"

definition Valid :: "Flow \<Rightarrow> bool" where
  "Valid f \<longleftrightarrow> f = FlowWebEID \<or> f = FlowLegacyEID \<or> f = FlowEParakstsMobile \<or> f = FlowEIDScan \<or>
     f = FlowEParakstsMobileEseal \<or> f = FlowCSCEidScan \<or> f = FlowCSCEidPlugin"

section \<open>The state machine\<close>

datatype JobState =
    StatePreparing | StateAwaitingAuthorization | StateAwaitingClientSig | StateSigning
  | StateFinalizing | StateReady | StateFailed

definition Terminal :: "JobState \<Rightarrow> bool" where
  "Terminal s \<longleftrightarrow> s = StateReady \<or> s = StateFailed"

fun transitions :: "JobState \<Rightarrow> JobState \<Rightarrow> bool" where
  "transitions StatePreparing to \<longleftrightarrow> to \<in> {StateAwaitingAuthorization, StateAwaitingClientSig, StateFailed}"
| "transitions StateAwaitingAuthorization to \<longleftrightarrow> to \<in> {StateSigning, StateFailed}"
| "transitions StateAwaitingClientSig to \<longleftrightarrow> to \<in> {StateFinalizing, StateFailed}"
| "transitions StateSigning to \<longleftrightarrow> to \<in> {StateFinalizing, StateFailed}"
| "transitions StateFinalizing to \<longleftrightarrow> to \<in> {StateReady, StateFailed}"
| "transitions _ to \<longleftrightarrow> False"

definition CanTransition :: "JobState \<Rightarrow> JobState \<Rightarrow> bool" where
  "CanTransition from to \<longleftrightarrow> from = to \<or> transitions from to"

text \<open>The order in which the constants are declared; every transition follows it.\<close>

fun state_index :: "JobState \<Rightarrow> nat" where
  "state_index StatePreparing = 0"
| "state_index StateAwaitingAuthorization = 1"
| "state_index StateAwaitingClientSig = 2"
| "state_index StateSigning = 3"
| "state_index StateFinalizing = 4"
| "state_index StateReady = 5"
| "state_index StateFailed = 6"

instantiation JobState :: linorder
begin

definition less_eq_JobState :: "JobState \<Rightarrow> JobState \<Rightarrow> bool" where
  "less_eq_JobState a b \<longleftrightarrow> state_index a \<le> state_index b"

definition less_JobState :: "JobState \<Rightarrow> JobState \<Rightarrow> bool" where
  "less_JobState a b \<longleftrightarrow> state_index a < state_index b"

instance
proof
  fix a b :: JobState
  show "a \<le> b \<Longrightarrow> b \<le> a \<Longrightarrow> a = b"
    by (cases a; cases b) (simp_all add: less_eq_JobState_def)
qed (auto simp: less_eq_JobState_def less_JobState_def)

end

section \<open>Documents and jobs\<close>

type_synonym SignatureFormat = string

definition FormatPAdES :: SignatureFormat where "FormatPAdES = ''PAdES''"
definition FormatXAdES :: SignatureFormat where "FormatXAdES = ''XAdES''"

datatype Operation = OpCreate | OpParallel

datatype DocState = DocPending | DocReady | DocFailed

datatype JobError = JobError (e_Code: string) (e_Message: string)

record Document =
  d_DocumentID :: string
  d_FileName :: string
  d_MimeType :: string
  d_Format :: SignatureFormat
  d_Operation :: Operation
  d_HashOnly :: bool
  d_SessionID :: string
  d_Digest :: string
  d_DigestAlgorithm :: string
  d_DigestsSummary :: string
  d_SignatureValue :: string
  d_State :: DocState
  d_Error :: "JobError option"

datatype OAuthLeg = LegNone | LegProfile | LegSign | LegCredential

record Job =
  j_JobID :: string
  j_Flow :: Flow
  j_State :: JobState
  j_CreatedAt :: int
  j_UpdatedAt :: int
  j_Caller :: string
  j_Locale :: string
  j_PostAuthRedirect :: string
  j_AuthErrorRedirect :: string
  j_SignatureQualifier :: string
  j_SignAlgo :: string
  j_HashAlgorithmOID :: string
  j_DigestsSummary :: string
  j_DigestsSummaryAlgo :: string
  j_SealID :: string
  j_Documents :: "Document list"
  j_OAuthState :: string
  j_PendingLeg :: OAuthLeg
  j_PKCEVerifier :: string
  j_SignIdentityID :: string
  j_SigningCert :: string
  j_AuthCert :: string
  j_CredentialID :: string
  j_ProfileToken :: string
  j_SigningToken :: string
  j_VerificationCode :: string
  j_VerificationMessage :: string
  j_SigningDeadline :: int
  j_SubjectRef :: string
  j_AuditFinalEmitted :: bool
  j_Err :: "JobError option"

text \<open>The zero values of the two structs; the times, which \<open>Prepare\<close> sets, are at the epoch.\<close>

definition emptyDocument :: Document where
  "emptyDocument = \<lparr>d_DocumentID = [], d_FileName = [], d_MimeType = [], d_Format = [],
     d_Operation = OpCreate, d_HashOnly = False, d_SessionID = [], d_Digest = [], d_DigestAlgorithm = [],
     d_DigestsSummary = [], d_SignatureValue = [], d_State = DocPending, d_Error = None\<rparr>"

definition emptyJob :: Job where
  "emptyJob = \<lparr>j_JobID = [], j_Flow = [], j_State = StatePreparing, j_CreatedAt = 0, j_UpdatedAt = 0,
     j_Caller = [], j_Locale = [], j_PostAuthRedirect = [], j_AuthErrorRedirect = [],
     j_SignatureQualifier = [], j_SignAlgo = [], j_HashAlgorithmOID = [], j_DigestsSummary = [],
     j_DigestsSummaryAlgo = [], j_SealID = [], j_Documents = [], j_OAuthState = [],
     j_PendingLeg = LegNone, j_PKCEVerifier = [], j_SignIdentityID = [], j_SigningCert = [],
     j_AuthCert = [], j_CredentialID = [], j_ProfileToken = [], j_SigningToken = [],
     j_VerificationCode = [], j_VerificationMessage = [], j_SigningDeadline = 0, j_SubjectRef = [],
     j_AuditFinalEmitted = False, j_Err = None\<rparr>"

section \<open>Operations\<close>

fun decode_digests :: "Document list \<Rightarrow> err + bytes list" where
  "decode_digests [] = Inr []"
| "decode_digests (d # ds) =
     (case b64_decode (d_Digest d) of
        None \<Rightarrow> Inl (ErrPre (''job: document '' @ quoted (d_DocumentID d) @ '' digest: '') bad_base64)
      | Some b \<Rightarrow> (case decode_digests ds of Inl e \<Rightarrow> Inl e | Inr bs \<Rightarrow> Inr (b # bs)))"

definition Digests :: "Job \<Rightarrow> err + bytes list" where
  "Digests j = decode_digests (j_Documents j)"

definition Transition :: "JobState \<Rightarrow> int \<Rightarrow> Job \<Rightarrow> bool \<times> Job" where
  "Transition to now j =
     (if \<not> CanTransition (j_State j) to then (False, j)
      else (True, j\<lparr>j_State := to, j_UpdatedAt := now\<rparr>))"

definition fail_document :: "string \<Rightarrow> string \<Rightarrow> Document \<Rightarrow> Document" where
  "fail_document code message d =
     (if d_State d \<noteq> DocReady then
        d\<lparr>d_State := DocFailed,
          d_Error := (case d_Error d of None \<Rightarrow> Some (JobError code message) | Some e \<Rightarrow> Some e)\<rparr>
      else d)"

definition Fail :: "string \<Rightarrow> string \<Rightarrow> int \<Rightarrow> Job \<Rightarrow> Job" where
  "Fail code message now j =
     j\<lparr>j_Err := Some (JobError code message),
       j_Documents := map (fail_document code message) (j_Documents j),
       j_State := StateFailed,
       j_UpdatedAt := now\<rparr>"

text \<open>\<open>Doc\<close> returns the place of the first document with the id, so that it can be updated.\<close>

fun doc_index :: "Document list \<Rightarrow> string \<Rightarrow> nat option" where
  "doc_index [] i = None"
| "doc_index (d # ds) i = (if d_DocumentID d = i then Some 0 else map_option Suc (doc_index ds i))"

definition Doc :: "Job \<Rightarrow> string \<Rightarrow> nat option" where
  "Doc j i = doc_index (j_Documents j) i"

definition update_doc :: "nat \<Rightarrow> (Document \<Rightarrow> Document) \<Rightarrow> Job \<Rightarrow> Job" where
  "update_doc i f j = j\<lparr>j_Documents := (j_Documents j)[i := f (j_Documents j ! i)]\<rparr>"

section \<open>Library\<close>

lemma Valid_iff_listed: "Valid f \<longleftrightarrow> f \<in> set Flows"
  by (auto simp: Valid_def Flows_def)

lemma Flows_distinct: "distinct Flows"
  by (simp add: Flows_def flow_names)

lemma IsCSC_not_ClientSide: "IsCSC f \<Longrightarrow> \<not> IsClientSide f"
  by (auto simp: IsCSC_def IsClientSide_def flow_names)

lemma transitions_increase: "transitions a b \<Longrightarrow> a < b"
  by (cases a) (auto simp: less_JobState_def)

lemma CanTransition_mono: "CanTransition a b \<Longrightarrow> a \<le> b"
  by (auto simp: CanTransition_def dest: transitions_increase)

lemma CanTransition_terminal: "Terminal a \<Longrightarrow> CanTransition a b \<longleftrightarrow> b = a"
  by (auto simp: Terminal_def CanTransition_def)

lemma Terminal_simps [simp]:
  "Terminal StateReady" "Terminal StateFailed" "\<not> Terminal StatePreparing"
  "\<not> Terminal StateAwaitingAuthorization" "\<not> Terminal StateAwaitingClientSig"
  "\<not> Terminal StateSigning" "\<not> Terminal StateFinalizing"
  by (simp_all add: Terminal_def)

lemma Transition_state: "j_State (snd (Transition to now j)) = (if CanTransition (j_State j) to then to else j_State j)"
  by (simp add: Transition_def)

lemma Transition_frame [simp]:
  "j_JobID (snd (Transition to now j)) = j_JobID j"
  "j_Documents (snd (Transition to now j)) = j_Documents j"
  "j_OAuthState (snd (Transition to now j)) = j_OAuthState j"
  "j_Flow (snd (Transition to now j)) = j_Flow j"
  by (simp_all add: Transition_def)

lemma Fail_simps [simp]:
  "j_State (Fail c m now j) = StateFailed"
  "j_JobID (Fail c m now j) = j_JobID j"
  "j_OAuthState (Fail c m now j) = j_OAuthState j"
  "j_Flow (Fail c m now j) = j_Flow j"
  "j_Err (Fail c m now j) = Some (JobError c m)"
  "j_Documents (Fail c m now j) = map (fail_document c m) (j_Documents j)"
  by (simp_all add: Fail_def)

lemma decode_digests_ok: "decode_digests ds = Inr bs \<longleftrightarrow> map (\<lambda>d. b64_decode (d_Digest d)) ds = map Some bs"
  by (induction ds arbitrary: bs) (auto split: option.splits sum.splits, blast)

lemma doc_index_Some:
  "doc_index ds i = Some k \<Longrightarrow> k < length ds \<and> d_DocumentID (ds ! k) = i \<and> (\<forall>l < k. d_DocumentID (ds ! l) \<noteq> i)"
proof (induction ds arbitrary: k)
  case (Cons d ds)
  show ?case
  proof (cases "d_DocumentID d = i")
    case False
    with Cons.prems obtain k' where k': "doc_index ds i = Some k'" and k: "k = Suc k'" by auto
    from Cons.IH [OF k'] False show ?thesis
      by (auto simp: k nth_Cons split: nat.splits)
  qed (use Cons.prems in auto)
qed simp

lemma doc_index_None: "doc_index ds i = None \<longleftrightarrow> i \<notin> d_DocumentID ` set ds"
  by (induction ds) auto

section \<open>Properties\<close>

text \<open>A run of the machine: the states after each accepted \<open>Transition\<close>.\<close>

fun follow :: "JobState list \<Rightarrow> Job \<Rightarrow> JobState list" where
  "follow [] j = []"
| "follow (t # ts) j =
     (let (ok, j') = Transition t 0 j in
      if ok \<and> j_State j' \<noteq> j_State j then t # follow ts j' else follow ts j')"

lemma follow_sorted: "sorted_wrt (<) (j_State j # follow ts j)"
proof (induction ts arbitrary: j)
  case (Cons t ts)
  show ?case
  proof (cases "CanTransition (j_State j) t \<and> t \<noteq> j_State j")
    case True
    define j' where "j' = j\<lparr>j_State := t, j_UpdatedAt := 0\<rparr>"
    have "j_State j < t" using True by (auto simp: CanTransition_def dest: transitions_increase)
    moreover have "sorted_wrt (<) (t # follow ts j')" using Cons.IH [of j'] by (simp add: j'_def)
    moreover have "follow (t # ts) j = t # follow ts j'" using True by (simp add: Transition_def j'_def)
    ultimately show ?thesis by (auto intro: order_less_trans)
  next
    case False
    define j' where "j' = snd (Transition t 0 j)"
    have st: "j_State j' = j_State j" using False by (auto simp: j'_def Transition_def)
    then have "follow (t # ts) j = follow ts j'"
      by (simp add: j'_def case_prod_unfold)
    with Cons.IH [of j'] st show ?thesis by simp
  qed
qed simp

text \<open>
  \<open>Transition\<close> is a one-way machine. However it is driven, the states a job moves
  through strictly increase in the declared order, end states are never left, and a
  refused transition changes nothing.
\<close>

theorem transitions_one_way:
  "sorted_wrt (<) (j_State j # follow ts j) \<and>
   (Terminal (j_State j) \<longrightarrow> follow ts j = []) \<and>
   (fst (Transition to now j) \<longleftrightarrow> CanTransition (j_State j) to) \<and>
   (\<not> fst (Transition to now j) \<longrightarrow> snd (Transition to now j) = j)"
proof (intro conjI impI)
  show "sorted_wrt (<) (j_State j # follow ts j)" by (rule follow_sorted)
  assume t: "Terminal (j_State j)"
  then show "follow ts j = []"
  proof (induction ts arbitrary: j)
    case (Cons t ts)
    then show ?case by (auto simp: Transition_def CanTransition_terminal Let_def)
  qed simp
qed (auto simp: Transition_def)

theorem transitions_one_way_witness:
  "follow [StateFailed, StateSigning] (emptyJob\<lparr>j_State := StateReady\<rparr>) = [] \<and>
   snd (Transition StateFailed 3 (emptyJob\<lparr>j_State := StateReady\<rparr>)) = emptyJob\<lparr>j_State := StateReady\<rparr>"
  using transitions_one_way [of "emptyJob\<lparr>j_State := StateReady\<rparr>" "[StateFailed, StateSigning]" StateFailed 3]
  by (simp add: CanTransition_def)

text \<open>
  \<open>Fail\<close> ends the job and every document that was not ready: such a document becomes
  failed and carries an error (the one it had, or the new one), a ready document is left
  as it is, and the job carries the new error.
\<close>

theorem Fail_all_or_nothing:
  "let j' = Fail code message now j in
     j_State j' = StateFailed \<and> j_Err j' = Some (JobError code message) \<and>
     length (j_Documents j') = length (j_Documents j) \<and>
     list_all2 (\<lambda>d d'. if d_State d = DocReady then d' = d
        else d_State d' = DocFailed \<and>
          d_Error d' = (if d_Error d = None then Some (JobError code message) else d_Error d) \<and>
          d_SignatureValue d' = d_SignatureValue d \<and> d_SessionID d' = d_SessionID d)
       (j_Documents j) (j_Documents j')"
proof -
  have "list_all2 (\<lambda>d d'. if d_State d = DocReady then d' = d
        else d_State d' = DocFailed \<and>
          d_Error d' = (if d_Error d = None then Some (JobError code message) else d_Error d) \<and>
          d_SignatureValue d' = d_SignatureValue d \<and> d_SessionID d' = d_SessionID d)
       ds (map (fail_document code message) ds)" for ds
    by (induction ds) (auto simp: fail_document_def split: option.splits)
  then show ?thesis by (simp add: Let_def)
qed

end
