(* ===== verification/Times.thy ===== *)
theory Times
  imports Errors
begin

text \<open>
  The texts of times. A time is the number of nanoseconds since the Unix epoch, in UTC.
  \<open>rfc3339\<close> is what the status response shows (\<open>time.RFC3339\<close>, whole seconds),
  \<open>rfc3339_nano\<close> what \<^verbatim>\<open>time.Time.MarshalJSON\<close> writes for the times of a stored job, and
  \<open>parse_rfc3339\<close> how \<^verbatim>\<open>UnmarshalJSON\<close> reads such a text: the date checked against the
  calendar, a fraction of any length cut at nine digits, \<open>Z\<close> or a numeric offset. The
  laxer texts \<^verbatim>\<open>UnmarshalJSON\<close> also takes (a one-digit hour, a comma before the fraction),
  which nothing writes, are refused. The calendar is the proleptic Gregorian one, over all integers. The lemmas show that every
  time of the years 0 to 9999 is read back to the nanosecond, so storing a job moves no
  time, and its status shows the second it was changed in.
\<close>

section \<open>The calendar\<close>

definition leap :: "int \<Rightarrow> bool" where
  "leap y \<longleftrightarrow> y mod 4 = 0 \<and> (y mod 100 \<noteq> 0 \<or> y mod 400 = 0)"

text \<open>The days before the first of January of a year; day 0 is that of the year 1.\<close>

definition days_before :: "int \<Rightarrow> int" where
  "days_before y = 365 * (y - 1) + (y - 1) div 4 - (y - 1) div 100 + (y - 1) div 400"

definition year_of_day :: "int \<Rightarrow> int" where
  "year_of_day n =
     (case n * 400 div 146097 + 1 of y \<Rightarrow> if days_before (y + 1) \<le> n then y + 1 else y)"

definition months :: "int \<Rightarrow> int list" where
  "months y = [31, if leap y then 29 else 28, 31, 30, 31, 30, 31, 31, 30, 31, 30, 31]"

text \<open>The month and the day in it, both from 0, of a day of the year; and back.\<close>

fun month_day :: "int list \<Rightarrow> int \<Rightarrow> int \<times> int" where
  "month_day [] d = (0, d)"
| "month_day (l # ls) d = (if d < l then (0, d) else (case month_day ls (d - l) of (m, r) \<Rightarrow> (m + 1, r)))"

fun month_start :: "int list \<Rightarrow> int \<Rightarrow> int" where
  "month_start [] m = 0"
| "month_start (l # ls) m = (if m \<le> 0 then 0 else l + month_start ls (m - 1))"

fun month_length :: "int list \<Rightarrow> int \<Rightarrow> int" where
  "month_length [] m = 0"
| "month_length (l # ls) m = (if m \<le> 0 then l else month_length ls (m - 1))"

lemma day_bounds:
  fixes n :: int
  shows "days_before (n * 400 div 146097 + 1) \<le> n" "n < days_before (n * 400 div 146097 + 3)"
proof -
  define p where "p = n * 400 div 146097"
  have b: "k * (x div k) \<le> x" "x < k * (x div k) + k" if "0 < k" for x k :: int
    using that pos_mod_sign [of k x] pos_mod_bound [of k x] mult_div_mod_eq [of k x] by linarith+
  have p: "146097 * p \<le> n * 400" "n * 400 < 146097 * p + 146097"
    using b [of 146097 "n * 400"] by (simp_all add: p_def)
  show "days_before (n * 400 div 146097 + 1) \<le> n"
    using p b [of 4 p] b [of 100 p] b [of 400 p] by (simp add: days_before_def p_def [symmetric])
  show "n < days_before (n * 400 div 146097 + 3)"
    using p b [of 4 "p + 2"] b [of 100 "p + 2"] b [of 400 "p + 2"] by (simp add: days_before_def p_def [symmetric])
qed


lemma year_of_day: "days_before (year_of_day n) \<le> n" "n < days_before (year_of_day n + 1)"
  using day_bounds [of n] by (simp_all add: year_of_day_def add.commute)

lemma div_succ: "0 < k \<Longrightarrow> x div k = (x - 1) div k + (if x mod k = 0 then 1 else 0)" for x k :: int
proof -
  assume k: "0 < k"
  have x: "x = k * (x div k) + x mod k" by simp
  show ?thesis
  proof (cases "x mod k = 0")
    case True
    with x have "x - 1 = k * (x div k - 1) + (k - 1)" by (simp add: algebra_simps)
    then have "(x - 1) div k = x div k - 1" using k by (intro int_div_pos_eq [where r = "k - 1"]) simp_all
    with True show ?thesis by simp
  next
    case False
    have "0 \<le> x mod k - 1" "x mod k - 1 < k" using k False pos_mod_sign [of k x] pos_mod_bound [of k x] by linarith+
    moreover have "x - 1 = k * (x div k) + (x mod k - 1)" using x by linarith
    ultimately have "(x - 1) div k = x div k" by (intro int_div_pos_eq)
    with False show ?thesis by simp
  qed
qed

lemma year_length: "days_before (y + 1) - days_before y = (if leap y then 366 else 365)"
proof -
  have step: "y div k - (y - 1) div k = (if y mod k = 0 then 1 else 0)" if "0 < k" for k
    using div_succ [OF that, of y] by (simp only: add_diff_cancel_left')
  have "y mod 400 = 0 \<Longrightarrow> y mod 100 = 0" "y mod 100 = 0 \<Longrightarrow> y mod 4 = 0"
    using mod_mod_cancel [of 100 400 y] mod_mod_cancel [of 4 100 y] by (simp_all only:) simp_all
  moreover have "days_before (y + 1) - days_before y =
      365 + (y div 4 - (y - 1) div 4) - (y div 100 - (y - 1) div 100) + (y div 400 - (y - 1) div 400)"
    by (simp add: days_before_def)
  ultimately show ?thesis by (auto simp only: step leap_def zero_less_numeral split: if_splits)
qed

lemma sum_months: "sum_list (months y) = (if leap y then 366 else 365)"
  by (simp add: months_def)

lemma month_day:
  "month_day ls d = (m, r) \<Longrightarrow> 0 \<le> d \<Longrightarrow> d < sum_list ls \<Longrightarrow>
     0 \<le> m \<and> m < int (length ls) \<and> 0 \<le> r \<and> r < month_length ls m \<and> month_start ls m + r = d"
proof (induction ls arbitrary: d m)
  case (Cons l ls)
  show ?case
  proof (cases "d < l")
    case False
    obtain m' where m': "month_day ls (d - l) = (m', r)" "m = m' + 1"
      using Cons.prems(1) False by (auto split: prod.splits)
    with Cons.IH [OF m'(1)] False Cons.prems show ?thesis by auto
  qed (use Cons.prems in auto)
qed simp

section \<open>Writing\<close>

definition second :: int where "second = 1000000000"

text \<open>The day a time falls on, its year, its day of the year and its second of the day.\<close>

definition day_of :: "int \<Rightarrow> int" where "day_of t = t div second div 86400 + 719162"

definition year_of :: "int \<Rightarrow> int" where "year_of t = year_of_day (day_of t)"

definition in_range :: "int \<Rightarrow> bool" where "in_range t \<longleftrightarrow> days_before 0 \<le> day_of t \<and> day_of t < days_before 10000"

definition pad2 :: "int \<Rightarrow> string" where
  "pad2 n = [digit_char (nat (n div 10)), digit_char (nat (n mod 10))]"

definition pad4 :: "int \<Rightarrow> string" where
  "pad4 n = pad2 (n div 100) @ pad2 (n mod 100)"

definition pad9 :: "int \<Rightarrow> string" where
  "pad9 n = pad4 (n div 100000) @ pad4 (n mod 100000 div 10) @ [digit_char (nat (n mod 10))]"

definition clock_text :: "int \<Rightarrow> string" where
  "clock_text s = pad2 (s div 3600) @ '':'' @ pad2 (s div 60 mod 60) @ '':'' @ pad2 (s mod 60)"

definition date_text :: "int \<Rightarrow> string" where
  "date_text n =
     (case year_of_day n of y \<Rightarrow> case month_day (months y) (n - days_before y) of (m, r) \<Rightarrow>
        pad4 y @ ''-'' @ pad2 (m + 1) @ ''-'' @ pad2 (r + 1))"

definition seconds_text :: "int \<Rightarrow> string" where
  "seconds_text t = date_text (day_of t) @ ''T'' @ clock_text (t div second mod 86400)"

definition frac_text :: "int \<Rightarrow> string" where
  "frac_text n = (if n = 0 then [] else ''.'' @ rev (dropWhile (\<lambda>c. c = CHR ''0'') (rev (pad9 n))))"

definition rfc3339 :: "int \<Rightarrow> string" where
  "rfc3339 t = seconds_text t @ ''Z''"

definition rfc3339_nano :: "int \<Rightarrow> string" where
  "rfc3339_nano t = seconds_text t @ frac_text (t mod second) @ ''Z''"

section \<open>Reading\<close>

text \<open>Each reader takes its part off the front of the text and gives the rest.\<close>

definition digit_of :: "char \<Rightarrow> int" where "digit_of c = int (of_char c) - 48"

fun read2 :: "string \<Rightarrow> (int \<times> string) option" where
  "read2 (a # b # s) = (if is_digit a \<and> is_digit b then Some (10 * digit_of a + digit_of b, s) else None)"
| "read2 s = None"

definition read2_in :: "int \<Rightarrow> int \<Rightarrow> string \<Rightarrow> (int \<times> string) option" where
  "read2_in lo hi s = (case read2 s of Some (n, s') \<Rightarrow> if lo \<le> n \<and> n \<le> hi then Some (n, s') else None | None \<Rightarrow> None)"

fun lit :: "char \<Rightarrow> string \<Rightarrow> string option" where
  "lit c (x # s) = (if x = c then Some s else None)"
| "lit c [] = None"

definition read4 :: "string \<Rightarrow> (int \<times> string) option" where
  "read4 s = Option.bind (read2 s) (\<lambda>(a, s). Option.bind (read2 s) (\<lambda>(b, s). Some (100 * a + b, s)))"

text \<open>The day of a date, and the second of the day of a clock time.\<close>

definition read_date :: "string \<Rightarrow> (int \<times> string) option" where
  "read_date s =
     Option.bind (read4 s) (\<lambda>(y, s). Option.bind (lit CHR ''-'' s) (\<lambda>s.
     Option.bind (read2_in 1 12 s) (\<lambda>(m, s). Option.bind (lit CHR ''-'' s) (\<lambda>s.
     Option.bind (read2_in 1 (month_length (months y) (m - 1)) s) (\<lambda>(d, s).
     Some (days_before y + month_start (months y) (m - 1) + d - 1, s))))))"

definition read_clock :: "string \<Rightarrow> (int \<times> string) option" where
  "read_clock s =
     Option.bind (read2_in 0 23 s) (\<lambda>(h, s). Option.bind (lit CHR '':'' s) (\<lambda>s.
     Option.bind (read2_in 0 59 s) (\<lambda>(m, s). Option.bind (lit CHR '':'' s) (\<lambda>s.
     Option.bind (read2_in 0 59 s) (\<lambda>(x, s). Some (h * 3600 + m * 60 + x, s))))))"

fun nanos_of :: "string \<Rightarrow> int \<Rightarrow> int" where
  "nanos_of [] u = 0"
| "nanos_of (c # s) u = digit_of c * u + nanos_of s (u div 10)"

fun read_frac :: "string \<Rightarrow> int \<times> string" where
  "read_frac (p # d # s) =
     (if p = CHR ''.'' \<and> is_digit d then (nanos_of (takeWhile is_digit (d # s)) 100000000, dropWhile is_digit s)
      else (0, p # d # s))"
| "read_frac s = (0, s)"

definition read_zone :: "string \<Rightarrow> int option" where
  "read_zone s =
     (if s = ''Z'' then Some 0
      else case s of [] \<Rightarrow> None | sg # s \<Rightarrow>
        if sg = CHR ''+'' \<or> sg = CHR ''-'' then
          Option.bind (read2_in 0 23 s) (\<lambda>(h, s). Option.bind (lit CHR '':'' s) (\<lambda>s.
          Option.bind (read2_in 0 59 s) (\<lambda>(m, s).
          if s = [] then Some (if sg = CHR ''-'' then - (h * 60 + m) * 60 else (h * 60 + m) * 60) else None)))
        else None)"

definition parse_rfc3339 :: "string \<Rightarrow> int option" where
  "parse_rfc3339 s =
     Option.bind (read_date s) (\<lambda>(n, s). Option.bind (lit CHR ''T'' s) (\<lambda>s.
     Option.bind (read_clock s) (\<lambda>(c, s). case read_frac s of (f, s) \<Rightarrow>
     Option.bind (read_zone s) (\<lambda>z. Some (((n - 719162) * 86400 + c - z) * second + f)))))"

section \<open>Round trip\<close>

lemma digit_of_char: "0 \<le> d \<Longrightarrow> d < 10 \<Longrightarrow> is_digit (digit_char (nat d)) \<and> digit_of (digit_char (nat d)) = d"
  using is_digit_char [of "nat d"] by (simp add: digit_of_def digit_char_def nat_less_iff)

lemma read2_pad2 [simp]: "0 \<le> n \<Longrightarrow> n < 100 \<Longrightarrow> read2 (pad2 n @ s) = Some (n, s)"
  using digit_of_char [of "n div 10"] digit_of_char [of "n mod 10"] by (simp add: pad2_def)

lemma read2_in_pad2 [simp]:
  "0 \<le> lo \<Longrightarrow> hi < 100 \<Longrightarrow> lo \<le> n \<Longrightarrow> n \<le> hi \<Longrightarrow> read2_in lo hi (pad2 n @ s) = Some (n, s)"
  by (simp add: read2_in_def)

lemma read4_pad4 [simp]: "0 \<le> n \<Longrightarrow> n < 10000 \<Longrightarrow> read4 (pad4 n @ s) = Some (n, s)"
  by (simp add: read4_def pad4_def)

lemma days_before_mono: "y \<le> y' \<Longrightarrow> days_before y \<le> days_before y'"
proof (induction y' rule: int_ge_induct)
  case (step i)
  then show ?case using year_length [of i] by (simp split: if_splits)
qed simp

lemma year_range:
  assumes "days_before a \<le> n" "n < days_before b"
  shows "a \<le> year_of_day n \<and> year_of_day n < b"
  using assms year_of_day [of n] days_before_mono [of "year_of_day n + 1" a] days_before_mono [of b "year_of_day n"]
  by linarith

lemma month_length_bound: "month_length (months y) m < 99"
  by (simp add: months_def)

text \<open>The parts of a date of these years.\<close>

lemma date_parts:
  assumes "days_before 0 \<le> n" "n < days_before 10000"
  obtains m r where "date_text n = pad4 (year_of_day n) @ ''-'' @ pad2 (m + 1) @ ''-'' @ pad2 (r + 1)"
    "0 \<le> m" "m < 12" "0 \<le> r" "r + 1 < 100" "r < month_length (months (year_of_day n)) m"
    "days_before (year_of_day n) + month_start (months (year_of_day n)) m + r = n"
proof -
  let ?y = "year_of_day n"
  obtain m r where mr: "month_day (months ?y) (n - days_before ?y) = (m, r)" by fastforce
  have "0 \<le> n - days_before ?y \<and> n - days_before ?y < sum_list (months ?y)"
    using year_of_day [of n] year_length [of ?y] by (simp add: sum_months)
  with month_day [OF mr]
  have m: "0 \<le> m" "m < int (length (months ?y))" "0 \<le> r" "r < month_length (months ?y) m" "month_start (months ?y) m + r = n - days_before ?y"
    by auto
  show thesis
  proof (rule that [of m r])
    show "m < 12" using m(2) by (simp add: months_def)
    show "r + 1 < 100" using m(4) month_length_bound [of ?y m] by linarith
  qed (use m mr in \<open>simp_all add: date_text_def\<close>)
qed

lemma read_date_text:
  assumes "days_before 0 \<le> n" "n < days_before 10000"
  shows "read_date (date_text n @ s) = Some (n, s)"
proof -
  obtain m r where "date_text n = pad4 (year_of_day n) @ ''-'' @ pad2 (m + 1) @ ''-'' @ pad2 (r + 1)"
    "0 \<le> m" "m < 12" "0 \<le> r" "r < month_length (months (year_of_day n)) m"
    "days_before (year_of_day n) + month_start (months (year_of_day n)) m + r = n"
    using date_parts [OF assms] by blast
  with year_range [OF assms] month_length_bound [of "year_of_day n" m] show ?thesis
    by (simp add: read_date_def)
qed

lemma read_clock_parts:
  assumes "0 \<le> h" "h \<le> 23" "0 \<le> m" "m \<le> 59" "0 \<le> x" "x \<le> 59"
  shows "read_clock (pad2 h @ '':'' @ pad2 m @ '':'' @ pad2 x @ s) = Some (h * 3600 + m * 60 + x, s)"
  using assms by (simp add: read_clock_def)

lemma clock_parts: "c div 3600 * 3600 + c div 60 mod 60 * 60 + c mod 60 = c" for c :: int
proof -
  have "c div 3600 = c div 60 div 60" using zdiv_zmult2_eq [of 60 c 60] by simp
  then have "c div 3600 * 3600 + c div 60 mod 60 * 60 = 60 * (c div 60)"
    using div_mult_mod_eq [of "c div 60" 60] by (simp only:)
  then show ?thesis by simp
qed

lemma read_clock_text:
  assumes "0 \<le> c" "c < 86400"
  shows "read_clock (clock_text c @ s) = Some (c, s)"
proof -
  have "0 \<le> c div 3600" "c div 3600 < 24" using assms by (simp_all add: div_less_iff_less_mult)
  moreover have "x mod 60 \<le> 59" for x :: int by simp
  ultimately show ?thesis
    using read_clock_parts [of "c div 3600" "c div 60 mod 60" "c mod 60" s] by (simp only: clock_text_def append_assoc clock_parts)
qed

text \<open>A fraction is read back although its trailing zeros are not written.\<close>

lemma nanos_of_append: "\<exists>u'. nanos_of (xs @ ys) u = nanos_of xs u + nanos_of ys u'"
proof (induction xs arbitrary: u)
  case (Cons x xs)
  from Cons.IH [of "u div 10"] show ?case by auto
qed auto

lemma nanos_of_zeros: "list_all (\<lambda>c. c = CHR ''0'') zs \<Longrightarrow> nanos_of zs u = 0"
  by (induction zs arbitrary: u) (auto simp: digit_of_def)

lemma trimmed: "\<exists>zs. xs = rev (dropWhile p (rev xs)) @ zs \<and> list_all p zs"
proof -
  have "xs = rev (dropWhile p (rev xs)) @ rev (takeWhile p (rev xs))"
    by (simp flip: rev_append)
  then show ?thesis by (metis list_all_rev list_all_iff set_takeWhileD)
qed

lemma pad9_digits: "0 \<le> n \<Longrightarrow> n < second \<Longrightarrow> list_all is_digit (pad9 n)"
  using digit_of_char by (auto simp: pad9_def pad4_def pad2_def second_def)

lemma digit_value: "0 \<le> d \<Longrightarrow> d < 10 \<Longrightarrow> digit_of (digit_char (nat d)) = d"
  using digit_of_char by blast

lemma nanos_of_pad2: "0 \<le> m \<Longrightarrow> m < 100 \<Longrightarrow> nanos_of (pad2 m @ s) (10 * u) = m * u + nanos_of s (u div 10)"
proof -
  assume m: "0 \<le> m" "m < 100"
  then have "nanos_of (pad2 m @ s) (10 * u) = 10 * (m div 10) * u + m mod 10 * u + nanos_of s (u div 10)"
    by (simp add: pad2_def digit_value div_less_iff_less_mult)
  also have "\<dots> = m * u + nanos_of s (u div 10)" by (simp only: distrib_right [symmetric] mult_div_mod_eq)
  finally show ?thesis .
qed

lemma nanos_of_pad4: "0 \<le> m \<Longrightarrow> m < 10000 \<Longrightarrow> nanos_of (pad4 m @ s) (1000 * u) = m * u + nanos_of s (u div 10)"
proof -
  assume m: "0 \<le> m" "m < 10000"
  have "nanos_of (pad4 m @ s) (1000 * u) = m div 100 * (100 * u) + nanos_of (pad2 (m mod 100) @ s) (10 * u)"
    using nanos_of_pad2 [of "m div 100" "pad2 (m mod 100) @ s" "100 * u"] m by (simp add: pad4_def div_less_iff_less_mult)
  also have "\<dots> = (100 * (m div 100) + m mod 100) * u + nanos_of s (u div 10)"
    by (simp only: nanos_of_pad2 pos_mod_sign pos_mod_bound zero_less_numeral distrib_right mult.assoc mult.left_commute add.assoc)
  also have "\<dots> = m * u + nanos_of s (u div 10)" by (simp only: mult_div_mod_eq)
  finally show ?thesis .
qed

lemma nanos_of_pad9:
  assumes "0 \<le> n" "n < second"
  shows "nanos_of (pad9 n) 100000000 = n"
proof -
  have h: "0 \<le> n div 100000" "n div 100000 < 10000" using assms by (auto simp: second_def)
  have "nanos_of (pad9 n) 100000000 = 100000 * (n div 100000) + (10 * (n mod 100000 div 10) + n mod 10)"
    using nanos_of_pad4 [OF h, of "pad4 (n mod 100000 div 10) @ [digit_char (nat (n mod 10))]" 100000]
      nanos_of_pad4 [of "n mod 100000 div 10" "[digit_char (nat (n mod 10))]" 10]
    by (simp add: pad9_def digit_value div_less_iff_less_mult)
  also have "\<dots> = 100000 * (n div 100000) + (10 * (n mod 100000 div 10) + n mod 100000 mod 10)" by (simp add: mod_mod_cancel)
  also have "\<dots> = n" by (simp only: mult_div_mod_eq)
  finally show ?thesis .
qed

lemma read_frac_text:
  assumes "0 \<le> n" "n < second"
  shows "read_frac (frac_text n @ ''Z'') = (n, ''Z'')"
proof (cases "n = 0")
  case False
  obtain ds zs where ds: "ds = rev (dropWhile (\<lambda>c. c = CHR ''0'') (rev (pad9 n)))"
    and zs: "pad9 n = ds @ zs" "list_all (\<lambda>c. c = CHR ''0'') zs" using trimmed by blast
  have val: "nanos_of ds 100000000 = n"
    using nanos_of_append [of ds zs 100000000] nanos_of_pad9 [OF assms] nanos_of_zeros [OF zs(2)] by (auto simp: zs(1))
  with False obtain x xs where xs: "ds = x # xs" by (cases ds) auto
  have all: "list_all is_digit (x # xs)" using pad9_digits [OF assms] by (simp add: zs(1) xs)
  have Z: "\<not> is_digit CHR ''Z''" by (simp add: is_digit_def)
  from all Z have "takeWhile is_digit (x # xs @ ''Z'') = x # xs" "dropWhile is_digit (xs @ ''Z'') = ''Z''"
    by (auto simp: list_all_iff takeWhile_append dropWhile_append)
  with all val False xs show ?thesis by (simp add: frac_text_def ds [symmetric])
qed (simp add: frac_text_def)

text \<open>Every time of the years 0 to 9999 is read back from its text, to the nanosecond.\<close>

lemma time_parts: "t = ((day_of t - 719162) * 86400 + t div second mod 86400) * second + t mod second"
  by (simp add: day_of_def)

lemma parse_seconds_text:
  assumes "in_range t" "0 \<le> n" "n < second"
  shows "parse_rfc3339 (seconds_text t @ frac_text n @ ''Z'') = Some (t div second * second + n)"
proof -
  have "read_clock (clock_text (t div second mod 86400) @ s) = Some (t div second mod 86400, s)" for s
    by (rule read_clock_text) simp_all
  moreover have "(day_of t - 719162) * 86400 + t div second mod 86400 = t div second" by (simp add: day_of_def)
  ultimately show ?thesis
    using assms by (simp add: parse_rfc3339_def seconds_text_def in_range_def read_date_text read_frac_text read_zone_def)
qed

lemma parse_rfc3339_nano [simp]: "in_range t \<Longrightarrow> parse_rfc3339 (rfc3339_nano t) = Some t"
  using parse_seconds_text [of t "t mod second"] by (simp add: rfc3339_nano_def second_def)

lemma parse_rfc3339_text [simp]: "in_range t \<Longrightarrow> parse_rfc3339 (rfc3339 t) = Some (t div second * second)"
  using parse_seconds_text [of t 0] by (simp add: rfc3339_def frac_text_def second_def)

interpretation nano_text: codec in_range rfc3339_nano parse_rfc3339
  by unfold_locales simp

interpretation second_text: codec "\<lambda>s. in_range (s * second)" "\<lambda>s. rfc3339 (s * second)" "\<lambda>x. map_option (\<lambda>t. t div second) (parse_rfc3339 x)"
  by unfold_locales (simp add: second_def)

lemma rfc3339_whole: "rfc3339 t = rfc3339 (t div second * second)" "in_range t = in_range (t div second * second)"
  by (simp_all add: rfc3339_def seconds_text_def in_range_def day_of_def second_def)

lemma rfc3339_differ: "in_range t \<Longrightarrow> in_range u \<Longrightarrow> rfc3339 t = rfc3339 u \<longleftrightarrow> t div second = u div second"
  using second_text.writes_differ [of "t div second" "u div second"] by (simp only: rfc3339_whole [symmetric])

end
