(* ===== verification/Job_Json.thy ===== *)
theory Job_Json
  imports Job Times
begin

text \<open>
  How a job is written to Redis: the JSON object that the struct tags of \<open>Job\<close>,
  \<open>Document\<close> and \<open>Error\<close> in \<^verbatim>\<open>job/job.go\<close> give it, and how it is read back. A field
  tagged \<open>omitempty\<close> is left out when it has its zero value; a missing field and a null
  read as the zero value; a field of the wrong type makes the whole read fail, and so does
  a text that is not one of the constants of a type with constants. JSON is its value here
  (the tree); its text, in which a time is a quoted RFC 3339 text, is in \<open>Json_Text\<close>. A
  time is read from its value or from its text. The lemmas give the round trip: nothing a
  job carries is lost between two steps that different replicas run.
\<close>

section \<open>JSON values\<close>

text \<open>\<open>JTime\<close> is a \<^verbatim>\<open>time.Time\<close> that has not been written as text yet.\<close>

datatype json =
    JNull | JBool bool | JNum int | JStr string | JTime int
  | JArr "json list" | JObj "(string \<times> json) list"

text \<open>An object from its fields, those that are omitted left out, and field access.\<close>

definition mk_obj :: "(string \<times> json option) list \<Rightarrow> json" where
  "mk_obj fs = JObj (concat (map (\<lambda>(k, v). case v of None \<Rightarrow> [] | Some x \<Rightarrow> [(k, x)]) fs))"

fun field :: "json \<Rightarrow> string \<Rightarrow> json option" where
  "field (JObj fs) k = map_of fs k"
| "field _ k = None"

definition omit_str :: "string \<Rightarrow> json option" where
  "omit_str s = (if s = [] then None else Some (JStr s))"

definition omit_bool :: "bool \<Rightarrow> json option" where
  "omit_bool b = (if b then Some (JBool True) else None)"

definition omit_num :: "int \<Rightarrow> json option" where
  "omit_num n = (if n = 0 then None else Some (JNum n))"

fun is_str :: "json option \<Rightarrow> bool" where
  "is_str (Some (JStr s)) = True" | "is_str (Some JNull) = True" | "is_str None = True" | "is_str _ = False"

fun is_num :: "json option \<Rightarrow> bool" where
  "is_num (Some (JNum n)) = True" | "is_num (Some JNull) = True" | "is_num None = True" | "is_num _ = False"

fun is_bool :: "json option \<Rightarrow> bool" where
  "is_bool (Some (JBool b)) = True" | "is_bool (Some JNull) = True" | "is_bool None = True" | "is_bool _ = False"

fun is_time :: "json option \<Rightarrow> bool" where
  "is_time (Some (JTime t)) = True" | "is_time (Some (JStr s)) = (parse_rfc3339 s \<noteq> None)"
| "is_time (Some JNull) = True" | "is_time None = True" | "is_time _ = False"

fun str_of :: "json option \<Rightarrow> string" where
  "str_of (Some (JStr s)) = s" | "str_of _ = []"

fun num_of :: "json option \<Rightarrow> int" where
  "num_of (Some (JNum n)) = n" | "num_of _ = 0"

fun bool_of :: "json option \<Rightarrow> bool" where
  "bool_of (Some (JBool b)) = b" | "bool_of _ = False"

text \<open>The zero \<^verbatim>\<open>time.Time\<close> is the start of the year 1.\<close>

fun time_of :: "json option \<Rightarrow> int" where
  "time_of (Some (JTime t)) = t"
| "time_of (Some (JStr s)) = (case parse_rfc3339 s of Some t \<Rightarrow> t | None \<Rightarrow> 0)"
| "time_of _ = - 62135596800 * second"

section \<open>The constants as texts\<close>

fun state_str :: "JobState \<Rightarrow> string" where
  "state_str StatePreparing = ''PREPARING''"
| "state_str StateAwaitingAuthorization = ''AWAITING_AUTHORIZATION''"
| "state_str StateAwaitingClientSig = ''AWAITING_CLIENT_SIGNATURE''"
| "state_str StateSigning = ''SIGNING''"
| "state_str StateFinalizing = ''FINALIZING''"
| "state_str StateReady = ''READY''"
| "state_str StateFailed = ''FAILED''"

definition state_of_str :: "string \<Rightarrow> JobState option" where
  "state_of_str s = find (\<lambda>x. state_str x = s) [StatePreparing, StateAwaitingAuthorization,
     StateAwaitingClientSig, StateSigning, StateFinalizing, StateReady, StateFailed]"

fun op_str :: "Operation \<Rightarrow> string" where
  "op_str OpCreate = ''create''" | "op_str OpParallel = ''parallel''"

definition op_of_str :: "string \<Rightarrow> Operation option" where
  "op_of_str s = find (\<lambda>x. op_str x = s) [OpCreate, OpParallel]"

fun dstate_str :: "DocState \<Rightarrow> string" where
  "dstate_str DocPending = ''PENDING''" | "dstate_str DocReady = ''READY''" | "dstate_str DocFailed = ''FAILED''"

definition dstate_of_str :: "string \<Rightarrow> DocState option" where
  "dstate_of_str s = find (\<lambda>x. dstate_str x = s) [DocPending, DocReady, DocFailed]"

fun leg_num :: "OAuthLeg \<Rightarrow> int" where
  "leg_num LegNone = 0" | "leg_num LegProfile = 1" | "leg_num LegSign = 2" | "leg_num LegCredential = 3"

definition leg_of_num :: "int \<Rightarrow> OAuthLeg option" where
  "leg_of_num n = find (\<lambda>x. leg_num x = n) [LegNone, LegProfile, LegSign, LegCredential]"

section \<open>Writing\<close>

definition error_json :: "JobError \<Rightarrow> json" where
  "error_json e = mk_obj [(''code'', Some (JStr (e_Code e))), (''message'', Some (JStr (e_Message e)))]"

definition document_json :: "Document \<Rightarrow> json" where
  "document_json d = mk_obj [
     (''document_id'', Some (JStr (d_DocumentID d))),
     (''file_name'', Some (JStr (d_FileName d))),
     (''mime_type'', omit_str (d_MimeType d)),
     (''format'', Some (JStr (d_Format d))),
     (''operation'', Some (JStr (op_str (d_Operation d)))),
     (''hash_only'', omit_bool (d_HashOnly d)),
     (''session_id'', omit_str (d_SessionID d)),
     (''digest'', omit_str (d_Digest d)),
     (''digest_algorithm'', omit_str (d_DigestAlgorithm d)),
     (''digests_summary'', omit_str (d_DigestsSummary d)),
     (''signature_value'', omit_str (d_SignatureValue d)),
     (''state'', Some (JStr (dstate_str (d_State d)))),
     (''error'', map_option error_json (d_Error d))]"

definition job_json :: "Job \<Rightarrow> json" where
  "job_json j = mk_obj [
     (''job_id'', Some (JStr (j_JobID j))),
     (''flow'', Some (JStr (j_Flow j))),
     (''state'', Some (JStr (state_str (j_State j)))),
     (''created_at'', Some (JTime (j_CreatedAt j))),
     (''updated_at'', Some (JTime (j_UpdatedAt j))),
     (''caller'', omit_str (j_Caller j)),
     (''locale'', omit_str (j_Locale j)),
     (''post_auth_redirect'', omit_str (j_PostAuthRedirect j)),
     (''auth_error_redirect'', omit_str (j_AuthErrorRedirect j)),
     (''signature_qualifier'', omit_str (j_SignatureQualifier j)),
     (''sign_algo'', omit_str (j_SignAlgo j)),
     (''hash_algorithm_oid'', omit_str (j_HashAlgorithmOID j)),
     (''digests_summary'', omit_str (j_DigestsSummary j)),
     (''digests_summary_algo'', omit_str (j_DigestsSummaryAlgo j)),
     (''seal_id'', omit_str (j_SealID j)),
     (''documents'', Some (JArr (map document_json (j_Documents j)))),
     (''oauth_state'', omit_str (j_OAuthState j)),
     (''pending_leg'', omit_num (leg_num (j_PendingLeg j))),
     (''pkce_verifier'', omit_str (j_PKCEVerifier j)),
     (''sign_identity_id'', omit_str (j_SignIdentityID j)),
     (''signing_cert'', omit_str (j_SigningCert j)),
     (''auth_cert'', omit_str (j_AuthCert j)),
     (''credential_id'', omit_str (j_CredentialID j)),
     (''profile_token'', omit_str (j_ProfileToken j)),
     (''signing_token'', omit_str (j_SigningToken j)),
     (''verification_code'', omit_str (j_VerificationCode j)),
     (''verification_message'', omit_str (j_VerificationMessage j)),
     (''signing_deadline'', omit_num (j_SigningDeadline j)),
     (''subject_ref'', omit_str (j_SubjectRef j)),
     (''audit_final_emitted'', omit_bool (j_AuditFinalEmitted j)),
     (''err'', map_option error_json (j_Err j))]"

section \<open>Reading\<close>

fun is_obj :: "json \<Rightarrow> bool" where
  "is_obj (JObj fs) = True" | "is_obj _ = False"

definition error_of_json :: "json \<Rightarrow> JobError option" where
  "error_of_json v =
     (if is_obj v \<and> is_str (field v ''code'') \<and> is_str (field v ''message'')
      then Some (JobError (str_of (field v ''code'')) (str_of (field v ''message''))) else None)"

fun opt_error_of_json :: "json option \<Rightarrow> JobError option option" where
  "opt_error_of_json None = Some None"
| "opt_error_of_json (Some JNull) = Some None"
| "opt_error_of_json (Some x) = map_option Some (error_of_json x)"

definition document_strs :: "string list" where
  "document_strs = [''document_id'', ''file_name'', ''mime_type'', ''format'', ''operation'', ''session_id'',
     ''digest'', ''digest_algorithm'', ''digests_summary'', ''signature_value'', ''state'']"

definition document_of_json :: "json \<Rightarrow> Document option" where
  "document_of_json v =
     (if list_all (\<lambda>k. is_str (field v k)) document_strs \<and> is_bool (field v ''hash_only'') then
        (case (op_of_str (str_of (field v ''operation'')), dstate_of_str (str_of (field v ''state'')),
               opt_error_of_json (field v ''error'')) of
           (Some op, Some st, Some e) \<Rightarrow> Some \<lparr>
             d_DocumentID = str_of (field v ''document_id''),
             d_FileName = str_of (field v ''file_name''),
             d_MimeType = str_of (field v ''mime_type''),
             d_Format = str_of (field v ''format''),
             d_Operation = op,
             d_HashOnly = bool_of (field v ''hash_only''),
             d_SessionID = str_of (field v ''session_id''),
             d_Digest = str_of (field v ''digest''),
             d_DigestAlgorithm = str_of (field v ''digest_algorithm''),
             d_DigestsSummary = str_of (field v ''digests_summary''),
             d_SignatureValue = str_of (field v ''signature_value''),
             d_State = st,
             d_Error = e\<rparr>
         | _ \<Rightarrow> None)
      else None)"

fun documents_of_json :: "json option \<Rightarrow> Document list option" where
  "documents_of_json (Some (JArr vs)) = those (map document_of_json vs)"
| "documents_of_json (Some JNull) = Some []"
| "documents_of_json None = Some []"
| "documents_of_json _ = None"

definition job_strs :: "string list" where
  "job_strs = [''job_id'', ''flow'', ''state'', ''caller'', ''locale'', ''post_auth_redirect'', ''auth_error_redirect'',
     ''signature_qualifier'', ''sign_algo'', ''hash_algorithm_oid'', ''digests_summary'', ''digests_summary_algo'',
     ''seal_id'', ''oauth_state'', ''pkce_verifier'', ''sign_identity_id'', ''signing_cert'', ''auth_cert'',
     ''credential_id'', ''profile_token'', ''signing_token'', ''verification_code'', ''verification_message'',
     ''subject_ref'']"

definition job_nums :: "string list" where
  "job_nums = [''pending_leg'', ''signing_deadline'']"

definition job_times :: "string list" where
  "job_times = [''created_at'', ''updated_at'']"

definition job_of_json :: "json \<Rightarrow> Job option" where
  "job_of_json v =
     (if list_all (\<lambda>k. is_str (field v k)) job_strs \<and> list_all (\<lambda>k. is_num (field v k)) job_nums \<and>
         list_all (\<lambda>k. is_time (field v k)) job_times \<and>
         is_bool (field v ''audit_final_emitted'') then
        (case (state_of_str (str_of (field v ''state'')), leg_of_num (num_of (field v ''pending_leg'')),
               documents_of_json (field v ''documents''), opt_error_of_json (field v ''err'')) of
           (Some st, Some leg, Some docs, Some e) \<Rightarrow> Some \<lparr>
             j_JobID = str_of (field v ''job_id''),
             j_Flow = str_of (field v ''flow''),
             j_State = st,
             j_CreatedAt = time_of (field v ''created_at''),
             j_UpdatedAt = time_of (field v ''updated_at''),
             j_Caller = str_of (field v ''caller''),
             j_Locale = str_of (field v ''locale''),
             j_PostAuthRedirect = str_of (field v ''post_auth_redirect''),
             j_AuthErrorRedirect = str_of (field v ''auth_error_redirect''),
             j_SignatureQualifier = str_of (field v ''signature_qualifier''),
             j_SignAlgo = str_of (field v ''sign_algo''),
             j_HashAlgorithmOID = str_of (field v ''hash_algorithm_oid''),
             j_DigestsSummary = str_of (field v ''digests_summary''),
             j_DigestsSummaryAlgo = str_of (field v ''digests_summary_algo''),
             j_SealID = str_of (field v ''seal_id''),
             j_Documents = docs,
             j_OAuthState = str_of (field v ''oauth_state''),
             j_PendingLeg = leg,
             j_PKCEVerifier = str_of (field v ''pkce_verifier''),
             j_SignIdentityID = str_of (field v ''sign_identity_id''),
             j_SigningCert = str_of (field v ''signing_cert''),
             j_AuthCert = str_of (field v ''auth_cert''),
             j_CredentialID = str_of (field v ''credential_id''),
             j_ProfileToken = str_of (field v ''profile_token''),
             j_SigningToken = str_of (field v ''signing_token''),
             j_VerificationCode = str_of (field v ''verification_code''),
             j_VerificationMessage = str_of (field v ''verification_message''),
             j_SigningDeadline = num_of (field v ''signing_deadline''),
             j_SubjectRef = str_of (field v ''subject_ref''),
             j_AuditFinalEmitted = bool_of (field v ''audit_final_emitted''),
             j_Err = e\<rparr>
         | _ \<Rightarrow> None)
      else None)"

section \<open>Round trip\<close>

lemma field_absent: "k \<notin> fst ` set fs \<Longrightarrow> field (mk_obj fs) k = None"
  by (induction fs) (auto simp: mk_obj_def split: option.splits)

lemma field_mk_obj_cons:
  "field (mk_obj ((k, v) # fs)) k' =
     (if k = k' \<and> v \<noteq> None then v else field (mk_obj fs) k')"
  by (auto simp: mk_obj_def split: option.splits)

lemma field_mk_obj_nil: "field (mk_obj []) k = None"
  by (simp add: mk_obj_def)

lemma present_or_none: "(if v \<noteq> None then v else None) = v"
  by simp

lemma field_mk_obj:
  "distinct (map fst fs) \<Longrightarrow>
     field (mk_obj fs) k = (case map_of fs k of None \<Rightarrow> None | Some v \<Rightarrow> v)"
proof (induction fs)
  case (Cons x fs)
  obtain k' v where x: "x = (k', v)" by (cases x)
  with Cons.prems have "k' \<notin> fst ` set fs" by simp
  with Cons x show ?case by (auto simp: field_mk_obj_cons field_absent)
qed (simp add: mk_obj_def)

lemma omit_read [simp]:
  "is_str (omit_str s)" "str_of (omit_str s) = s" "is_bool (omit_bool b)" "bool_of (omit_bool b) = b"
  "is_num (omit_num n)" "num_of (omit_num n) = n"
  by (auto simp: omit_str_def omit_bool_def omit_num_def)

lemma state_read [simp]: "state_of_str (state_str st) = Some st"
  by (cases st) (simp_all add: state_of_str_def)

lemma op_read [simp]: "op_of_str (op_str op) = Some op"
  by (cases op) (simp_all add: op_of_str_def)

lemma dstate_read [simp]: "dstate_of_str (dstate_str ds) = Some ds"
  by (cases ds) (simp_all add: dstate_of_str_def)

lemma leg_read [simp]: "leg_of_num (leg_num l) = Some l"
  by (cases l) (simp_all add: leg_of_num_def)

lemma error_round_trip [simp]: "error_of_json (error_json e) = Some e"
  by (simp add: error_of_json_def error_json_def field_mk_obj) (simp add: mk_obj_def)

lemma opt_error_round_trip [simp]: "opt_error_of_json (map_option error_json e) = Some e"
proof (cases e)
  case (Some x)
  obtain fs where "error_json x = JObj fs" by (simp add: error_json_def mk_obj_def)
  with Some error_round_trip [of x] show ?thesis by simp
qed simp

lemma document_round_trip [simp]: "document_of_json (document_json d) = Some d"
  by (simp add: document_of_json_def document_json_def document_strs_def field_mk_obj)

lemma those_round_trip: "(\<And>x. f (g x) = Some x) \<Longrightarrow> those (map f (map g xs)) = Some xs"
  by (induction xs) auto

lemma documents_round_trip [simp]: "documents_of_json (Some (JArr (map document_json ds))) = Some ds"
  using those_round_trip [of document_of_json document_json ds] by simp

text \<open>What is under each key of a written job.\<close>

lemma job_json_field:
  "field (job_json j) ''job_id'' = Some (JStr (j_JobID j))"
  "field (job_json j) ''flow'' = Some (JStr (j_Flow j))"
  "field (job_json j) ''state'' = Some (JStr (state_str (j_State j)))"
  "field (job_json j) ''created_at'' = Some (JTime (j_CreatedAt j))"
  "field (job_json j) ''updated_at'' = Some (JTime (j_UpdatedAt j))"
  "field (job_json j) ''caller'' = omit_str (j_Caller j)"
  "field (job_json j) ''locale'' = omit_str (j_Locale j)"
  "field (job_json j) ''post_auth_redirect'' = omit_str (j_PostAuthRedirect j)"
  "field (job_json j) ''auth_error_redirect'' = omit_str (j_AuthErrorRedirect j)"
  "field (job_json j) ''signature_qualifier'' = omit_str (j_SignatureQualifier j)"
  "field (job_json j) ''sign_algo'' = omit_str (j_SignAlgo j)"
  "field (job_json j) ''hash_algorithm_oid'' = omit_str (j_HashAlgorithmOID j)"
  "field (job_json j) ''digests_summary'' = omit_str (j_DigestsSummary j)"
  "field (job_json j) ''digests_summary_algo'' = omit_str (j_DigestsSummaryAlgo j)"
  "field (job_json j) ''seal_id'' = omit_str (j_SealID j)"
  "field (job_json j) ''documents'' = Some (JArr (map document_json (j_Documents j)))"
  "field (job_json j) ''oauth_state'' = omit_str (j_OAuthState j)"
  "field (job_json j) ''pending_leg'' = omit_num (leg_num (j_PendingLeg j))"
  "field (job_json j) ''pkce_verifier'' = omit_str (j_PKCEVerifier j)"
  "field (job_json j) ''sign_identity_id'' = omit_str (j_SignIdentityID j)"
  "field (job_json j) ''signing_cert'' = omit_str (j_SigningCert j)"
  "field (job_json j) ''auth_cert'' = omit_str (j_AuthCert j)"
  "field (job_json j) ''credential_id'' = omit_str (j_CredentialID j)"
  "field (job_json j) ''profile_token'' = omit_str (j_ProfileToken j)"
  "field (job_json j) ''signing_token'' = omit_str (j_SigningToken j)"
  "field (job_json j) ''verification_code'' = omit_str (j_VerificationCode j)"
  "field (job_json j) ''verification_message'' = omit_str (j_VerificationMessage j)"
  "field (job_json j) ''signing_deadline'' = omit_num (j_SigningDeadline j)"
  "field (job_json j) ''subject_ref'' = omit_str (j_SubjectRef j)"
  "field (job_json j) ''audit_final_emitted'' = omit_bool (j_AuditFinalEmitted j)"
  "field (job_json j) ''err'' = map_option error_json (j_Err j)"
  by (simp_all add: job_json_def field_mk_obj_cons field_mk_obj_nil present_or_none cong: if_cong del: not_None_eq option.map_disc_iff map_option_is_None split del: if_split)

lemma job_round_trip [simp]: "job_of_json (job_json j) = Some j"
  by (simp add: job_of_json_def job_strs_def job_nums_def job_times_def job_json_field del: documents_of_json.simps)

end
