(* ===== verification/Store.thy ===== *)
theory Store
  imports Job_Json
begin

text \<open>
  \<^verbatim>\<open>job/store.go\<close>: jobs in Redis, the index from an OAuth state to its job, and the
  background work queue. The Redis client is a record of the six commands the store
  uses, a parameter of every operation; what Redis promises about them is the locale
  \<open>redis_server\<close>. A command that answers an error may or may not have taken effect.
  Redis runs each command on its own; a key that reaches the end of its life between two
  commands is a key that somebody deleted, a step of the environment.

  The locale \<open>job_store\<close> is the contract the orchestrator relies on, stated over jobs
  instead of keys and values; the sublocale shows that the store's operations give it on
  every Redis that keeps its promises. \<open>mem_redis\<close> is a Redis in memory with a script of
  faults, on which the contract is interpreted and the witnesses run.
\<close>

section \<open>The Redis client\<close>

datatype rval = RText string | RJson json

record 'r redis =
  r_set :: "string \<Rightarrow> rval \<Rightarrow> int \<Rightarrow> ('r, err, unit) prog"
  r_get :: "string \<Rightarrow> ('r, err, rval option) prog"
  r_del :: "string \<Rightarrow> ('r, err, unit) prog"
  r_lpush :: "string \<Rightarrow> string \<Rightarrow> ('r, err, unit) prog"
  r_brpop :: "int \<Rightarrow> string \<Rightarrow> ('r, err, string list option) prog"
  r_ping :: "('r, err, unit) prog"

section \<open>The store\<close>

definition keyJob :: string where "keyJob = ''job:''"
definition keyState :: string where "keyState = ''state:''"
definition keyQueue :: string where "keyQueue = ''signer:work''"

record 'r Store =
  st_c :: "'r redis"
  st_ttl :: int

definition hour :: int where "hour = 3600 * 1000000000"

definition New :: "'r redis \<Rightarrow> int \<Rightarrow> 'r Store" where
  "New c ttl = \<lparr>st_c = c, st_ttl = (if ttl \<le> 0 then hour else ttl)\<rparr>"

definition Save :: "'r Store \<Rightarrow> Job \<Rightarrow> ('r, err, unit) prog" where
  "Save S j =
     bindE (mapErrE (ErrPre ''job: save: '') (r_set (st_c S) (keyJob @ j_JobID j) (RJson (job_json j)) (st_ttl S)))
       (\<lambda>_. if j_OAuthState j \<noteq> [] then
              mapErrE (ErrPre ''job: save state index: '')
                (r_set (st_c S) (keyState @ j_OAuthState j) (RText (j_JobID j)) (st_ttl S))
            else retE ())"

text \<open>A stored value read as a job: what \<open>Save\<close> wrote is JSON, any other text is not a job.\<close>

definition unmarshal_job :: "rval \<Rightarrow> err + Job" where
  "unmarshal_job v =
     (case v of RText t \<Rightarrow> Inl (ErrOther ''invalid character'')
      | RJson x \<Rightarrow> (case job_of_json x of None \<Rightarrow> Inl (ErrOther ''json: cannot unmarshal'') | Some j \<Rightarrow> Inr j))"

definition Load :: "'r Store \<Rightarrow> string \<Rightarrow> ('r, err, Job) prog" where
  "Load S jobID =
     bindE (mapErrE (ErrPre ''job: load: '') (r_get (st_c S) (keyJob @ jobID)))
       (\<lambda>v. case v of None \<Rightarrow> failE ErrNotFound
            | Some b \<Rightarrow> (case unmarshal_job b of Inl e \<Rightarrow> failE e | Inr j \<Rightarrow> retE j))"

definition text_of :: "rval \<Rightarrow> string" where
  "text_of v = (case v of RText t \<Rightarrow> t | RJson _ \<Rightarrow> [])"

definition LoadByState :: "'r Store \<Rightarrow> string \<Rightarrow> ('r, err, Job) prog" where
  "LoadByState S state =
     bindE (mapErrE (ErrPre ''job: load by state: '') (r_get (st_c S) (keyState @ state)))
       (\<lambda>v. case v of None \<Rightarrow> failE ErrNotFound | Some i \<Rightarrow> Load S (text_of i))"

definition ClearState :: "'r Store \<Rightarrow> string \<Rightarrow> ('r, err, unit) prog" where
  "ClearState S state = (if state = [] then retE () else ignE (r_del (st_c S) (keyState @ state)))"

definition Delete :: "'r Store \<Rightarrow> Job \<Rightarrow> ('r, err, unit) prog" where
  "Delete S j =
     bindE (if j_OAuthState j \<noteq> [] then ignE (r_del (st_c S) (keyState @ j_OAuthState j)) else retE ())
       (\<lambda>_. r_del (st_c S) (keyJob @ j_JobID j))"

definition EnqueueWork :: "'r Store \<Rightarrow> string \<Rightarrow> ('r, err, unit) prog" where
  "EnqueueWork S jobID = r_lpush (st_c S) keyQueue jobID"

definition DequeueWork :: "'r Store \<Rightarrow> int \<Rightarrow> ('r, err, string) prog" where
  "DequeueWork S timeout =
     bindE (r_brpop (st_c S) timeout keyQueue)
       (\<lambda>res. case res of None \<Rightarrow> failE ErrNotFound
              | Some xs \<Rightarrow> if length xs \<noteq> 2 then failE ErrNotFound else retE (xs ! 1))"

definition Ping :: "'r Store \<Rightarrow> ('r, err, unit) prog" where
  "Ping S = mapErrE (ErrPre ''job: redis ping: '') (r_ping (st_c S))"

section \<open>What Redis promises\<close>

locale redis_server =
  fixes R :: "'r redis" and content :: "'r \<Rightarrow> string \<Rightarrow> rval option" and items :: "'r \<Rightarrow> string \<Rightarrow> string list"
  assumes set_law:
    "wp (r_set R k v ttl) (\<lambda>_ s'. content s' = (content s)(k \<mapsto> v) \<and> items s' = items s)
       (\<lambda>e s'. (content s' = content s \<or> content s' = (content s)(k \<mapsto> v)) \<and> items s' = items s) s"
  and get_law:
    "wp (r_get R k) (\<lambda>v s'. v = content s k \<and> content s' = content s \<and> items s' = items s)
       (\<lambda>e s'. content s' = content s \<and> items s' = items s) s"
  and del_law:
    "wp (r_del R k) (\<lambda>_ s'. content s' = (content s)(k := None) \<and> items s' = items s)
       (\<lambda>e s'. (content s' = content s \<or> content s' = (content s)(k := None)) \<and> items s' = items s) s"
  and lpush_law:
    "wp (r_lpush R q x) (\<lambda>_ s'. items s' = (items s)(q := x # items s q) \<and> content s' = content s)
       (\<lambda>e s'. (items s' = items s \<or> items s' = (items s)(q := x # items s q)) \<and> content s' = content s) s"
  and brpop_law:
    "wp (r_brpop R t q)
       (\<lambda>res s'. content s' = content s \<and>
          (case res of None \<Rightarrow> items s q = [] \<and> items s' = items s
           | Some r \<Rightarrow> items s q \<noteq> [] \<and> r = [q, last (items s q)] \<and> items s' = (items s)(q := butlast (items s q))))
       (\<lambda>e s'. content s' = content s \<and>
          (items s' = items s \<or> items s' = (items s)(q := butlast (items s q))) \<and> e \<noteq> ErrNotFound) s"
  and ping_law: "wp (r_ping R) (\<lambda>_ s'. content s' = content s \<and> items s' = items s)
       (\<lambda>e s'. content s' = content s \<and> items s' = items s) s"

section \<open>What the store promises\<close>

text \<open>The jobs, the state index and the queue that a Redis content holds.\<close>

definition jobs_in :: "('r \<Rightarrow> string \<Rightarrow> rval option) \<Rightarrow> 'r \<Rightarrow> string \<Rightarrow> Job option" where
  "jobs_in content s i =
     (case content s (keyJob @ i) of None \<Rightarrow> None
      | Some v \<Rightarrow> (case unmarshal_job v of Inl _ \<Rightarrow> None | Inr j \<Rightarrow> Some j))"

definition index_in :: "('r \<Rightarrow> string \<Rightarrow> rval option) \<Rightarrow> 'r \<Rightarrow> string \<Rightarrow> string option" where
  "index_in content s state = map_option text_of (content s (keyState @ state))"

definition work_in :: "('r \<Rightarrow> string \<Rightarrow> string list) \<Rightarrow> 'r \<Rightarrow> string list" where
  "work_in items s = items s keyQueue"

locale job_store =
  fixes save :: "Job \<Rightarrow> ('r, err, unit) prog" and load :: "string \<Rightarrow> ('r, err, Job) prog"
    and load_by_state :: "string \<Rightarrow> ('r, err, Job) prog" and clear_state :: "string \<Rightarrow> ('r, err, unit) prog"
    and del :: "Job \<Rightarrow> ('r, err, unit) prog" and enqueue :: "string \<Rightarrow> ('r, err, unit) prog"
    and jobs :: "'r \<Rightarrow> string \<Rightarrow> Job option" and index :: "'r \<Rightarrow> string \<Rightarrow> string option"
    and work :: "'r \<Rightarrow> string list"
  assumes save_law:
    "wp (save j)
       (\<lambda>_ s'. jobs s' = (jobs s)(j_JobID j \<mapsto> j) \<and> work s' = work s \<and>
          index s' = (if j_OAuthState j = [] then index s else (index s)(j_OAuthState j \<mapsto> j_JobID j)))
       (\<lambda>e s'. (jobs s' = jobs s \<or> jobs s' = (jobs s)(j_JobID j \<mapsto> j)) \<and> work s' = work s \<and>
          (index s' = index s \<or> j_OAuthState j \<noteq> [] \<and> index s' = (index s)(j_OAuthState j \<mapsto> j_JobID j))) s"
  and load_law:
    "wp (load i) (\<lambda>j s'. jobs s i = Some j \<and> jobs s' = jobs s \<and> index s' = index s \<and> work s' = work s)
       (\<lambda>e s'. (e = ErrNotFound \<longrightarrow> jobs s i = None) \<and> jobs s' = jobs s \<and> index s' = index s \<and> work s' = work s) s"
  and load_by_state_law:
    "wp (load_by_state st)
       (\<lambda>j s'. (\<exists>i. index s st = Some i \<and> jobs s i = Some j) \<and> jobs s' = jobs s \<and> index s' = index s \<and> work s' = work s)
       (\<lambda>e s'. (e = ErrNotFound \<longrightarrow> (case index s st of None \<Rightarrow> True | Some i \<Rightarrow> jobs s i = None)) \<and>
          jobs s' = jobs s \<and> index s' = index s \<and> work s' = work s) s"
  and clear_state_law:
    "wp (clear_state st)
       (\<lambda>_ s'. jobs s' = jobs s \<and> work s' = work s \<and> (index s' = index s \<or> index s' = (index s)(st := None)))
       (\<lambda>e s'. False) s"
  and del_law:
    "wp (del j)
       (\<lambda>_ s'. jobs s' = (jobs s)(j_JobID j := None) \<and> work s' = work s \<and>
          (index s' = index s \<or> index s' = (index s)(j_OAuthState j := None)))
       (\<lambda>e s'. (jobs s' = jobs s \<or> jobs s' = (jobs s)(j_JobID j := None)) \<and> work s' = work s \<and>
          (index s' = index s \<or> index s' = (index s)(j_OAuthState j := None))) s"
  and enqueue_law:
    "wp (enqueue i) (\<lambda>_ s'. jobs s' = jobs s \<and> index s' = index s \<and> work s' = i # work s)
       (\<lambda>e s'. jobs s' = jobs s \<and> index s' = index s \<and> (work s' = work s \<or> work s' = i # work s)) s"
begin

text \<open>What is saved is what is loaded, whole, by its id and by its state.\<close>

lemma load_saved:
  assumes "save j s = (Inr (), s1)"
  shows "wp (load (j_JobID j)) (\<lambda>j' _. j' = j) (\<lambda>e _. e \<noteq> ErrNotFound) s1"
proof -
  have "jobs s1 (j_JobID j) = Some j" using wp_InrD [OF save_law assms] by simp
  then show ?thesis by (intro wp_mono [OF load_law]) auto
qed

lemma load_by_state_saved:
  assumes "save j s = (Inr (), s1)" and "j_OAuthState j \<noteq> []"
  shows "wp (load_by_state (j_OAuthState j)) (\<lambda>j' _. j' = j) (\<lambda>e _. e \<noteq> ErrNotFound) s1"
proof -
  have "jobs s1 (j_JobID j) = Some j" "index s1 (j_OAuthState j) = Some (j_JobID j)"
    using wp_InrD [OF save_law assms(1)] assms(2) by auto
  then show ?thesis by (intro wp_mono [OF load_by_state_law]) auto
qed

text \<open>A save touches no other job.\<close>

lemma save_other:
  assumes "i \<noteq> j_JobID j"
  shows "jobs (snd (save j s)) i = jobs s i"
  using save_law [of j s] assms by (auto simp: wp_def split: prod.splits sum.splits)

end

section \<open>The store keeps its promise\<close>

lemma job_key_inj [simp]: "keyJob @ a = keyJob @ b \<longleftrightarrow> a = b"
  by simp

lemma key_disjoint [simp]: "keyJob @ a \<noteq> keyState @ b" "keyState @ b \<noteq> keyJob @ a"
  by (simp_all add: keyJob_def keyState_def)

lemma unmarshal_saved [simp]: "unmarshal_job (RJson (job_json j)) = Inr j"
  by (simp add: unmarshal_job_def)

lemma unmarshal_not_found [simp]: "unmarshal_job v \<noteq> Inl ErrNotFound"
  by (auto simp: unmarshal_job_def split: rval.splits option.splits)

lemma jobs_in_cong: "content s' = content s \<Longrightarrow> jobs_in content s' = jobs_in content s"
  by (auto simp: jobs_in_def)

lemma index_in_cong: "content s' = content s \<Longrightarrow> index_in content s' = index_in content s"
  by (auto simp: index_in_def)

lemma work_in_cong: "items s' = items s \<Longrightarrow> work_in items s' = work_in items s"
  by (auto simp: work_in_def)

lemma jobs_in_set_job:
  "content s' = (content s)(keyJob @ i \<mapsto> RJson (job_json j)) \<Longrightarrow>
     jobs_in content s' = (jobs_in content s)(i \<mapsto> j) \<and> index_in content s' = index_in content s"
  by (auto simp: jobs_in_def index_in_def fun_eq_iff)

lemma index_in_set_state:
  "content s' = (content s)(keyState @ st \<mapsto> RText i) \<Longrightarrow>
     index_in content s' = (index_in content s)(st \<mapsto> i) \<and> jobs_in content s' = jobs_in content s"
  by (auto simp: jobs_in_def index_in_def text_of_def fun_eq_iff)

lemma jobs_in_del_job:
  "content s' = (content s)(keyJob @ i := None) \<Longrightarrow>
     jobs_in content s' = (jobs_in content s)(i := None) \<and> index_in content s' = index_in content s"
  by (auto simp: jobs_in_def index_in_def fun_eq_iff)

lemma index_in_del_state:
  "content s' = (content s)(keyState @ st := None) \<Longrightarrow>
     index_in content s' = (index_in content s)(st := None) \<and> jobs_in content s' = jobs_in content s"
  by (auto simp: jobs_in_def index_in_def fun_eq_iff)

lemmas view_cong = jobs_in_cong index_in_cong work_in_cong

context redis_server
begin

text \<open>The commands at the keys the store uses, over jobs, index and queue.\<close>

abbreviation "jobsR \<equiv> jobs_in content"
abbreviation "indexR \<equiv> index_in content"
abbreviation "workR \<equiv> work_in items"

lemma set_job_view:
  "wp (r_set R (keyJob @ i) (RJson (job_json j)) ttl)
     (\<lambda>_ s'. jobsR s' = (jobsR s)(i \<mapsto> j) \<and> indexR s' = indexR s \<and> workR s' = workR s)
     (\<lambda>_ s'. (jobsR s' = jobsR s \<or> jobsR s' = (jobsR s)(i \<mapsto> j)) \<and> indexR s' = indexR s \<and> workR s' = workR s) s"
  by (rule wp_mono [OF set_law]) (auto dest: jobs_in_set_job view_cong)

lemma set_state_view:
  "wp (r_set R (keyState @ st) (RText i) ttl)
     (\<lambda>_ s'. indexR s' = (indexR s)(st \<mapsto> i) \<and> jobsR s' = jobsR s \<and> workR s' = workR s)
     (\<lambda>_ s'. (indexR s' = indexR s \<or> indexR s' = (indexR s)(st \<mapsto> i)) \<and> jobsR s' = jobsR s \<and> workR s' = workR s) s"
  by (rule wp_mono [OF set_law]) (auto dest: index_in_set_state view_cong)

lemma del_job_view:
  "wp (r_del R (keyJob @ i))
     (\<lambda>_ s'. jobsR s' = (jobsR s)(i := None) \<and> indexR s' = indexR s \<and> workR s' = workR s)
     (\<lambda>_ s'. (jobsR s' = jobsR s \<or> jobsR s' = (jobsR s)(i := None)) \<and> indexR s' = indexR s \<and> workR s' = workR s) s"
  by (rule wp_mono [OF del_law]) (auto dest: jobs_in_del_job view_cong)

lemma del_state_view:
  "wp (r_del R (keyState @ st))
     (\<lambda>_ s'. indexR s' = (indexR s)(st := None) \<and> jobsR s' = jobsR s \<and> workR s' = workR s)
     (\<lambda>_ s'. (indexR s' = indexR s \<or> indexR s' = (indexR s)(st := None)) \<and> jobsR s' = jobsR s \<and> workR s' = workR s) s"
  by (rule wp_mono [OF del_law]) (auto dest: index_in_del_state view_cong)

lemma get_view:
  "wp (r_get R k) (\<lambda>v s'. v = content s k \<and> content s' = content s \<and> items s' = items s \<and>
        jobsR s' = jobsR s \<and> indexR s' = indexR s \<and> workR s' = workR s)
     (\<lambda>_ s'. jobsR s' = jobsR s \<and> indexR s' = indexR s \<and> workR s' = workR s) s"
  by (rule wp_mono [OF get_law]) (auto dest: view_cong)

end

text \<open>A store on such a Redis.\<close>

locale store_on_redis = redis_server +
  fixes S :: "'a Store"
  assumes on_redis: "st_c S = R"
begin

lemma Save_view:
  "wp (Save S j)
     (\<lambda>_ s'. jobsR s' = (jobsR s)(j_JobID j \<mapsto> j) \<and> workR s' = workR s \<and>
        indexR s' = (if j_OAuthState j = [] then indexR s else (indexR s)(j_OAuthState j \<mapsto> j_JobID j)))
     (\<lambda>e s'. (jobsR s' = jobsR s \<or> jobsR s' = (jobsR s)(j_JobID j \<mapsto> j)) \<and> workR s' = workR s \<and>
        (indexR s' = indexR s \<or> j_OAuthState j \<noteq> [] \<and> indexR s' = (indexR s)(j_OAuthState j \<mapsto> j_JobID j))) s"
  unfolding Save_def on_redis wp_rules
  by (rule wp_mono [OF set_job_view]) (auto simp: wp_rules intro!: wp_mono [OF set_state_view])

lemma Load_view:
  "wp (Load S i) (\<lambda>j s'. jobsR s i = Some j \<and> jobsR s' = jobsR s \<and> indexR s' = indexR s \<and> workR s' = workR s)
     (\<lambda>e s'. (e = ErrNotFound \<longrightarrow> jobsR s i = None) \<and> jobsR s' = jobsR s \<and> indexR s' = indexR s \<and> workR s' = workR s) s"
  unfolding Load_def on_redis wp_rules
  by (rule wp_mono [OF get_view]) (auto simp: wp_rules jobs_in_def split: option.splits sum.splits)

lemma LoadByState_view:
  "wp (LoadByState S st)
     (\<lambda>j s'. (\<exists>i. indexR s st = Some i \<and> jobsR s i = Some j) \<and> jobsR s' = jobsR s \<and> indexR s' = indexR s \<and> workR s' = workR s)
     (\<lambda>e s'. (e = ErrNotFound \<longrightarrow> (case indexR s st of None \<Rightarrow> True | Some i \<Rightarrow> jobsR s i = None)) \<and>
        jobsR s' = jobsR s \<and> indexR s' = indexR s \<and> workR s' = workR s) s"
  unfolding LoadByState_def on_redis wp_rules
  by (rule wp_mono [OF get_view])
     (auto simp: wp_rules index_in_def split: option.splits intro!: wp_mono [OF Load_view])

lemma ClearState_view:
  "wp (ClearState S st)
     (\<lambda>_ s'. jobsR s' = jobsR s \<and> workR s' = workR s \<and> (indexR s' = indexR s \<or> indexR s' = (indexR s)(st := None)))
     (\<lambda>e s'. False) s"
  unfolding ClearState_def on_redis by (auto simp: wp_rules intro!: wp_mono [OF del_state_view])

lemma Delete_view:
  "wp (Delete S j)
     (\<lambda>_ s'. jobsR s' = (jobsR s)(j_JobID j := None) \<and> workR s' = workR s \<and>
        (indexR s' = indexR s \<or> indexR s' = (indexR s)(j_OAuthState j := None)))
     (\<lambda>e s'. (jobsR s' = jobsR s \<or> jobsR s' = (jobsR s)(j_JobID j := None)) \<and> workR s' = workR s \<and>
        (indexR s' = indexR s \<or> indexR s' = (indexR s)(j_OAuthState j := None))) s"
proof -
  have step: "wp (r_del R (keyJob @ j_JobID j))
     (\<lambda>_ s'. jobsR s' = (jobsR s)(j_JobID j := None) \<and> workR s' = workR s \<and>
        (indexR s' = indexR s \<or> indexR s' = (indexR s)(j_OAuthState j := None)))
     (\<lambda>e s'. (jobsR s' = jobsR s \<or> jobsR s' = (jobsR s)(j_JobID j := None)) \<and> workR s' = workR s \<and>
        (indexR s' = indexR s \<or> indexR s' = (indexR s)(j_OAuthState j := None))) t"
    if "jobsR t = jobsR s" "workR t = workR s"
       "indexR t = indexR s \<or> indexR t = (indexR s)(j_OAuthState j := None)" for t
    using that by (intro wp_mono [OF del_job_view]) auto
  show ?thesis
  proof (cases "j_OAuthState j = []")
    case True
    then show ?thesis unfolding Delete_def on_redis wp_rules by (simp add: wp_rules step [unfolded True])
  next
    case False
    then show ?thesis
      unfolding Delete_def on_redis wp_rules
      by (auto simp: wp_rules intro!: step wp_mono [OF del_state_view])
  qed
qed

lemma EnqueueWork_view:
  "wp (EnqueueWork S i) (\<lambda>_ s'. jobsR s' = jobsR s \<and> indexR s' = indexR s \<and> workR s' = i # workR s)
     (\<lambda>e s'. jobsR s' = jobsR s \<and> indexR s' = indexR s \<and> (workR s' = workR s \<or> workR s' = i # workR s)) s"
  unfolding EnqueueWork_def on_redis
  by (rule wp_mono [OF lpush_law]) (auto simp: work_in_def dest: view_cong)

lemma DequeueWork_view:
  "wp (DequeueWork S t)
     (\<lambda>i s'. workR s = workR s' @ [i] \<and> jobsR s' = jobsR s \<and> indexR s' = indexR s)
     (\<lambda>e s'. (e = ErrNotFound \<longrightarrow> workR s = [] \<and> workR s' = []) \<and>
        jobsR s' = jobsR s \<and> indexR s' = indexR s) s"
  unfolding DequeueWork_def on_redis wp_rules
  by (rule wp_mono [OF brpop_law])
     (auto simp: work_in_def wp_rules split: option.splits dest: view_cong)

end

sublocale store_on_redis \<subseteq> js: job_store "Save S" "Load S" "LoadByState S" "ClearState S" "Delete S" "EnqueueWork S"
    "jobs_in content" "index_in content" "work_in items"
  by (intro job_store.intro Save_view Load_view LoadByState_view ClearState_view Delete_view EnqueueWork_view)

text \<open>Taking \<open>n\<close> job ids off the queue, one after another.\<close>

fun take_work :: "'r Store \<Rightarrow> int \<Rightarrow> nat \<Rightarrow> ('r, err, string list) prog" where
  "take_work S t 0 = retE []"
| "take_work S t (Suc n) = bindE (DequeueWork S t) (\<lambda>i. bindE (take_work S t n) (\<lambda>is. retE (i # is)))"

context store_on_redis
begin

lemma saved_then_loaded:
  assumes "Save S j s = (Inr (), s1)"
  shows "wp (Load S (j_JobID j)) (\<lambda>j' _. j' = j) (\<lambda>e _. e \<noteq> ErrNotFound) s1 \<and>
    (j_OAuthState j \<noteq> [] \<longrightarrow>
       wp (LoadByState S (j_OAuthState j)) (\<lambda>j' _. j' = j) (\<lambda>e _. e \<noteq> ErrNotFound) s1) \<and>
    (\<forall>i. i \<noteq> j_JobID j \<longrightarrow> jobsR s1 i = jobsR s i)"
  using js.load_saved [OF assms] js.load_by_state_saved [OF assms] js.save_other [of _ j s] assms by simp

lemma enqueue_all:
  "forE xs (EnqueueWork S) s = (Inr (), s1) \<Longrightarrow> workR s1 = rev xs @ workR s"
proof (induction xs arbitrary: s)
  case (Cons x xs)
  from Cons.prems obtain s0 where s0: "EnqueueWork S x s = (Inr (), s0)" and "forE xs (EnqueueWork S) s0 = (Inr (), s1)"
    by (auto simp: bindE_def split: prod.splits sum.splits)
  with Cons.IH [of s0] wp_InrD [OF EnqueueWork_view s0] show ?case by simp
qed (simp add: retE_def)

lemma take_all:
  "workR s = rev xs @ ys \<Longrightarrow> ys = [] \<Longrightarrow>
     wp (take_work S t (length xs)) (\<lambda>is s'. is = xs \<and> workR s' = [] \<and> jobsR s' = jobsR s) (\<lambda>e _. e \<noteq> ErrNotFound) s"
proof (induction xs arbitrary: s)
  case (Cons x xs)
  have "wp (DequeueWork S t) (\<lambda>i s'. i = x \<and> workR s' = rev xs \<and> jobsR s' = jobsR s) (\<lambda>e _. e \<noteq> ErrNotFound) s"
    by (rule wp_mono [OF DequeueWork_view]) (use Cons.prems in auto)
  then have "wp (DequeueWork S t) (\<lambda>i. wp (take_work S t (length xs))
      (\<lambda>is s'. i # is = x # xs \<and> workR s' = [] \<and> jobsR s' = jobsR s) (\<lambda>e _. e \<noteq> ErrNotFound)) (\<lambda>e _. e \<noteq> ErrNotFound) s"
  proof (rule wp_mono)
    fix i s' assume "i = x \<and> workR s' = rev xs \<and> jobsR s' = jobsR s"
    with Cons.IH [of s'] Cons.prems
    show "wp (take_work S t (length xs)) (\<lambda>is s'. i # is = x # xs \<and> workR s' = [] \<and> jobsR s' = jobsR s)
      (\<lambda>e _. e \<noteq> ErrNotFound) s'" by (auto elim: wp_mono)
  qed
  then show ?case by (simp add: wp_rules)
qed (simp add: wp_rules)

end

section \<open>While Redis is up\<close>

text \<open>
  In a state that \<open>up\<close> holds of, every command is served, and leaves such a state. The
  statements that something is stored, and not only that nothing else is, are about these.
\<close>

locale reliable_store = store_on_redis +
  fixes up :: "'a \<Rightarrow> bool"
  assumes set_up: "up s \<Longrightarrow> wp (r_set R k v ttl) (\<lambda>_. up) (\<lambda>_ _. False) s"
    and get_up: "up s \<Longrightarrow> wp (r_get R k) (\<lambda>_. up) (\<lambda>_ _. False) s"
    and del_up: "up s \<Longrightarrow> wp (r_del R k) (\<lambda>_. up) (\<lambda>_ _. False) s"
    and lpush_up: "up s \<Longrightarrow> wp (r_lpush R q x) (\<lambda>_. up) (\<lambda>_ _. False) s"
begin

lemma Save_up:
  assumes "up s"
  shows "wp (Save S j) (\<lambda>_ s'. up s' \<and> jobsR s' = (jobsR s)(j_JobID j \<mapsto> j) \<and> workR s' = workR s \<and>
      indexR s' = (if j_OAuthState j = [] then indexR s else (indexR s)(j_OAuthState j \<mapsto> j_JobID j))) (\<lambda>_ _. False) s"
proof -
  have "wp (Save S j) (\<lambda>_. up) (\<lambda>_ _. False) s"
    unfolding Save_def on_redis wp_rules
    by (rule wp_mono [OF set_up]) (auto simp: assms wp_rules intro!: set_up)
  from wp_conj [OF this Save_view] show ?thesis by (rule wp_mono) auto
qed

lemma Load_up:
  assumes "up s" and "jobsR s i = Some j"
  shows "wp (Load S i) (\<lambda>j' s'. j' = j \<and> up s' \<and> jobsR s' = jobsR s \<and> indexR s' = indexR s \<and> workR s' = workR s)
    (\<lambda>_ _. False) s"
  unfolding Load_def on_redis wp_rules
  by (rule wp_mono [OF wp_conj [OF get_up [OF assms(1)] get_view]])
     (use assms(2) in \<open>auto simp: wp_rules jobs_in_def split: option.splits sum.splits\<close>)

lemma LoadByState_up:
  assumes "up s" and "indexR s st = Some i" and "jobsR s i = Some j"
  shows "wp (LoadByState S st) (\<lambda>j' s'. j' = j \<and> up s' \<and> jobsR s' = jobsR s \<and> indexR s' = indexR s \<and> workR s' = workR s)
    (\<lambda>_ _. False) s"
  unfolding LoadByState_def on_redis wp_rules
proof (rule wp_mono [OF wp_conj [OF get_up [OF assms(1)] get_view]], goal_cases)
  case (1 v s')
  with assms obtain x where x: "v = Some x" "text_of x = i" by (auto simp: index_in_def)
  have "wp (Load S i) (\<lambda>j' s2. j' = j \<and> up s2 \<and> jobsR s2 = jobsR s' \<and> indexR s2 = indexR s' \<and> workR s2 = workR s')
      (\<lambda>_ _. False) s'" by (rule Load_up) (use 1 assms in simp_all)
  then show ?case unfolding x option.case using 1 by (auto simp: x elim: wp_mono)
qed simp

lemma ClearState_up:
  assumes "up s"
  shows "wp (ClearState S st) (\<lambda>_ s'. up s' \<and> jobsR s' = jobsR s \<and> workR s' = workR s \<and>
      indexR s' = (if st = [] then indexR s else (indexR s)(st := None))) (\<lambda>_ _. False) s"
  unfolding ClearState_def on_redis
  by (auto simp: wp_rules assms intro!: wp_mono [OF wp_conj [OF del_up [OF assms] del_state_view]])

lemma Delete_up:
  assumes "up s"
  shows "wp (Delete S j) (\<lambda>_ s'. up s' \<and> jobsR s' = (jobsR s)(j_JobID j := None) \<and> workR s' = workR s) (\<lambda>_ _. False) s"
proof -
  have "wp (Delete S j) (\<lambda>_. up) (\<lambda>_ _. False) s"
    unfolding Delete_def on_redis
    by (auto simp: wp_rules assms intro!: del_up wp_mono [OF del_up])
  from wp_conj [OF this Delete_view] show ?thesis by (rule wp_mono) auto
qed

lemma EnqueueWork_up:
  assumes "up s"
  shows "wp (EnqueueWork S i) (\<lambda>_ s'. up s' \<and> jobsR s' = jobsR s \<and> indexR s' = indexR s \<and> workR s' = i # workR s) (\<lambda>_ _. False) s"
proof -
  have "wp (EnqueueWork S i) (\<lambda>_. up) (\<lambda>_ _. False) s"
    unfolding EnqueueWork_def on_redis using assms by (rule lpush_up)
  from wp_conj [OF this EnqueueWork_view] show ?thesis by (rule wp_mono) auto
qed

end

section \<open>A Redis in memory\<close>

text \<open>
  The faults to come are a script: a command is served, or its connection is lost before
  or after the server has run it. With the script at its end every command is served.
\<close>

datatype fault = Served | LostBefore | LostAfter

record mem_state =
  m_content :: "string \<Rightarrow> rval option"
  m_items :: "string \<Rightarrow> string list"
  m_faults :: "fault list"

definition mem_op :: "(mem_state \<Rightarrow> 'a) \<Rightarrow> (mem_state \<Rightarrow> mem_state) \<Rightarrow> (mem_state, err, 'a) prog" where
  "mem_op res upd s =
     (case m_faults s of [] \<Rightarrow> (Inr (res s), upd s)
      | f # fs \<Rightarrow>
         (let s0 = s\<lparr>m_faults := fs\<rparr> in
          case f of Served \<Rightarrow> (Inr (res s0), upd s0)
          | LostBefore \<Rightarrow> (Inl (ErrOther ''connection lost''), s0)
          | LostAfter \<Rightarrow> (Inl (ErrOther ''connection lost''), upd s0)))"

definition mem_redis :: "mem_state redis" where
  "mem_redis = \<lparr>
     r_set = (\<lambda>k v ttl. mem_op (\<lambda>s. ()) (\<lambda>s. s\<lparr>m_content := (m_content s)(k \<mapsto> v)\<rparr>)),
     r_get = (\<lambda>k. mem_op (\<lambda>s. m_content s k) id),
     r_del = (\<lambda>k. mem_op (\<lambda>s. ()) (\<lambda>s. s\<lparr>m_content := (m_content s)(k := None)\<rparr>)),
     r_lpush = (\<lambda>q x. mem_op (\<lambda>s. ()) (\<lambda>s. s\<lparr>m_items := (m_items s)(q := x # m_items s q)\<rparr>)),
     r_brpop = (\<lambda>t q. mem_op (\<lambda>s. if m_items s q = [] then None else Some [q, last (m_items s q)])
                             (\<lambda>s. s\<lparr>m_items := (m_items s)(q := butlast (m_items s q))\<rparr>)),
     r_ping = mem_op (\<lambda>s. ()) id\<rparr>"

definition mem_empty :: mem_state where
  "mem_empty = \<lparr>m_content = (\<lambda>_. None), m_items = (\<lambda>_. []), m_faults = []\<rparr>"

interpretation mem: redis_server mem_redis m_content m_items
  by unfold_locales
     (auto simp: wp_def mem_redis_def mem_op_def Let_def fun_eq_iff split: list.splits fault.splits)

interpretation mem_store: store_on_redis mem_redis m_content m_items "New mem_redis ttl" for ttl
  by unfold_locales (simp add: New_def)

interpretation mem_reliable: reliable_store mem_redis m_content m_items "New mem_redis ttl" "\<lambda>s. m_faults s = []" for ttl
  by unfold_locales (auto simp: wp_def mem_redis_def mem_op_def)

section \<open>Properties\<close>



text \<open>
  C38: The work queue is first in, first out, and hands out every id exactly once. From an
  empty queue, ids enqueued in order are dequeued in that order, after which the queue is
  empty again; a dequeue can only fail with a Redis error, never report an empty queue,
  while ids are left. The jobs are untouched.
\<close>

theorem work_queue_fifo:
  assumes "store_on_redis R content items S" and "work_in items s = []"
    and "forE xs (EnqueueWork S) s = (Inr (), s1)"
  shows "wp (take_work S t (length xs))
    (\<lambda>is s2. is = xs \<and> work_in items s2 = [] \<and> jobs_in content s2 = jobs_in content s1) (\<lambda>e _. e \<noteq> ErrNotFound) s1"
  using store_on_redis.take_all [OF assms(1)] store_on_redis.enqueue_all [OF assms(1,3)] assms(2) by simp

theorem work_queue_fifo_witness:
  "wp (take_work (New mem_redis 0) 5 2) (\<lambda>is s2. is = [''a'', ''b''] \<and> work_in m_items s2 = [])
     (\<lambda>e _. e \<noteq> ErrNotFound) (snd (forE [''a'', ''b''] (EnqueueWork (New mem_redis 0)) mem_empty))"
proof -
  have "forE [''a'', ''b''] (EnqueueWork (New mem_redis 0)) mem_empty =
     (Inr (), snd (forE [''a'', ''b''] (EnqueueWork (New mem_redis 0)) mem_empty))"
    by (simp add: EnqueueWork_def New_def bindE_def retE_def mem_redis_def mem_op_def mem_empty_def)
  from work_queue_fifo [OF mem_store.store_on_redis_axioms _ this, of 5]
  have "wp (take_work (New mem_redis 0) 5 2) (\<lambda>is s2. is = [''a'', ''b''] \<and> work_in m_items s2 = [] \<and>
       jobs_in m_content s2 = jobs_in m_content (snd (forE [''a'', ''b''] (EnqueueWork (New mem_redis 0)) mem_empty)))
     (\<lambda>e _. e \<noteq> ErrNotFound) (snd (forE [''a'', ''b''] (EnqueueWork (New mem_redis 0)) mem_empty))"
    by (simp add: work_in_def mem_empty_def numeral_2_eq_2)
  then show ?thesis by (rule wp_mono) auto
qed

text \<open>
  \<open>Delete\<close> that succeeds leaves no trace of the job: \<open>Load\<close> of its id answers
  \<open>ErrNotFound\<close> (or a Redis error), even if the index entry could not be removed, in which
  case \<open>LoadByState\<close> finds no job either. Every other job stays.
\<close>

theorem Delete_removes:
  assumes "store_on_redis R content items S" and "Delete S j s = (Inr (), s1)"
    and "index_in content s (j_OAuthState j) = Some (j_JobID j)"
  shows "wp (Load S (j_JobID j)) (\<lambda>_ _. False) (\<lambda>_ _. True) s1 \<and>
    wp (LoadByState S (j_OAuthState j)) (\<lambda>_ _. False) (\<lambda>_ _. True) s1 \<and>
    (\<forall>i. i \<noteq> j_JobID j \<longrightarrow> jobs_in content s1 i = jobs_in content s i)"
proof -
  from store_on_redis.Delete_view [OF assms(1), of j s] assms(2)
  have d: "jobs_in content s1 = (jobs_in content s)(j_JobID j := None)"
    "index_in content s1 = index_in content s \<or> index_in content s1 = (index_in content s)(j_OAuthState j := None)"
    by (auto dest: wp_InrD)
  have "wp (Load S (j_JobID j)) (\<lambda>_ _. False) (\<lambda>_ _. True) s1"
    by (rule wp_mono [OF store_on_redis.Load_view [OF assms(1)]]) (simp_all add: d(1))
  moreover have "wp (LoadByState S (j_OAuthState j)) (\<lambda>_ _. False) (\<lambda>_ _. True) s1"
    by (rule wp_mono [OF store_on_redis.LoadByState_view [OF assms(1)]]) (use d assms(3) in auto)
  ultimately show ?thesis by (simp add: d(1))
qed

theorem Delete_removes_witness:
  "let S = New mem_redis 0; j = emptyJob\<lparr>j_JobID := ''J'', j_OAuthState := ''st''\<rparr>;
       s1 = snd (Delete S j (mem_empty\<lparr>m_content := [''state:st'' \<mapsto> RText ''J''], m_faults := [LostBefore]\<rparr>)) in
   wp (Load S ''J'') (\<lambda>_ _. False) (\<lambda>_ _. True) s1 \<and> wp (LoadByState S ''st'') (\<lambda>_ _. False) (\<lambda>_ _. True) s1"
proof -
  let ?j = "emptyJob\<lparr>j_JobID := ''J'', j_OAuthState := ''st''\<rparr>"
  let ?s = "mem_empty\<lparr>m_content := [''state:st'' \<mapsto> RText ''J''], m_faults := [LostBefore]\<rparr>"
  have "Delete (New mem_redis 0) ?j ?s = (Inr (), snd (Delete (New mem_redis 0) ?j ?s))"
    by (simp add: Delete_def New_def bindE_def ignE_def retE_def mem_redis_def mem_op_def mem_empty_def)
  from Delete_removes [OF mem_store.store_on_redis_axioms this] show ?thesis
    by (simp add: index_in_def keyState_def text_of_def mem_empty_def)
qed

end
