(* ===== verification/Http.thy ===== *)
theory Http
  imports Job_Json
begin

text \<open>
  The environment the upstream clients work in, all of it outside the repository: the
  network transport, the clock, timers and randomness. Each is a field of the record
  \<open>env\<close>, a parameter of the definitions that use it, over an unknown environment state.
  \<open>net\<close> is that state together with the history of the requests that were handed to the
  transport and, from \<^verbatim>\<open>entrust/client.go\<close>, the platform client's cached token. The
  history is what the statements about retries and at-most-once calls speak of.

  A response body is its text and the JSON value the text is (\<open>None\<close> when it is not
  JSON); \<open>json.Unmarshal\<close> reads struct fields from that value: a missing field and a
  \<open>null\<close> give the zero value, a value of another type is an error. Keys are matched
  exactly.
\<close>

section \<open>Requests and responses\<close>

text \<open>The HTTP clients: three of the signing API client, one of the platform client.\<close>

datatype hclient = HcFull | HcQuick | HcPatient | HcEntrust

datatype body =
    NoBody
  | JsonBody json
  | FormBody "(string \<times> string) list"
  | MultipartFile string string bytes  \<comment> \<open>file name, media type, content\<close>

record request =
  rq_client :: hclient
  rq_method :: string
  rq_url :: string
  rq_headers :: "(string \<times> string) list"
  rq_body :: body

record payload =
  p_text :: string
  p_json :: "json option"

text \<open>\<open>rs_body\<close> is the error of a body that could not be read to its end.\<close>

record response =
  rs_status :: nat
  rs_ctype :: string
  rs_body :: "err + payload"

type_synonym exchange = "request \<times> (err + response)"

section \<open>The environment\<close>

text \<open>
  \<open>e_do\<close> is \<^verbatim>\<open>http.Client.Do\<close>; \<open>e_new_request\<close> is the refusal of \<^verbatim>\<open>http.NewRequest\<close>
  (a malformed URL); \<open>e_wait d\<close> is the select on the end of the context and a timer of
  \<open>d\<close>, an error when the context ended first; \<open>e_now\<close> is \<^verbatim>\<open>time.Now\<close>; \<open>e_rand n\<close>
  is \<^verbatim>\<open>rand.Read\<close> of \<open>n\<close> bytes; \<open>e_ulid\<close> is \<^verbatim>\<open>ulid.Make\<close>; \<open>e_subject\<close> is the subject
  serial number of a certificate (\<^verbatim>\<open>x509.ParseCertificate\<close>), \<open>None\<close> when it does not parse.
\<close>

record 'u env =
  e_do :: "request \<Rightarrow> ('u, err, response) prog"
  e_new_request :: "string \<Rightarrow> string \<Rightarrow> err option"
  e_wait :: "int \<Rightarrow> ('u, err, unit) prog"
  e_now :: "'u \<Rightarrow> int \<times> 'u"
  e_rand :: "nat \<Rightarrow> ('u, err, bytes) prog"
  e_ulid :: "'u \<Rightarrow> string \<times> 'u"
  e_subject :: "bytes \<Rightarrow> string option"

record 'u net =
  n_env :: 'u
  n_log :: "exchange list"
  n_tok :: string
  n_tok_exp :: int

definition onEnv :: "('u, 'e, 'a) prog \<Rightarrow> ('u net, 'e, 'a) prog" where
  "onEnv m = liftE n_env (\<lambda>u w. w\<lparr>n_env := u\<rparr>) m"

definition now :: "'u env \<Rightarrow> ('u net, 'e, int) prog" where
  "now e = onEnv (\<lambda>u. case e_now e u of (t, u') \<Rightarrow> (Inr t, u'))"

text \<open>A request handed to the transport, recorded with its outcome.\<close>

definition transmit :: "'u env \<Rightarrow> request \<Rightarrow> ('u net, err, response) prog" where
  "transmit e rq =
     bindE (tryE (onEnv (e_do e rq)))
       (\<lambda>r. bindE (modE (\<lambda>w. w\<lparr>n_log := n_log w @ [(rq, r)]\<rparr>)) (\<lambda>_. ofsumE r))"

section \<open>Decoding\<close>

definition json_error :: err where
  "json_error = ErrOther ''json: cannot unmarshal''"

fun obj_of :: "json option \<Rightarrow> json option" where
  "obj_of None = Some (JObj [])"
| "obj_of (Some JNull) = Some (JObj [])"
| "obj_of (Some (JObj fs)) = Some (JObj fs)"
| "obj_of _ = None"

fun string_of :: "json option \<Rightarrow> string option" where
  "string_of None = Some []"
| "string_of (Some JNull) = Some []"
| "string_of (Some (JStr s)) = Some s"
| "string_of _ = None"

fun int_of_json :: "json option \<Rightarrow> int option" where
  "int_of_json None = Some 0"
| "int_of_json (Some JNull) = Some 0"
| "int_of_json (Some (JNum n)) = Some n"
| "int_of_json _ = None"

fun array_of :: "json option \<Rightarrow> json list option" where
  "array_of None = Some []"
| "array_of (Some JNull) = Some []"
| "array_of (Some (JArr vs)) = Some vs"
| "array_of _ = None"

text \<open>
  \<open>decode dec zero b\<close>: a body of no text leaves the zero value, any other is
  unmarshalled with \<open>dec\<close>.
\<close>

definition decode :: "(json \<Rightarrow> 'a option) \<Rightarrow> 'a \<Rightarrow> payload \<Rightarrow> err + 'a" where
  "decode dec zero b =
     (if p_text b = [] then Inr zero
      else (case p_json b of None \<Rightarrow> Inl (ErrOther ''invalid character'')
            | Some v \<Rightarrow> (case dec v of None \<Rightarrow> Inl json_error | Some x \<Rightarrow> Inr x)))"

section \<open>Library\<close>

lemma wp_onEnv [wp_rules]:
  "wp (onEnv m) Q E = (\<lambda>w. wp m (\<lambda>x u. Q x (w\<lparr>n_env := u\<rparr>)) (\<lambda>e u. E e (w\<lparr>n_env := u\<rparr>)) (n_env w))"
  by (simp add: onEnv_def wp_rules)

lemma wp_true [simp]: "wp m (\<lambda>_ _. True) (\<lambda>_ _. True) s"
  by (simp add: wp_def split: prod.split sum.split)

text \<open>What the environment does leaves the history and the cached token alone.\<close>

lemma onEnv_frame:
  "(\<And>u. P (w\<lparr>n_env := u\<rparr>)) \<Longrightarrow> wp (onEnv m) (\<lambda>_. P) (\<lambda>_. P) w"
  unfolding wp_onEnv by (rule wp_mono [OF wp_true]) auto

lemma now_frame: "wp (now e) (\<lambda>t w'. t = fst (e_now e (n_env w)) \<and> n_log w' = n_log w \<and> n_tok w' = n_tok w \<and> n_tok_exp w' = n_tok_exp w) (\<lambda>_ _. False) w"
  by (simp add: now_def wp_onEnv wp_def split: prod.split)

lemma transmit_log:
  "wp (transmit e rq)
     (\<lambda>rs w'. n_log w' = n_log w @ [(rq, Inr rs)] \<and> n_tok w' = n_tok w \<and> n_tok_exp w' = n_tok_exp w)
     (\<lambda>x w'. n_log w' = n_log w @ [(rq, Inl x)] \<and> n_tok w' = n_tok w \<and> n_tok_exp w' = n_tok_exp w) w"
  unfolding transmit_def wp_rules by (rule wp_mono [OF wp_true]) auto

end
