(* ===== verification/Signapi.thy ===== *)
theory Signapi
  imports Http
begin

text \<open>
  \<^verbatim>\<open>signapi/client.go\<close> and \<^verbatim>\<open>signapi/types.go\<close>: the client of the eParaksts signing API.
  Every operation the orchestrator calls, the three ways a request is sent (retried, once,
  patiently) and the request and response types. The token provider is a field of the
  client, as in the code; \<open>signapi_client\<close> is the contract it must keep: it sends nothing
  through the signing API's own HTTP clients.

  The lemmas characterise the requests each way of sending makes: a retried call sends the
  same request at most three times and again only after a transport error or a 5xx; a
  patient call sends again only when the provider certainly did not take the request; a
  call sent once is sent once. Timeouts are errors of the transport.
\<close>

section \<open>Types\<close>

datatype HashFile = HashFile (hf_Name: string) (hf_Digest: string) (hf_DigestAlgorithm: string)

record CalculateDigestRequest =
  cd_Sessions :: "string list"
  cd_Certificate :: string
  cd_SignAsPdf :: bool
  cd_CreateNewEdoc :: bool

record DigestResult =
  dr_SessionID :: string
  dr_Digest :: string
  dr_DigestsSummary :: string
  dr_Algorithm :: string
  dr_SignatureAlgorithm :: string

record FinalizeRequest =
  fr_SessionSignatureValues :: "(string \<times> string) list"
  fr_AuthCertificate :: string

datatype FileInfo = FileInfo (fi_ID: string) (fi_Name: string) (fi_Size: int)

record UploadResult =
  ur_DocumentID :: string
  ur_FileName :: string
  ur_IncludedDocuments :: "string list"

text \<open>Requests as JSON.\<close>

definition session_ref_json :: "string \<Rightarrow> json" where
  "session_ref_json sid = JObj [(''sessionId'', JStr sid)]"

definition addDocumentDigestRequest :: "HashFile list \<Rightarrow> int \<Rightarrow> json" where
  "addDocumentDigestRequest files idx = JObj [
     (''files'', JArr (map (\<lambda>f. JObj [(''name'', JStr (hf_Name f)), (''digest'', JStr (hf_Digest f)),
        (''digest_algorithm'', JStr (hf_DigestAlgorithm f))]) files)),
     (''signatureIndex'', JNum idx)]"

definition calculateDigestRequest_json :: "CalculateDigestRequest \<Rightarrow> json" where
  "calculateDigestRequest_json r = JObj [
     (''sessions'', JArr (map session_ref_json (cd_Sessions r))),
     (''certificate'', JStr (cd_Certificate r)),
     (''signAsPdf'', JBool (cd_SignAsPdf r)),
     (''createNewEdoc'', JBool (cd_CreateNewEdoc r))]"

definition finalizeRequest_json :: "FinalizeRequest \<Rightarrow> json" where
  "finalizeRequest_json r = JObj [
     (''sessionSignatureValues'', JArr (map (\<lambda>(sid, v). JObj [(''sessionId'', JStr sid),
        (''signatureValue'', JStr v)]) (fr_SessionSignatureValues r))),
     (''authCertificate'', JStr (fr_AuthCertificate r))]"

definition addArchiveRequest :: "string \<Rightarrow> string \<Rightarrow> json" where
  "addArchiveRequest sid cert = JObj [
     (''sessions'', JArr [session_ref_json sid]), (''authCertificate'', JStr cert)]"

text \<open>Responses from JSON.\<close>

definition startResponse :: "json \<Rightarrow> string option" where
  "startResponse v = Option.bind (obj_of (Some v)) (\<lambda>v. Option.bind (obj_of (field v ''data''))
     (\<lambda>d. string_of (field d ''sessionId'')))"

definition named_doc :: "json \<Rightarrow> (string \<times> string) option" where
  "named_doc v = Option.bind (obj_of (Some v)) (\<lambda>d. Option.bind (string_of (field d ''id''))
     (\<lambda>i. Option.bind (string_of (field d ''name'')) (\<lambda>n. Some (i, n))))"

definition uploadResponse :: "json \<Rightarrow> (string \<times> string \<times> string list) option" where
  "uploadResponse v = Option.bind (obj_of (Some v)) (\<lambda>v. Option.bind (obj_of (field v ''data''))
     (\<lambda>d. Option.bind (named_doc d) (\<lambda>(i, n). Option.bind (array_of (field d ''includedDocuments''))
     (\<lambda>ds. Option.bind (those (map named_doc ds)) (\<lambda>xs. Some (i, n, map fst xs))))))"

definition calculateDigestResponse :: "json \<Rightarrow> ((string \<times> string) list \<times> string \<times> string \<times> string) option" where
  "calculateDigestResponse v = Option.bind (obj_of (Some v)) (\<lambda>v. Option.bind (obj_of (field v ''data''))
     (\<lambda>d. Option.bind (array_of (field d ''sessionDigests''))
     (\<lambda>sds. Option.bind (those (map (\<lambda>sd. Option.bind (obj_of (Some sd)) (\<lambda>sd.
         Option.bind (string_of (field sd ''sessionId''))
         (\<lambda>i. Option.bind (string_of (field sd ''digest'')) (\<lambda>g. Some (i, g))))) sds))
     (\<lambda>xs. Option.bind (string_of (field d ''digests_summary''))
     (\<lambda>summ. Option.bind (string_of (field d ''algorithm''))
     (\<lambda>alg. Option.bind (string_of (field d ''signature_algorithm''))
     (\<lambda>sa. Some (xs, summ, alg, sa))))))))"

definition fileInfo_of :: "json \<Rightarrow> FileInfo option" where
  "fileInfo_of v = Option.bind (named_doc v) (\<lambda>(i, n). Option.bind (obj_of (Some v))
     (\<lambda>d. Option.bind (int_of_json (field d ''size'')) (\<lambda>z. Some (FileInfo i n z))))"

definition listResponse :: "json \<Rightarrow> FileInfo list option" where
  "listResponse v = Option.bind (obj_of (Some v)) (\<lambda>v. Option.bind (array_of (field v ''data''))
     (\<lambda>fs. those (map fileInfo_of fs)))"

section \<open>The client\<close>

record 'u Client =
  c_base :: string
  c_token :: "('u net, err, string) prog"
  c_env :: "'u env"
  c_firstWait :: int
  c_callLimit :: int

definition ms :: "int \<Rightarrow> int" where "ms n = n * 1000000"
definition secs :: "int \<Rightarrow> int" where "secs n = n * 1000000000"

definition attemptLimit :: int where "attemptLimit = secs 30"
definition DefaultFirstAttempt :: int where "DefaultFirstAttempt = secs 10"
definition DefaultCallLimit :: int where "DefaultCallLimit = secs 60"

definition WithFirstAttempt :: "int \<Rightarrow> 'u Client \<Rightarrow> 'u Client" where
  "WithFirstAttempt d c = (if d > 0 then c\<lparr>c_firstWait := d\<rparr> else c)"

definition WithCallLimit :: "int \<Rightarrow> 'u Client \<Rightarrow> 'u Client" where
  "WithCallLimit d c = (if d > 0 then c\<lparr>c_callLimit := d\<rparr> else c)"

definition NewClient :: "string \<Rightarrow> ('u net, err, string) prog \<Rightarrow> 'u env \<Rightarrow> ('u Client \<Rightarrow> 'u Client) list \<Rightarrow> 'u Client" where
  "NewClient baseURL token e opts =
     fold (\<lambda>f c. f c) opts \<lparr>c_base = trim_suffix baseURL ''/'', c_token = token, c_env = e,
       c_firstWait = DefaultFirstAttempt, c_callLimit = DefaultCallLimit\<rparr>"

text \<open>How long one try with each HTTP client may take: in all, and until the answer begins.\<close>

fun client_limits :: "'u Client \<Rightarrow> hclient \<Rightarrow> int \<times> int option" where
  "client_limits c HcFull = (attemptLimit, None)"
| "client_limits c HcQuick = (attemptLimit, Some (c_firstWait c))"
| "client_limits c HcPatient = (c_callLimit c, None)"
| "client_limits c HcEntrust = (secs 20, None)"

section \<open>Transport helpers\<close>

definition ClientError :: "nat \<Rightarrow> bool" where
  "ClientError status \<longleftrightarrow> 400 \<le> status \<and> status < 500"

definition client :: "bool \<Rightarrow> nat \<Rightarrow> hclient" where
  "client quick attempt = (if quick \<and> attempt = 0 then HcQuick else HcFull)"

fun double_times :: "nat \<Rightarrow> int \<Rightarrow> int" where
  "double_times 0 d = d"
| "double_times (Suc n) d = double_times n (d * 2)"

definition backoff :: "nat \<Rightarrow> int" where
  "backoff attempt = (let d = double_times attempt (ms 200) in if d > secs 2 then secs 2 else d)"

definition truncate_body :: "string \<Rightarrow> string" where
  "truncate_body b = (if length b > 512 then take 512 b else b)"

definition clip :: "string \<Rightarrow> nat \<Rightarrow> string" where
  "clip b mx = (if length b > mx then take mx b @ map char_of [0xE2, 0x80, 0xA6 :: nat] else b)"

definition media_type :: "string \<Rightarrow> string" where
  "media_type ct = (let ct = to_lower (trim_space ct) in
     if CHR '';'' \<in> set ct then trim_space (takeWhile (\<lambda>c. c \<noteq> CHR '';'') ct) else ct)"

definition isLoggableBody :: "string \<Rightarrow> bool" where
  "isLoggableBody contentType =
     (let ct = media_type contentType in
      ct = [] \<or> ct = ''application/json'' \<or> has_suffix ct ''+json'' \<or> has_prefix ct ''text/'')"

text \<open>\<open>io.LimitReader\<close>: of a longer body only the first part is read.\<close>

definition limit_body :: "int \<Rightarrow> payload \<Rightarrow> payload" where
  "limit_body n b = (if int (length (p_text b)) \<le> n then b else \<lparr>p_text = take (nat n) (p_text b), p_json = None\<rparr>)"

definition maxBody :: int where "maxBody = 2 ^ 26"

definition mk_request :: "'u Client \<Rightarrow> hclient \<Rightarrow> string \<Rightarrow> string \<Rightarrow> string \<Rightarrow> string \<Rightarrow> body \<Rightarrow> string \<Rightarrow> request" where
  "mk_request c hc token method path correlationID body contentType = \<lparr>
     rq_client = hc, rq_method = method, rq_url = c_base c @ path,
     rq_headers = [(''Authorization'', ''Bearer '' @ token), (''Accept'', ''application/json'')] @
       (if contentType \<noteq> [] then [(''Content-Type'', contentType)] else []) @
       (if correlationID \<noteq> [] then [(''X-Correlation-ID'', correlationID)] else []),
     rq_body = body\<rparr>"

definition send :: "'u Client \<Rightarrow> hclient \<Rightarrow> string \<Rightarrow> string \<Rightarrow> string \<Rightarrow> body \<Rightarrow> string \<Rightarrow> ('u net, err, nat \<times> payload) prog" where
  "send c hc method path correlationID body contentType =
     bindE (mapErrE (ErrPre ''signapi: introspect token: '') (c_token c)) (\<lambda>token.
     case e_new_request (c_env c) method (c_base c @ path) of
       Some e \<Rightarrow> failE e
     | None \<Rightarrow>
         bindE (mapErrE (ErrPre (''signapi: '' @ method @ '' '' @ path @ '': ''))
                 (transmit (c_env c) (mk_request c hc token method path correlationID body contentType)))
           (\<lambda>resp. case rs_body resp of Inl e \<Rightarrow> failE e
                   | Inr b \<Rightarrow> retE (rs_status resp, limit_body maxBody b)))"

text \<open>The tries of a retried call that are left, with the number of those made and the last error.\<close>

fun retried_from :: "'u Client \<Rightarrow> bool \<Rightarrow> string \<Rightarrow> string \<Rightarrow> string \<Rightarrow> body \<Rightarrow> string \<Rightarrow> nat \<Rightarrow> nat \<Rightarrow> err \<Rightarrow>
    ('u net, err, payload) prog" where
  "retried_from c quick method path correlationID body contentType 0 attempt lastErr = failE lastErr"
| "retried_from c quick method path correlationID body contentType (Suc left) attempt lastErr =
     (let again = \<lambda>e. bindE (onEnv (e_wait (c_env c) (backoff attempt)))
            (\<lambda>_. retried_from c quick method path correlationID body contentType left (Suc attempt) e) in
      bindE (tryE (send c (client quick attempt) method path correlationID body contentType))
        (\<lambda>r. case r of
           Inl e \<Rightarrow> again e
         | Inr (status, respBody) \<Rightarrow>
             if status div 100 = 5 then again (APIError method path status (truncate_body (p_text respBody)))
             else if status div 100 \<noteq> 2 then failE (APIError method path status (truncate_body (p_text respBody)))
             else retE respBody))"

definition maxAttempts :: nat where "maxAttempts = 3"

definition retried :: "'u Client \<Rightarrow> bool \<Rightarrow> string \<Rightarrow> string \<Rightarrow> string \<Rightarrow> body \<Rightarrow> string \<Rightarrow> (payload \<Rightarrow> err + 'a) \<Rightarrow> ('u net, err, 'a) prog" where
  "retried c quick method path correlationID body contentType out =
     bindE (retried_from c quick method path correlationID body contentType maxAttempts 0 (ErrOther []))
       (\<lambda>b. ofsumE (out b))"

definition do_call :: "'u Client \<Rightarrow> string \<Rightarrow> string \<Rightarrow> string \<Rightarrow> body \<Rightarrow> string \<Rightarrow> (payload \<Rightarrow> err + 'a) \<Rightarrow> ('u net, err, 'a) prog" where
  "do_call c method path correlationID body contentType out = retried c False method path correlationID body contentType out"

definition doQuick :: "'u Client \<Rightarrow> string \<Rightarrow> string \<Rightarrow> string \<Rightarrow> body \<Rightarrow> string \<Rightarrow> (payload \<Rightarrow> err + 'a) \<Rightarrow> ('u net, err, 'a) prog" where
  "doQuick c method path correlationID body contentType out = retried c True method path correlationID body contentType out"

definition raw :: "'u Client \<Rightarrow> string \<Rightarrow> string \<Rightarrow> string \<Rightarrow> ('u net, err, string) prog" where
  "raw c method path correlationID =
     bindE (retried_from c True method path correlationID NoBody [] maxAttempts 0 (ErrOther []))
       (\<lambda>b. retE (p_text b))"

definition doOnce :: "'u Client \<Rightarrow> string \<Rightarrow> string \<Rightarrow> string \<Rightarrow> body \<Rightarrow> string \<Rightarrow> (payload \<Rightarrow> err + 'a) \<Rightarrow> ('u net, err, 'a) prog" where
  "doOnce c method path correlationID body contentType out =
     bindE (send c HcPatient method path correlationID body contentType)
       (\<lambda>(status, respBody). if status div 100 \<noteq> 2 then failE (APIError method path status (truncate_body (p_text respBody)))
          else ofsumE (out respBody))"

definition notTaken :: "err + nat \<Rightarrow> bool" where
  "notTaken r = (case r of Inl e \<Rightarrow> is_dial_error e | Inr status \<Rightarrow> status = 502 \<or> status = 503)"

fun patient_from :: "'u Client \<Rightarrow> string \<Rightarrow> string \<Rightarrow> string \<Rightarrow> body \<Rightarrow> string \<Rightarrow> nat \<Rightarrow> nat \<Rightarrow> err + nat \<times> payload \<Rightarrow>
    ('u net, err, nat \<times> payload) prog" where
  "patient_from c method path correlationID body contentType 0 attempt r = ofsumE r"
| "patient_from c method path correlationID body contentType (Suc left) attempt r0 =
     bindE (tryE (send c HcPatient method path correlationID body contentType))
       (\<lambda>r. if \<not> notTaken (map_sum id fst r) then ofsumE r
            else bindE (onEnv (e_wait (c_env c) (backoff attempt)))
                   (\<lambda>_. patient_from c method path correlationID body contentType left (Suc attempt) r))"

definition patientCall :: "'u Client \<Rightarrow> string \<Rightarrow> string \<Rightarrow> string \<Rightarrow> body \<Rightarrow> string \<Rightarrow> ('u net, err, nat \<times> payload) prog" where
  "patientCall c method path correlationID body contentType =
     patient_from c method path correlationID body contentType maxAttempts 0 (Inr (0, \<lparr>p_text = [], p_json = None\<rparr>))"

definition doPatient :: "'u Client \<Rightarrow> string \<Rightarrow> string \<Rightarrow> string \<Rightarrow> body \<Rightarrow> string \<Rightarrow> (payload \<Rightarrow> err + 'a) \<Rightarrow> ('u net, err, 'a) prog" where
  "doPatient c method path correlationID body contentType out =
     bindE (patientCall c method path correlationID body contentType)
       (\<lambda>(status, respBody). if status div 100 \<noteq> 2 then failE (APIError method path status (truncate_body (p_text respBody)))
          else ofsumE (out respBody))"

section \<open>Operations\<close>

definition ignore_body :: "payload \<Rightarrow> err + unit" where
  "ignore_body b = Inr ()"

definition json_content :: string where "json_content = ''application/json''"

definition StartSession :: "'u Client \<Rightarrow> string \<Rightarrow> ('u net, err, string) prog" where
  "StartSession c correlationID =
     bindE (doQuick c ''GET'' ''/api-session/v1.0/start'' correlationID NoBody [] (decode startResponse []))
       (\<lambda>sid. if sid = [] then failE (ErrOther ''signapi: start session returned no sessionId'') else retE sid)"

text \<open>The multipart form is its one file part; its boundary is not modelled.\<close>

definition multipart_content :: string where "multipart_content = ''multipart/form-data''"

definition UploadFile :: "'u Client \<Rightarrow> string \<Rightarrow> string \<Rightarrow> string \<Rightarrow> string \<Rightarrow> bytes \<Rightarrow> ('u net, err, UploadResult) prog" where
  "UploadFile c correlationID sessionID fileName mimeType data =
     bindE (do_call c ''PUT'' (''/api-storage/v1.0/'' @ sessionID @ ''/upload'') correlationID
              (MultipartFile fileName mimeType data) multipart_content (decode uploadResponse ([], [], [])))
       (\<lambda>(i, n, incl). retE \<lparr>ur_DocumentID = i, ur_FileName = n, ur_IncludedDocuments = incl\<rparr>)"

definition AddDocumentDigest :: "'u Client \<Rightarrow> string \<Rightarrow> string \<Rightarrow> HashFile list \<Rightarrow> int \<Rightarrow> ('u net, err, unit) prog" where
  "AddDocumentDigest c correlationID sessionID files signatureIndex =
     do_call c ''POST'' (''/api-storage/v1.0/'' @ sessionID @ ''/addDocumentDigest'') correlationID
       (JsonBody (addDocumentDigestRequest files signatureIndex)) json_content ignore_body"

definition CalculateDigest :: "'u Client \<Rightarrow> string \<Rightarrow> CalculateDigestRequest \<Rightarrow> ('u net, err, DigestResult list) prog" where
  "CalculateDigest c correlationID req =
     bindE (doPatient c ''POST'' ''/api-sign/v1.0/CalculateDigest'' correlationID
              (JsonBody (calculateDigestRequest_json req)) json_content
              (decode calculateDigestResponse ([], [], [], [])))
       (\<lambda>(sds, summ, alg, sa). retE (map (\<lambda>(sid, g). \<lparr>dr_SessionID = sid, dr_Digest = g,
            dr_DigestsSummary = summ, dr_Algorithm = alg, dr_SignatureAlgorithm = sa\<rparr>) sds))"

definition finalizePath :: string where "finalizePath = ''/api-sign/v1.0/finalizeSigning''"
definition archivePath :: string where "archivePath = ''/api-sign/v1.0/addArchive''"

definition FinalizeSigning :: "'u Client \<Rightarrow> string \<Rightarrow> FinalizeRequest \<Rightarrow> ('u net, err, unit) prog" where
  "FinalizeSigning c correlationID req =
     doOnce c ''POST'' finalizePath correlationID (JsonBody (finalizeRequest_json req)) json_content ignore_body"

definition api_Validate :: "'u Client \<Rightarrow> string \<Rightarrow> string \<Rightarrow> string \<Rightarrow> ('u net, err, nat \<times> string) prog" where
  "api_Validate c correlationID sessionID documentID =
     (let path = ''/api-validation/v2.0/'' @ sessionID @ ''/'' @ documentID @ ''/validate'' in
      bindE (patientCall c ''GET'' path correlationID NoBody [])
        (\<lambda>(status, b). if status div 100 = 5
           then failE (ErrOther (''signapi: GET '' @ path @ '' returned '' @ show_nat status @ '': '' @ truncate_body (p_text b)))
           else retE (status, p_text b)))"

definition AddArchiveTimestamp :: "'u Client \<Rightarrow> string \<Rightarrow> string \<Rightarrow> string \<Rightarrow> ('u net, err, unit) prog" where
  "AddArchiveTimestamp c correlationID sessionID authCertificate =
     doOnce c ''POST'' archivePath correlationID (JsonBody (addArchiveRequest sessionID authCertificate)) json_content ignore_body"

definition List :: "'u Client \<Rightarrow> string \<Rightarrow> string \<Rightarrow> ('u net, err, FileInfo list) prog" where
  "List c correlationID sessionID =
     doQuick c ''GET'' (''/api-storage/v1.0/'' @ sessionID @ ''/list'') correlationID NoBody [] (decode listResponse [])"

definition api_Download :: "'u Client \<Rightarrow> string \<Rightarrow> string \<Rightarrow> string \<Rightarrow> bool \<Rightarrow> ('u net, err, string) prog" where
  "api_Download c correlationID sessionID fileID asice =
     raw c ''GET'' (''/api-storage/v1.0/'' @ sessionID @ ''/'' @ fileID @ (if asice then ''?type=asice'' else [])) correlationID"

definition CloseSession :: "'u Client \<Rightarrow> string \<Rightarrow> string \<Rightarrow> ('u net, err, unit) prog" where
  "CloseSession c correlationID sessionID =
     doQuick c ''GET'' (''/api-session/v1.0/'' @ sessionID @ ''/close'') correlationID NoBody [] ignore_body"

section \<open>What the calls send\<close>

text \<open>The part of the history that went through the signing API's HTTP clients.\<close>

definition sa_log :: "'u net \<Rightarrow> exchange list" where
  "sa_log w = filter (\<lambda>x. rq_client (fst x) \<noteq> HcEntrust) (n_log w)"

text \<open>The requests of one call: same client's base, method, path, correlation id and body.\<close>

definition is_try :: "'u Client \<Rightarrow> string \<Rightarrow> string \<Rightarrow> body \<Rightarrow> exchange \<Rightarrow> bool" where
  "is_try c method path body x \<longleftrightarrow>
     rq_method (fst x) = method \<and> rq_url (fst x) = c_base c @ path \<and> rq_body (fst x) = body"

text \<open>What came of a try: a definite answer, or something after which the code tries again.\<close>

definition answered :: "exchange \<Rightarrow> (nat \<times> payload) option" where
  "answered x = (case snd x of Inl _ \<Rightarrow> None
     | Inr rs \<Rightarrow> (case rs_body rs of Inl _ \<Rightarrow> None | Inr b \<Rightarrow> Some (rs_status rs, limit_body maxBody b)))"

definition retryable :: "exchange \<Rightarrow> bool" where
  "retryable x = (case answered x of None \<Rightarrow> True | Some (st, _) \<Rightarrow> st div 100 = 5)"

definition untaken :: "exchange \<Rightarrow> bool" where
  "untaken x = (case snd x of Inl e \<Rightarrow> is_dial_error e
     | Inr rs \<Rightarrow> (case rs_body rs of Inl e \<Rightarrow> is_dial_error e | Inr _ \<Rightarrow> rs_status rs = 502 \<or> rs_status rs = 503))"

lemma mk_request_simps [simp]:
  "rq_client (mk_request c hc tok m p corr bd ct) = hc" "rq_method (mk_request c hc tok m p corr bd ct) = m"
  "rq_url (mk_request c hc tok m p corr bd ct) = c_base c @ p" "rq_body (mk_request c hc tok m p corr bd ct) = bd"
  by (simp_all add: mk_request_def)

lemma outcome_simps [simp]:
  "answered (rq, Inl e) = None" "untaken (rq, Inl e) = is_dial_error e"
  "rs_body rs = Inl e \<Longrightarrow> answered (rq, Inr rs) = None"
  "rs_body rs = Inl e \<Longrightarrow> untaken (rq, Inr rs) = is_dial_error e"
  "rs_body rs = Inr b \<Longrightarrow> answered (rq, Inr rs) = Some (rs_status rs, limit_body maxBody b)"
  by (simp_all add: answered_def untaken_def)

lemma untaken_answered: "answered x = Some (st, b) \<Longrightarrow> untaken x \<longleftrightarrow> st = 502 \<or> st = 503"
  by (auto simp: answered_def untaken_def split: sum.splits)

text \<open>The digest calculation: its results are the entries of the last answer.\<close>

definition digest_answer :: "'u Client \<Rightarrow> CalculateDigestRequest \<Rightarrow> 'u net \<Rightarrow> 'u net \<Rightarrow> (string \<times> string) list \<Rightarrow>
    string \<Rightarrow> string \<Rightarrow> string \<Rightarrow> bool" where
  "digest_answer c req w w' sds summ alg sa \<longleftrightarrow>
     (\<exists>xs x st b. sa_log w' = sa_log w @ xs @ [x] \<and> list_all untaken xs \<and>
        is_try c ''POST'' ''/api-sign/v1.0/CalculateDigest'' (JsonBody (calculateDigestRequest_json req)) x \<and>
        answered x = Some (st, b) \<and> st div 100 = 2 \<and>
        decode calculateDigestResponse ([], [], [], []) b = Inr (sds, summ, alg, sa))"

locale signapi_client =
  fixes c :: "'u Client"
  assumes token_frame:
    "wp (c_token c) (\<lambda>_ w'. sa_log w' = sa_log w) (\<lambda>_ w'. sa_log w' = sa_log w) w"
begin

text \<open>One try: nothing is sent (no token, a malformed URL), or one request, with its outcome.\<close>

definition one_try where
  "one_try hc m p bd w w' x \<longleftrightarrow> sa_log w' = sa_log w @ [x] \<and> is_try c m p bd x \<and> rq_client (fst x) = hc"

lemma send_log:
  assumes "hc \<noteq> HcEntrust"
  shows "wp (send c hc m p corr bd ct)
     (\<lambda>r w'. \<exists>x. one_try hc m p bd w w' x \<and> answered x = Some r)
     (\<lambda>e w'. sa_log w' = sa_log w \<or>
        (\<exists>x. one_try hc m p bd w w' x \<and> answered x = None \<and> untaken x = is_dial_error e)) w"
proof -
  let ?rq = "\<lambda>tok. mk_request c hc tok m p corr bd ct"
  have one: "one_try hc m p bd w w' (?rq tok, r)" if "sa_log w' = sa_log w @ [(?rq tok, r)]" for w' tok r
    using that by (simp add: one_try_def is_try_def)
  have tr: "wp (transmit (c_env c) (?rq tok))
      (\<lambda>rs w'. one_try hc m p bd w w' (?rq tok, Inr rs)) (\<lambda>e w'. one_try hc m p bd w w' (?rq tok, Inl e)) w0"
    if "sa_log w0 = sa_log w" for w0 tok
    by (rule wp_mono [OF transmit_log]; rule one) (use that assms in \<open>auto simp: sa_log_def\<close>)
  have post: "case rs_body rs of Inl e \<Rightarrow> sa_log w' = sa_log w \<or>
        (\<exists>x. one_try hc m p bd w w' x \<and> answered x = None \<and> untaken x = is_dial_error e)
      | Inr b \<Rightarrow> \<exists>x. one_try hc m p bd w w' x \<and> answered x = Some (rs_status rs, limit_body maxBody b)"
    if "one_try hc m p bd w w' (?rq tok, Inr rs)" for rs w' tok
    using that
    by (cases "rs_body rs")
       (auto intro: exI [where x = "(?rq tok, Inr rs)"] simp del: split_paired_Ex split_paired_All)
  show ?thesis
    unfolding send_def wp_rules
  proof (rule wp_mono [OF token_frame])
    fix tok and w0 :: "'u net" assume w0: "sa_log w0 = sa_log w"
    show "case e_new_request (c_env c) m (c_base c @ p) of
        None \<Rightarrow> wp (transmit (c_env c) (?rq tok))
          (\<lambda>resp s. case rs_body resp of
              Inl e \<Rightarrow> sa_log s = sa_log w \<or> (\<exists>x. one_try hc m p bd w s x \<and> answered x = None \<and> untaken x = is_dial_error e)
            | Inr b \<Rightarrow> \<exists>x. one_try hc m p bd w s x \<and> answered x = Some (rs_status resp, limit_body maxBody b))
          (\<lambda>e s. sa_log s = sa_log w \<or> (\<exists>x. one_try hc m p bd w s x \<and> answered x = None \<and>
             untaken x = is_dial_error (ErrPre (''signapi: '' @ m @ '' '' @ p @ '': '') e))) w0
      | Some e \<Rightarrow> sa_log w0 = sa_log w \<or> (\<exists>x. one_try hc m p bd w w0 x \<and> answered x = None \<and> untaken x = is_dial_error e)"
      using w0
      by (auto split: option.split intro!: wp_mono [OF tr [OF w0]] post simp del: split_paired_Ex split_paired_All)
  qed simp
qed

lemma wait_log: "wp (onEnv (e_wait (c_env c) d)) (\<lambda>_ w'. sa_log w' = sa_log w) (\<lambda>_ w'. sa_log w' = sa_log w) w"
  by (rule onEnv_frame) (simp add: sa_log_def)

text \<open>
  A call's tries from the history \<open>L\<close>: the requests \<open>xs\<close> it added, all of them its own, at
  most \<open>n\<close>, and every one but the last was such that the code tries again.
\<close>

definition tries where
  "tries m p bd P n L w xs \<longleftrightarrow>
     sa_log w = L @ xs \<and> length xs \<le> n \<and> list_all (is_try c m p bd) xs \<and> list_all P (butlast xs)"

lemma tries_nil: "sa_log w = L \<Longrightarrow> tries m p bd P n L w []"
  by (simp add: tries_def)

lemma tries_none: "sa_log w = L \<Longrightarrow> \<exists>xs. tries m p bd P n L w xs"
  using tries_nil by blast

lemma tries_one: "one_try hc m p bd w0 w x \<Longrightarrow> sa_log w0 = L \<Longrightarrow> tries m p bd P (Suc n) L w [x]"
  by (simp add: tries_def one_try_def)

lemma tries_Suc: "tries m p bd P n L w xs \<Longrightarrow> tries m p bd P (Suc n) L w xs"
  by (simp add: tries_def)

lemma tries_Cons:
  "tries m p bd P n (L @ [x]) w xs \<Longrightarrow> P x \<Longrightarrow> is_try c m p bd x \<Longrightarrow> tries m p bd P (Suc n) L w (x # xs)"
  by (auto simp: tries_def)

text \<open>What a failed or repeatable try leaves, and the wait after it.\<close>

definition tried where
  "tried m p bd P L w \<longleftrightarrow> sa_log w = L \<or> (\<exists>x. sa_log w = L @ [x] \<and> P x \<and> is_try c m p bd x)"

lemma tried_wait:
  "tried m p bd P L w \<Longrightarrow> wp (onEnv (e_wait (c_env c) d)) (\<lambda>_. tried m p bd P L) (\<lambda>_. tried m p bd P L) w"
  by (rule wp_mono [OF wait_log]) (auto simp: tried_def)

lemma tried_tries: "tried m p bd P L w \<Longrightarrow> \<exists>xs. tries m p bd P (Suc n) L w xs"
  by (auto simp: tried_def intro: tries_nil tries_one [unfolded one_try_def] simp del: split_paired_Ex)
     (auto simp: tries_def intro!: exI [of _ "[_]"])

lemma retried_from_log:
  "wp (retried_from c quick m p corr bd ct n a e0)
     (\<lambda>b w'. \<exists>xs st. tries m p bd retryable n (sa_log w) w' xs \<and> xs \<noteq> [] \<and> answered (last xs) = Some (st, b) \<and> st div 100 = 2)
     (\<lambda>e w'. \<exists>xs. tries m p bd retryable n (sa_log w) w' xs) w"
proof (induction n arbitrary: a e0 w)
  case 0
  then show ?case by (auto simp: wp_rules intro: tries_nil)
next
  case (Suc n)
  let ?Q = "\<lambda>b w'. \<exists>xs st. tries m p bd retryable (Suc n) (sa_log w) w' xs \<and> xs \<noteq> [] \<and> answered (last xs) = Some (st, b) \<and> st div 100 = 2"
  let ?E = "\<lambda>e w'. \<exists>xs. tries m p bd retryable (Suc n) (sa_log w) w' xs"
  have IH: "wp (retried_from c quick m p corr bd ct n (Suc a) e) ?Q ?E w1" if t: "tried m p bd retryable (sa_log w) w1" for e w1
    using t unfolding tried_def
  proof
    assume "sa_log w1 = sa_log w"
    then show ?thesis by (intro wp_mono [OF Suc.IH]) (auto dest: tries_Suc)
  next
    assume "\<exists>x. sa_log w1 = sa_log w @ [x] \<and> retryable x \<and> is_try c m p bd x"
    then obtain x where "sa_log w1 = sa_log w @ [x]" "retryable x" "is_try c m p bd x" by blast
    then show ?thesis
      by (intro wp_mono [OF Suc.IH]) (force dest: tries_Cons, force dest: tries_Cons)
  qed
  have again: "wp (bindE (onEnv (e_wait (c_env c) d)) (\<lambda>_. retried_from c quick m p corr bd ct n (Suc a) e)) ?Q ?E w1"
    if "tried m p bd retryable (sa_log w) w1" for d e w1
    unfolding wp_bindE by (rule wp_mono [OF tried_wait [OF that]]; (rule IH | rule tried_tries))
  have hc: "client quick a \<noteq> HcEntrust" by (simp add: client_def)
  show ?case
    unfolding retried_from.simps Let_def wp_bindE wp_tryE
  proof (rule wp_mono [OF send_log [OF hc]], goal_cases)
    case (1 r w1)
    then obtain x where x: "one_try (client quick a) m p bd w w1 x" "answered x = Some r" by blast
    have t: "tried m p bd retryable (sa_log w) w1" if "fst r div 100 = 5"
      using x that by (cases r) (auto simp: tried_def one_try_def retryable_def)
    have "\<exists>xs. tries m p bd retryable (Suc n) (sa_log w) w1 xs \<and> xs \<noteq> [] \<and> answered (last xs) = Some r"
      using x(2) tries_one [OF x(1) refl] by (intro exI [of _ "[x]"]) auto
    then show ?case
      using again [OF t] by (cases r) (auto simp: wp_rules simp del: split_paired_Ex)
  next
    case (2 e w1)
    then have "tried m p bd retryable (sa_log w) w1"
      by (auto simp: tried_def one_try_def retryable_def)
    from again [OF this] show ?case by (simp add: wp_bindE)
  qed
qed

lemma patient_from_log:
  "wp (patient_from c m p corr bd ct n a r0)
     (\<lambda>r w'. \<exists>xs. tries m p bd untaken n (sa_log w) w' xs \<and> (if xs = [] then n = 0 \<and> r0 = Inr r else answered (last xs) = Some r))
     (\<lambda>e w'. \<exists>xs. tries m p bd untaken n (sa_log w) w' xs) w"
proof (induction n arbitrary: a r0 w)
  case 0
  then show ?case by (cases r0) (auto simp: wp_rules intro: tries_nil)
next
  case (Suc n)
  let ?Q = "\<lambda>r w'. \<exists>xs. tries m p bd untaken (Suc n) (sa_log w) w' xs \<and> xs \<noteq> [] \<and> answered (last xs) = Some r"
  let ?E = "\<lambda>e w'. \<exists>xs. tries m p bd untaken (Suc n) (sa_log w) w' xs"
  have IH0: "wp (patient_from c m p corr bd ct n (Suc a) (Inl e)) ?Q ?E w1" if "sa_log w1 = sa_log w" for e w1
    using that by (intro wp_mono [OF Suc.IH]) (auto dest: tries_Suc split: if_splits)
  have IH1: "wp (patient_from c m p corr bd ct n (Suc a) r) ?Q ?E w1"
    if "sa_log w1 = sa_log w @ [x]" "untaken x" "is_try c m p bd x" "\<And>v. r = Inr v \<Longrightarrow> answered x = Some v" for r x w1
    using that by (intro wp_mono [OF Suc.IH]) (force dest: tries_Cons split: if_splits, force dest: tries_Cons)
  have again: "wp (bindE (onEnv (e_wait (c_env c) d)) (\<lambda>_. patient_from c m p corr bd ct n (Suc a) r)) ?Q ?E w1"
    if "sa_log w1 = sa_log w \<and> (\<exists>e. r = Inl e) \<or>
        (\<exists>x. sa_log w1 = sa_log w @ [x] \<and> untaken x \<and> is_try c m p bd x \<and> (\<forall>v. r = Inr v \<longrightarrow> answered x = Some v))" for r d w1
  proof -
    from that have "tried m p bd untaken (sa_log w) w1" by (auto simp: tried_def)
    then have E: "?E e w'" if "sa_log w' = sa_log w1" for e w'
      using that by (intro tried_tries) (simp add: tried_def)
    from that show ?thesis
      unfolding wp_bindE by (intro wp_mono [OF wait_log]) (auto simp del: split_paired_Ex intro: IH0 IH1 E)
  qed
  have "wp (patient_from c m p corr bd ct (Suc n) a r0) ?Q ?E w"
    unfolding patient_from.simps wp_bindE wp_tryE
  proof (rule wp_mono [OF send_log], goal_cases)
    case (2 r w1)
    then obtain x where x: "one_try HcPatient m p bd w w1 x" "answered x = Some r" by blast
    then have "notTaken (map_sum id fst (Inr r :: err + nat \<times> payload)) = untaken x"
      by (cases r) (simp add: notTaken_def untaken_answered)
    moreover have "?Q r w1" using x(2) tries_one [OF x(1) refl] by (intro exI [of _ "[x]"]) auto
    moreover have "untaken x \<Longrightarrow> sa_log w1 = sa_log w @ [x] \<and> untaken x \<and> is_try c m p bd x \<and> (\<forall>v. Inr r = (Inr v :: err + nat \<times> payload) \<longrightarrow> answered x = Some v)"
      using x by (simp add: one_try_def)
    ultimately show ?case using again [of w1 "Inr r", unfolded wp_bindE] by (auto simp: wp_rules simp del: split_paired_Ex)
  next
    case (3 e w1)
    then show ?case
      using again [of w1 "Inl e"] tries_one [of HcPatient m p bd w w1 _ "sa_log w" untaken n]
      by (auto simp: wp_rules notTaken_def one_try_def intro: tries_none simp del: split_paired_Ex split_paired_All)
  qed simp
  then show ?case by (rule wp_mono) auto
qed

lemma patientCall_log:
  "wp (patientCall c m p corr bd ct)
      (\<lambda>r w'. \<exists>xs x. sa_log w' = sa_log w @ xs @ [x] \<and> length xs \<le> 2 \<and> list_all (is_try c m p bd) (xs @ [x]) \<and>
         list_all untaken xs \<and> answered x = Some r)
      (\<lambda>e w'. \<exists>xs. sa_log w' = sa_log w @ xs \<and> length xs \<le> 3 \<and> list_all (is_try c m p bd) xs \<and>
         list_all untaken (butlast xs)) w"
  unfolding patientCall_def
proof (rule wp_mono [OF patient_from_log], goal_cases)
  case (1 r w')
  then obtain xs where xs: "tries m p bd untaken maxAttempts (sa_log w) w' xs" "xs \<noteq> []"
    "answered (last xs) = Some r" by (auto simp: maxAttempts_def split: if_splits)
  then have "sa_log w' = sa_log w @ butlast xs @ [last xs]" "length (butlast xs) \<le> 2"
    "list_all (is_try c m p bd) (butlast xs @ [last xs])" "list_all untaken (butlast xs)"
    by (auto simp: tries_def maxAttempts_def)
  with xs(3) show ?case by blast
next
  case (2 e w')
  then show ?case by (auto simp: tries_def maxAttempts_def)
qed

lemma CalculateDigest_log:
  "wp (CalculateDigest c corr req)
     (\<lambda>rs w'. \<exists>sds summ alg sa. digest_answer c req w w' sds summ alg sa \<and>
        rs = map (\<lambda>(sid, g). \<lparr>dr_SessionID = sid, dr_Digest = g, dr_DigestsSummary = summ, dr_Algorithm = alg, dr_SignatureAlgorithm = sa\<rparr>) sds)
     (\<lambda>e w'. \<exists>xs. sa_log w' = sa_log w @ xs \<and> length xs \<le> 3) w"
  unfolding CalculateDigest_def doPatient_def wp_rules
proof (rule wp_mono [OF patientCall_log], goal_cases)
  case (1 r w')
  then obtain xs x where l: "sa_log w' = sa_log w @ xs @ [x]" "length xs \<le> 2" "list_all untaken xs" "answered x = Some r"
    "is_try c ''POST'' ''/api-sign/v1.0/CalculateDigest'' (JsonBody (calculateDigestRequest_json req)) x" by auto
  then have E: "\<exists>ys. sa_log w' = sa_log w @ ys \<and> length ys \<le> 3" by (intro exI [of _ "xs @ [x]"]) simp
  show ?case
  proof (cases r)
    case (Pair st b)
    then show ?thesis
      using l E by (auto simp: wp_rules digest_answer_def split: sum.split simp del: split_paired_Ex)
  qed
qed auto

lemma doOnce_log:
  "wp (doOnce c m p corr bd ct out)
     (\<lambda>v w'. \<exists>x st b. one_try HcPatient m p bd w w' x \<and> answered x = Some (st, b) \<and> st div 100 = 2 \<and> out b = Inr v)
     (\<lambda>e w'. sa_log w' = sa_log w \<or> (\<exists>x. one_try HcPatient m p bd w w' x)) w"
  unfolding doOnce_def wp_bindE
  by (rule wp_mono [OF send_log]) (auto simp: wp_rules split: sum.split prod.split simp del: split_paired_Ex)

end

text \<open>What a call added to the history, and the trace of a call in it.\<close>

definition sent :: "'u net \<Rightarrow> 'u net \<Rightarrow> exchange list" where
  "sent w w' = drop (length (sa_log w)) (sa_log w')"

lemma sent_append [simp]: "sa_log w' = sa_log w @ xs \<Longrightarrow> sent w w' = xs"
  by (simp add: sent_def)

section \<open>A scripted transport\<close>

text \<open>
  An environment for the witnesses: the answers to come are a script, the clock counts its
  readings, timers elapse at once, random bytes and ids are counted.
\<close>

record script =
  sc_answers :: "(err + response) list"
  sc_clock :: int
  sc_next :: nat

definition json_response :: "nat \<Rightarrow> json \<Rightarrow> response" where
  "json_response st v = \<lparr>rs_status = st, rs_ctype = ''application/json'', rs_body = Inr \<lparr>p_text = ''{}'', p_json = Some v\<rparr>\<rparr>"

definition script_env :: "script env" where
  "script_env = \<lparr>
     e_do = (\<lambda>rq s. case sc_answers s of [] \<Rightarrow> (Inl (ErrOther ''connection reset''), s)
               | a # as \<Rightarrow> (a, s\<lparr>sc_answers := as\<rparr>)),
     e_new_request = (\<lambda>m u. None),
     e_wait = (\<lambda>d s. (Inr (), s\<lparr>sc_clock := sc_clock s + d\<rparr>)),
     e_now = (\<lambda>s. (sc_clock s, s\<lparr>sc_clock := sc_clock s + 1\<rparr>)),
     e_rand = (\<lambda>n s. (Inr (replicate n (of_nat (sc_next s))), s\<lparr>sc_next := Suc (sc_next s)\<rparr>)),
     e_ulid = (\<lambda>s. (''J'' @ show_nat (sc_next s), s\<lparr>sc_next := Suc (sc_next s)\<rparr>)),
     e_subject = (\<lambda>b. None)\<rparr>"

definition script_net :: "(err + response) list \<Rightarrow> script net" where
  "script_net as = \<lparr>n_env = \<lparr>sc_answers = as, sc_clock = 0, sc_next = 0\<rparr>, n_log = [], n_tok = [], n_tok_exp = 0\<rparr>"

text \<open>A signing API client with a fixed token.\<close>

definition fixed_client :: "script Client" where
  "fixed_client = NewClient ''https://sign'' (retE ''tok'') script_env []"

lemmas script_defs = doOnce_def send_def transmit_def onEnv_def fixed_client_def NewClient_def script_env_def
  script_net_def json_response_def limit_body_def maxBody_def

interpretation fixed: signapi_client fixed_client
  by unfold_locales (simp add: fixed_client_def NewClient_def wp_retE)

section \<open>Properties\<close>

text \<open>
  C35: \<open>FinalizeSigning\<close> and \<open>AddArchiveTimestamp\<close> are at most once: whatever the transport
  does, each hands at most one request to the network, on the patient client, to its own
  path with its own body; it succeeds only when that request was answered with a 2xx, so a
  timeout or a 5xx is never followed by a second try.
\<close>

theorem finalize_at_most_once:
  assumes "signapi_client c"
  shows "wp (FinalizeSigning c corr req)
      (\<lambda>_ w'. \<exists>x st b. sa_log w' = sa_log w @ [x] \<and> is_try c ''POST'' finalizePath (JsonBody (finalizeRequest_json req)) x \<and>
         rq_client (fst x) = HcPatient \<and> answered x = Some (st, b) \<and> st div 100 = 2)
      (\<lambda>e w'. prefix (sa_log w) (sa_log w') \<and> length (sent w w') \<le> 1) w \<and>
    wp (AddArchiveTimestamp c corr sid cert)
      (\<lambda>_ w'. \<exists>x st b. sa_log w' = sa_log w @ [x] \<and> is_try c ''POST'' archivePath (JsonBody (addArchiveRequest sid cert)) x \<and>
         rq_client (fst x) = HcPatient \<and> answered x = Some (st, b) \<and> st div 100 = 2)
      (\<lambda>e w'. prefix (sa_log w) (sa_log w') \<and> length (sent w w') \<le> 1) w"
  unfolding FinalizeSigning_def AddArchiveTimestamp_def
  by (intro conjI; rule wp_mono [OF signapi_client.doOnce_log [OF assms]])
     (auto simp: signapi_client.one_try_def [OF assms] sent_def simp del: split_paired_Ex)

theorem finalize_at_most_once_witness:
  "wp (FinalizeSigning fixed_client ''J'' \<lparr>fr_SessionSignatureValues = [(''s'', ''v'')], fr_AuthCertificate = ''c''\<rparr>)
      (\<lambda>_ _. False) (\<lambda>e w'. length (sent (script_net [Inr (json_response 503 JNull)]) w') \<le> 1)
      (script_net [Inr (json_response 503 JNull)])"
proof -
  let ?w = "script_net [Inr (json_response 503 JNull)]"
  let ?r = "\<lparr>fr_SessionSignatureValues = [(''s'', ''v'')], fr_AuthCertificate = ''c''\<rparr>"
  have fails: "wp (FinalizeSigning fixed_client ''J'' ?r) (\<lambda>_ _. False) (\<lambda>_ _. True) ?w"
    by (simp add: wp_def run_defs FinalizeSigning_def script_defs)
  from wp_conj [OF fails conjunct1 [OF finalize_at_most_once [OF fixed.signapi_client_axioms, of "''J''" ?r ?w]]]
  show ?thesis by (rule wp_mono) auto
qed

text \<open>
  C37: A retried call (session start and close, upload, list, download, digests of hash-only
  documents) sends its request at most three times, always the same request, and sends it
  again only after a transport error or a 5xx: a 4xx ends it at once. It succeeds only on a
  2xx, with that answer's body.
\<close>

theorem retried_bounded:
  assumes "signapi_client c"
  shows "wp (retried c quick m p corr bd ct out)
      (\<lambda>v w'. \<exists>xs x st b. sa_log w' = sa_log w @ xs @ [x] \<and> length xs \<le> 2 \<and> list_all (is_try c m p bd) (xs @ [x]) \<and>
         list_all retryable xs \<and> answered x = Some (st, b) \<and> st div 100 = 2 \<and> out b = Inr v)
      (\<lambda>e w'. \<exists>xs. sa_log w' = sa_log w @ xs \<and> length xs \<le> 3 \<and> list_all (is_try c m p bd) xs \<and>
         list_all retryable (butlast xs)) w"
  unfolding retried_def wp_bindE
proof (rule wp_mono [OF signapi_client.retried_from_log [OF assms]], goal_cases)
  case (1 b w')
  then obtain xs st where xs: "signapi_client.tries c m p bd retryable maxAttempts (sa_log w) w' xs" "xs \<noteq> []"
    "answered (last xs) = Some (st, b)" "st div 100 = 2" by blast
  then have t: "sa_log w' = sa_log w @ butlast xs @ [last xs]" "length (butlast xs) \<le> 2"
    "list_all (is_try c m p bd) (butlast xs @ [last xs])" "list_all retryable (butlast xs)" "length xs \<le> 3"
    by (auto simp: signapi_client.tries_def [OF assms] maxAttempts_def)
  show ?case
  proof (cases "out b")
    case (Inl e)
    have "sa_log w' = sa_log w @ xs" "list_all (is_try c m p bd) xs" using t xs(2) by simp_all
    with Inl t show ?thesis by (auto simp: wp_rules simp del: split_paired_Ex)
  next
    case (Inr v)
    with t xs show ?thesis by (auto simp: wp_rules simp del: split_paired_Ex append_butlast_last_id)
  qed
next
  case (2 e w')
  then show ?case by (auto simp: signapi_client.tries_def [OF assms] maxAttempts_def)
qed

theorem retried_bounded_witness:
  "wp (retried fixed_client True ''GET'' ''/x'' [] NoBody [] ignore_body)
     (\<lambda>_ w'. length (sent (script_net [Inl (ErrDial ''d''), Inr (json_response 500 JNull), Inr (json_response 200 JNull)]) w') \<le> 3)
     (\<lambda>_ _. False) (script_net [Inl (ErrDial ''d''), Inr (json_response 500 JNull), Inr (json_response 200 JNull)])"
proof -
  let ?w = "script_net [Inl (ErrDial ''d''), Inr (json_response 500 JNull), Inr (json_response 200 JNull)]"
  have ok: "wp (retried fixed_client True ''GET'' ''/x'' [] NoBody [] ignore_body) (\<lambda>_ _. True) (\<lambda>_ _. False) ?w"
    by (simp add: wp_def run_defs retried_def maxAttempts_def numeral_3_eq_3 Let_def ignore_body_def script_defs)
  from wp_conj [OF ok retried_bounded [OF fixed.signapi_client_axioms, of True "''GET''" "''/x''" "[]" NoBody "[]" ignore_body ?w]]
  show ?thesis by (rule wp_mono) auto
qed

text \<open>
  C36: A patient call (digest calculation, validation) is asked again only when the provider
  certainly did not take the request: every request it sends but the last met a connection
  that was never made or a 502 or 503 of the proxy. So at most one of its at most three
  requests was taken, and what it returns is the answer to the last one.
\<close>

theorem patient_taken_once:
  assumes "signapi_client c"
  shows "wp (patientCall c m p corr bd ct)
      (\<lambda>r w'. \<exists>xs x. sa_log w' = sa_log w @ xs @ [x] \<and> length xs \<le> 2 \<and> list_all (is_try c m p bd) (xs @ [x]) \<and>
         list_all untaken xs \<and> answered x = Some r)
      (\<lambda>e w'. \<exists>xs. sa_log w' = sa_log w @ xs \<and> length xs \<le> 3 \<and> list_all (is_try c m p bd) xs \<and>
         list_all untaken (butlast xs)) w"
  by (rule signapi_client.patientCall_log [OF assms])

theorem patient_taken_once_witness:
  "wp (patientCall fixed_client ''GET'' ''/x'' [] NoBody [])
     (\<lambda>r w'. fst r = 200 \<and> (\<exists>xs x. sa_log w' = xs @ [x] \<and> list_all untaken xs \<and> answered x = Some r)) (\<lambda>_ _. False)
     (script_net [Inr (json_response 503 JNull), Inr (json_response 200 JNull)])"
proof -
  let ?w = "script_net [Inr (json_response 503 JNull), Inr (json_response 200 JNull)]"
  have ok: "wp (patientCall fixed_client ''GET'' ''/x'' [] NoBody []) (\<lambda>r _. fst r = 200) (\<lambda>_ _. False) ?w"
    by (simp add: wp_def run_defs patientCall_def maxAttempts_def numeral_3_eq_3 notTaken_def script_defs)
  have "sa_log ?w = []" by (simp add: sa_log_def script_net_def)
  with wp_conj [OF ok patient_taken_once [OF fixed.signapi_client_axioms, of "''GET''" "''/x''" "[]" NoBody "[]" ?w]]
  show ?thesis by (auto elim!: wp_mono simp del: split_paired_Ex)
qed

end
