(* ===== verification/Sha256.thy ===== *)
theory Sha256
  imports Prelude
begin

text \<open>
  SHA-256 (FIPS 180-4), which the code calls as \<^verbatim>\<open>sha256.Sum256\<close> for the device
  verification code and for a certificate's fingerprint. It is written out so that both are
  computed here as they are there; what the proofs need is that a sum has 32 bytes.
\<close>

unbundle bit_operations_syntax

type_synonym word32 = "32 word"

definition sha_k :: "word32 list" where
  "sha_k = [
     0x428A2F98, 0x71374491, 0xB5C0FBCF, 0xE9B5DBA5, 0x3956C25B, 0x59F111F1, 0x923F82A4, 0xAB1C5ED5,
     0xD807AA98, 0x12835B01, 0x243185BE, 0x550C7DC3, 0x72BE5D74, 0x80DEB1FE, 0x9BDC06A7, 0xC19BF174,
     0xE49B69C1, 0xEFBE4786, 0x0FC19DC6, 0x240CA1CC, 0x2DE92C6F, 0x4A7484AA, 0x5CB0A9DC, 0x76F988DA,
     0x983E5152, 0xA831C66D, 0xB00327C8, 0xBF597FC7, 0xC6E00BF3, 0xD5A79147, 0x06CA6351, 0x14292967,
     0x27B70A85, 0x2E1B2138, 0x4D2C6DFC, 0x53380D13, 0x650A7354, 0x766A0ABB, 0x81C2C92E, 0x92722C85,
     0xA2BFE8A1, 0xA81A664B, 0xC24B8B70, 0xC76C51A3, 0xD192E819, 0xD6990624, 0xF40E3585, 0x106AA070,
     0x19A4C116, 0x1E376C08, 0x2748774C, 0x34B0BCB5, 0x391C0CB3, 0x4ED8AA4A, 0x5B9CCA4F, 0x682E6FF3,
     0x748F82EE, 0x78A5636F, 0x84C87814, 0x8CC70208, 0x90BEFFFA, 0xA4506CEB, 0xBEF9A3F7, 0xC67178F2]"

definition sha_init :: "word32 list" where
  "sha_init = [0x6A09E667, 0xBB67AE85, 0x3C6EF372, 0xA54FF53A, 0x510E527F, 0x9B05688C, 0x1F83D9AB, 0x5BE0CD19]"

text \<open>Big-endian words, padding, and the split into blocks of 64 bytes.\<close>

definition word_bytes :: "word32 \<Rightarrow> bytes" where
  "word_bytes w = map (\<lambda>i. ucast (drop_bit (8 * (3 - i)) w)) [0, 1, 2, 3]"

fun bytes_words :: "bytes \<Rightarrow> word32 list" where
  "bytes_words (a # b # c # d # bs) = 
     (push_bit 24 (ucast a) OR push_bit 16 (ucast b) OR push_bit 8 (ucast c) OR ucast d) # bytes_words bs"
| "bytes_words _ = []"

definition length_bytes :: "nat \<Rightarrow> bytes" where
  "length_bytes n = map (\<lambda>i. ucast (drop_bit (8 * (7 - i)) (of_nat n :: 64 word))) [0, 1, 2, 3, 4, 5, 6, 7]"

definition sha_pad :: "bytes \<Rightarrow> bytes" where
  "sha_pad m = m @ [0x80] @ replicate ((119 - length m mod 64) mod 64) 0 @ length_bytes (8 * length m)"

text \<open>The message schedule, newest word first, and one round.\<close>

definition sha_extend :: "word32 list \<Rightarrow> word32 list" where
  "sha_extend ws =
     (let s0 = word_rotr 7 (ws ! 14) XOR word_rotr 18 (ws ! 14) XOR drop_bit 3 (ws ! 14);
          s1 = word_rotr 17 (ws ! 1) XOR word_rotr 19 (ws ! 1) XOR drop_bit 10 (ws ! 1)
      in (ws ! 15 + s0 + ws ! 6 + s1) # ws)"

definition sha_schedule :: "word32 list \<Rightarrow> word32 list" where
  "sha_schedule block = rev ((sha_extend ^^ 48) (rev block))"

type_synonym sha_state = "word32 \<times> word32 \<times> word32 \<times> word32 \<times> word32 \<times> word32 \<times> word32 \<times> word32"

definition sha_round :: "word32 \<times> word32 \<Rightarrow> sha_state \<Rightarrow> sha_state" where
  "sha_round kw st = (case (kw, st) of ((k, w), (a, b, c, d, e, f, g, h)) \<Rightarrow>
     let s1 = word_rotr 6 e XOR word_rotr 11 e XOR word_rotr 25 e;
         ch = (e AND f) XOR (NOT e AND g);
         t1 = h + s1 + ch + k + w;
         s0 = word_rotr 2 a XOR word_rotr 13 a XOR word_rotr 22 a;
         maj = (a AND b) XOR (a AND c) XOR (b AND c);
         t2 = s0 + maj
     in (t1 + t2, a, b, c, d + t1, e, f, g))"

fun state_list :: "sha_state \<Rightarrow> word32 list" where
  "state_list (a, b, c, d, e, f, g, h) = [a, b, c, d, e, f, g, h]"

fun list_state :: "word32 list \<Rightarrow> sha_state" where
  "list_state [a, b, c, d, e, f, g, h] = (a, b, c, d, e, f, g, h)"
| "list_state _ = (0, 0, 0, 0, 0, 0, 0, 0)"

definition sha_block :: "sha_state \<Rightarrow> word32 list \<Rightarrow> sha_state" where
  "sha_block st block =
     list_state (map2 (+) (state_list st) (state_list (fold sha_round (zip sha_k (sha_schedule block)) st)))"

function sha_blocks :: "sha_state \<Rightarrow> word32 list \<Rightarrow> sha_state" where
  "sha_blocks st ws = (if length ws < 16 then st else sha_blocks (sha_block st (take 16 ws)) (drop 16 ws))"
  by pat_completeness auto
termination
  by (relation "measure (\<lambda>(st, ws). length ws)") auto

declare sha_blocks.simps [simp del]

definition Sum256 :: "bytes \<Rightarrow> bytes" where
  "Sum256 m = concat (map word_bytes (state_list (sha_blocks (list_state sha_init) (bytes_words (sha_pad m)))))"

lemma word_bytes_length [simp]: "length (word_bytes w) = 4"
  by (simp add: word_bytes_def)

lemma Sum256_length [simp]: "length (Sum256 m) = 32"
proof -
  obtain a b c d e f g h where "sha_blocks (list_state sha_init) (bytes_words (sha_pad m)) = (a, b, c, d, e, f, g, h)"
    by (metis surj_pair)
  then show ?thesis by (simp add: Sum256_def)
qed

end
