(* ===== verification/Identities.thy ===== *)
theory Identities
  imports Sha256 Errors
begin

text \<open>
  \<^verbatim>\<open>entrust/identities.go\<close> and \<^verbatim>\<open>entrust/verifcode.go\<close>: which of a person's identities
  signs and which authenticates, and the code the person matches on the device. The lemmas
  say exactly when each selection succeeds and what it picks.
\<close>

section \<open>Identities\<close>

record SignIdentity =
  si_ID :: string
  si_Description :: string
  si_Status :: string
  si_Labels :: "string list"
  si_Access :: "(string \<times> string list) list"

definition labelServerID :: string where "labelServerID = ''serverid''"
definition labelEID :: string where "labelEID = ''eid''"
definition labelMobileID :: string where "labelMobileID = ''mobileid''"
definition labelQSealC :: string where "labelQSealC = ''qsealc''"
definition labelESealC :: string where "labelESealC = ''esealc''"
definition labelContentCommitment :: string where "labelContentCommitment = ''x509:keyUsage:contentCommitment''"
definition labelDigitalSignature :: string where "labelDigitalSignature = ''x509:keyUsage:digitalSignature''"
definition descEIDSign :: string where "descEIDSign = ''eparaksts:eid:sign''"
definition descEIDAuth :: string where "descEIDAuth = ''eparaksts:eid:auth''"
definition descMobileIDAuth :: string where "descMobileIDAuth = ''eparaksts:mobileid:auth''"
definition statusEnabled :: string where "statusEnabled = ''enabled''"

lemmas label_names = labelServerID_def labelEID_def labelMobileID_def labelQSealC_def labelESealC_def
  labelContentCommitment_def labelDigitalSignature_def descEIDSign_def descEIDAuth_def descMobileIDAuth_def
  statusEnabled_def

definition Enabled :: "SignIdentity \<Rightarrow> bool" where
  "Enabled s \<longleftrightarrow> equal_fold (si_Status s) statusEnabled"

definition hasLabel :: "string list \<Rightarrow> string list \<Rightarrow> bool" where
  "hasLabel labels want \<longleftrightarrow> (let S = set (map to_lower labels) in list_all (\<lambda>w. to_lower w \<in> S) want)"

definition hasAccess :: "SignIdentity \<Rightarrow> string \<Rightarrow> bool" where
  "hasAccess s access \<longleftrightarrow>
     si_Access s = [] \<or> list_ex (\<lambda>(user, perms). list_ex (\<lambda>p. equal_fold p access) perms) (si_Access s)"

section \<open>Selection\<close>

fun first_or :: "err \<Rightarrow> SignIdentity option \<Rightarrow> err + SignIdentity" where
  "first_or e None = Inl e"
| "first_or e (Some s) = Inr s"

definition SelectMobileSigning :: "SignIdentity list \<Rightarrow> err + SignIdentity" where
  "SelectMobileSigning ids =
     first_or (ErrIdentityNotFound ''mobile:serverid:sign'')
       (find (\<lambda>s. hasLabel (si_Labels s) [labelServerID, labelContentCommitment] \<and> Enabled s \<and> hasAccess s ''sign'') ids)"

definition SelectEIDScanSigning :: "SignIdentity list \<Rightarrow> err + SignIdentity" where
  "SelectEIDScanSigning ids =
     first_or (ErrIdentityNotFound ''eidScan:eid:sign'')
       (find (\<lambda>s. equal_fold (si_Description s) descEIDSign \<or>
                hasLabel (si_Labels s) [labelEID, labelContentCommitment] \<and> Enabled s) ids)"

definition cnLabel :: "string list \<Rightarrow> string" where
  "cnLabel labels = (case find (\<lambda>l. has_prefix (to_upper l) ''CN:'') labels of
     Some l \<Rightarrow> l | None \<Rightarrow> join '','' labels)"

definition is_seal :: "SignIdentity \<Rightarrow> bool" where
  "is_seal s \<longleftrightarrow> (hasLabel (si_Labels s) [labelQSealC] \<or> hasLabel (si_Labels s) [labelESealC]) \<and> Enabled s"

definition SelectSealSigning :: "SignIdentity list \<Rightarrow> string \<Rightarrow> err + SignIdentity" where
  "SelectSealSigning ids sealID =
     (let seals = filter is_seal ids in
      if length seals = 0 then Inl (ErrIdentityNotFound ''cloudEseal:qsealc'')
      else if sealID \<noteq> [] then
        first_or (ErrIdentityNotFound (''cloudEseal:qsealc:'' @ sealID)) (find (\<lambda>s. si_ID s = sealID) seals)
      else if length seals = 1 then Inr (seals ! 0)
      else Inl (ErrSealAmbiguous (map (\<lambda>s. SealCandidate (si_ID s) (cnLabel (si_Labels s))) seals)))"

definition SelectAuthIdentity :: "SignIdentity list \<Rightarrow> bool \<Rightarrow> err + SignIdentity" where
  "SelectAuthIdentity ids eidScan =
     (let primaryDesc = (if eidScan then descEIDAuth else descMobileIDAuth);
          primaryLabel = (if eidScan then labelEID else labelMobileID) in
      case find (\<lambda>s. equal_fold (si_Description s) primaryDesc \<or>
                   hasLabel (si_Labels s) [primaryLabel, labelDigitalSignature]) ids of
        Some s \<Rightarrow> Inr s
      | None \<Rightarrow> first_or (ErrIdentityNotFound ''auth'')
          (find (\<lambda>s. equal_fold (si_Description s) descMobileIDAuth \<or> equal_fold (si_Description s) descEIDAuth \<or>
                   hasLabel (si_Labels s) [labelDigitalSignature]) ids))"

section \<open>The verification code\<close>

text \<open>\<open>pad4\<close> is the format \<^verbatim>\<open>%04d\<close>.\<close>

definition pad4 :: "nat \<Rightarrow> string" where
  "pad4 n = replicate (4 - length (show_nat n)) (CHR ''0'') @ show_nat n"

definition VerificationCode :: "string \<Rightarrow> err + string" where
  "VerificationCode digestValueB64 =
     (case b64_decode digestValueB64 of
        None \<Rightarrow> Inl (ErrPre ''entrust: verification code: invalid digest base64: '' bad_base64)
      | Some raw \<Rightarrow>
          (let sum = Sum256 raw; last2 = be_nat (drop (length sum - 2) sum) in Inr (pad4 (last2 mod 10000))))"

section \<open>Library\<close>

lemma first_or_Inr [simp]: "first_or e x = Inr s \<longleftrightarrow> x = Some s"
  by (cases x) auto

lemma first_or_Inl [simp]: "first_or e x = Inl e' \<longleftrightarrow> x = None \<and> e' = e"
  by (cases x) auto

text \<open>The number a text of decimal digits stands for.\<close>

definition digits_value :: "string \<Rightarrow> nat" where
  "digits_value s = foldl (\<lambda>n c. n * 10 + (of_char c - 48)) 0 s"

lemma digits_value_snoc: "digits_value (s @ [c]) = digits_value s * 10 + (of_char c - 48)"
  by (simp add: digits_value_def)

lemma digit_char_value [simp]: "d < 10 \<Longrightarrow> of_char (digit_char d) - 48 = d"
  by (simp add: digit_char_def)

lemma digits_value_show [simp]: "digits_value (show_nat n) = n"
proof (induction n rule: show_nat.induct)
  case (1 n)
  show ?case
  proof (cases "n < 10")
    case True
    then show ?thesis by (simp add: show_nat_small digits_value_def)
  next
    case False
    with 1 show ?thesis by (simp add: show_nat_step digits_value_snoc)
  qed
qed

lemma digits_value_zeros [simp]: "digits_value (replicate k (CHR ''0'') @ s) = digits_value s"
proof -
  have "foldl (\<lambda>n c. n * 10 + (of_char c - 48)) (0 :: nat) (replicate k (CHR ''0'')) = 0"
    by (induction k) auto
  then show ?thesis by (simp add: digits_value_def)
qed

lemma pad4_length: "n < 10000 \<Longrightarrow> length (pad4 n) = 4"
  using show_nat_length [of n 3] by (simp add: pad4_def)

lemma pad4_digits: "list_all is_digit (pad4 n)"
  using show_nat_digits [of n] by (auto simp: pad4_def list_all_iff is_digit_def)

lemma pad4_value: "digits_value (pad4 n) = n"
  by (simp add: pad4_def)

section \<open>Properties\<close>

text \<open>
  For every digest that is base64, the verification code is four decimal digits whose
  value is the last two bytes of the digest's SHA-256, read big-endian, modulo 10000; any
  other text is refused.
\<close>

theorem verification_code_digits:
  "case VerificationCode d of
     Inr code \<Rightarrow> length code = 4 \<and> list_all is_digit code \<and>
       (\<exists>raw. b64_decode d = Some raw \<and>
          digits_value code = (unat (Sum256 raw ! 30) * 256 + unat (Sum256 raw ! 31)) mod 10000)
   | Inl e \<Rightarrow> b64_decode d = None"
proof (cases "b64_decode d")
  case (Some raw)
  have "drop 30 (Sum256 raw) = [Sum256 raw ! 30, Sum256 raw ! 31]"
    by (simp add: list_eq_iff_nth_eq less_Suc_eq numeral_2_eq_2)
  then have "be_nat (drop 30 (Sum256 raw)) = unat (Sum256 raw ! 30) * 256 + unat (Sum256 raw ! 31)"
    by (simp add: be_nat_def)
  then show ?thesis
    using Some by (simp add: VerificationCode_def Let_def pad4_length pad4_digits pad4_value)
qed (simp add: VerificationCode_def)

text \<open>
  The seal that signs is never guessed. \<open>SelectSealSigning\<close> returns an enabled seal
  identity of the person: the one named when a seal id was given, the only one otherwise.
  With several and none named it returns every candidate, in the order of the list, for the
  person to pick; it reports nothing found only when no enabled seal matches.
\<close>

theorem seal_selection_exact:
  "case SelectSealSigning ids sealID of
     Inr s \<Rightarrow> s \<in> set ids \<and> is_seal s \<and> (if sealID = [] then filter is_seal ids = [s] else si_ID s = sealID)
   | Inl e \<Rightarrow>
       (\<exists>p. e = ErrIdentityNotFound p \<and> \<not> (\<exists>s. s \<in> set ids \<and> is_seal s \<and> (sealID = [] \<or> si_ID s = sealID))) \<or>
       (\<exists>cs. e = ErrSealAmbiguous cs \<and> sealID = [] \<and> 2 \<le> length cs \<and> map sc_id cs = map si_ID (filter is_seal ids))"
proof -
  define seals where "seals = filter is_seal ids"
  have mem: "s \<in> set seals \<longleftrightarrow> s \<in> set ids \<and> is_seal s" for s by (auto simp: seals_def)
  consider "seals = []" | "seals \<noteq> []" "sealID \<noteq> []" | s where "seals = [s]" "sealID = []"
    | "2 \<le> length seals" "sealID = []"
    by (cases seals; cases "tl seals"; cases "sealID = []") auto
  then show ?thesis
  proof cases
    case 2
    then show ?thesis
      using mem by (auto simp: SelectSealSigning_def Let_def seals_def [symmetric] find_None_iff
          split: sum.splits dest!: find_Some_in_set)
  next
    case 4
    then have "seals \<noteq> []" "length seals \<noteq> Suc 0" by auto
    with 4 show ?thesis
      by (simp add: SelectSealSigning_def Let_def seals_def [symmetric] comp_def)
  qed (use mem in \<open>auto simp: SelectSealSigning_def Let_def seals_def [symmetric]\<close>)
qed

text \<open>
  What \<open>SelectMobileSigning\<close> picks can sign: it is the first of the person's identities
  that is a server identity for content commitment, enabled, and grants signing (or says
  nothing of grants); it fails exactly when there is none. \<open>SelectAuthIdentity\<close> prefers the
  identity of the flow's own method and falls back to another authentication identity only
  when that method has none.
\<close>

theorem mobile_and_auth_selection:
  "(case SelectMobileSigning ids of
      Inr s \<Rightarrow> s \<in> set ids \<and> hasLabel (si_Labels s) [labelServerID, labelContentCommitment] \<and> Enabled s \<and>
        (si_Access s = [] \<or> (\<exists>(u, ps) \<in> set (si_Access s). \<exists>p \<in> set ps. equal_fold p ''sign''))
    | Inl e \<Rightarrow> \<not> (\<exists>s \<in> set ids. hasLabel (si_Labels s) [labelServerID, labelContentCommitment] \<and> Enabled s \<and> hasAccess s ''sign'')) \<and>
   (\<forall>s. SelectAuthIdentity ids True = Inr s \<and>
        (\<exists>t \<in> set ids. equal_fold (si_Description t) descEIDAuth \<or> hasLabel (si_Labels t) [labelEID, labelDigitalSignature])
      \<longrightarrow> equal_fold (si_Description s) descEIDAuth \<or> hasLabel (si_Labels s) [labelEID, labelDigitalSignature])"
proof (intro conjI allI impI)
  show "case SelectMobileSigning ids of
      Inr s \<Rightarrow> s \<in> set ids \<and> hasLabel (si_Labels s) [labelServerID, labelContentCommitment] \<and> Enabled s \<and>
        (si_Access s = [] \<or> (\<exists>(u, ps) \<in> set (si_Access s). \<exists>p \<in> set ps. equal_fold p ''sign''))
    | Inl e \<Rightarrow> \<not> (\<exists>s \<in> set ids. hasLabel (si_Labels s) [labelServerID, labelContentCommitment] \<and> Enabled s \<and> hasAccess s ''sign'')"
    by (auto simp: SelectMobileSigning_def find_None_iff hasAccess_def list_ex_iff split: sum.splits dest!: find_Some_in_set)
next
  fix s
  assume "SelectAuthIdentity ids True = Inr s \<and>
        (\<exists>t \<in> set ids. equal_fold (si_Description t) descEIDAuth \<or> hasLabel (si_Labels t) [labelEID, labelDigitalSignature])"
  then show "equal_fold (si_Description s) descEIDAuth \<or> hasLabel (si_Labels s) [labelEID, labelDigitalSignature]"
    by (auto simp: SelectAuthIdentity_def Let_def find_None_iff split: option.splits dest!: find_Some_in_set)
qed

theorem mobile_and_auth_selection_witness:
  "let a = \<lparr>si_ID = ''1'', si_Description = ''eparaksts:mobileid:auth'', si_Status = ''enabled'', si_Labels = [], si_Access = []\<rparr>;
       b = \<lparr>si_ID = ''2'', si_Description = ''eParaksts:eid:auth'', si_Status = ''enabled'', si_Labels = [], si_Access = []\<rparr> in
   SelectAuthIdentity [a, b] True = Inr b \<and> equal_fold (si_Description b) descEIDAuth"
proof -
  let ?a = "\<lparr>si_ID = ''1'', si_Description = ''eparaksts:mobileid:auth'', si_Status = ''enabled'', si_Labels = [], si_Access = []\<rparr>"
  let ?b = "\<lparr>si_ID = ''2'', si_Description = ''eParaksts:eid:auth'', si_Status = ''enabled'', si_Labels = [], si_Access = []\<rparr>"
  have sel: "SelectAuthIdentity [?a, ?b] True = Inr ?b" by code_simp
  moreover have "equal_fold (si_Description ?b) descEIDAuth" by code_simp
  moreover have "\<not> hasLabel (si_Labels ?b) [labelEID, labelDigitalSignature]" by code_simp
  ultimately show ?thesis
    using mobile_and_auth_selection [of "[?a, ?b]"] by (auto simp: Let_def)
qed

end
