(* ===== verification/Json_Text.thy ===== *)
theory Json_Text
  imports Job_Json
begin

text \<open>
  The text of JSON values, as \<^verbatim>\<open>encoding/json\<close> writes and reads it: what the store puts into
  Redis for a job (\<open>job/store.go\<close>), what the clients send and what the routes answer.
  Texts are bytes. A string is written with HTML-safe escapes, a byte that is not part of
  valid UTF-8 becomes U+FFFD, and so does one that is read. The reader has fuel, of which
  twice the length of the text is always enough (\<open>fuel_enough\<close>), so a refusal is the
  refusal of a malformed text. Numbers are integers.

  The lemmas show that every value is read back from its text up to such bytes, whatever its
  strings contain: no field of a job or of a request can leak into another.
\<close>

section \<open>UTF-8\<close>

definition byte_in :: "nat \<Rightarrow> nat \<Rightarrow> char \<Rightarrow> bool" where
  "byte_in lo hi c \<longleftrightarrow> lo \<le> (of_char c :: nat) \<and> (of_char c :: nat) \<le> hi"

text \<open>The bytes of the first rune, and the rest; none if the text does not start with a valid one.\<close>

fun rune2 :: "string \<Rightarrow> (string \<times> string) option" where
  "rune2 (a # b # s) = (if byte_in 194 223 a \<and> byte_in 128 191 b then Some ([a, b], s) else None)"
| "rune2 _ = None"

fun rune3 :: "string \<Rightarrow> (string \<times> string) option" where
  "rune3 (a # b # c # s) =
     (if byte_in 224 239 a \<and> byte_in (if byte_in 224 224 a then 160 else 128) (if byte_in 237 237 a then 159 else 191) b \<and>
         byte_in 128 191 c then Some ([a, b, c], s) else None)"
| "rune3 _ = None"

fun rune4 :: "string \<Rightarrow> (string \<times> string) option" where
  "rune4 (a # b # c # d # s) =
     (if byte_in 240 244 a \<and> byte_in (if byte_in 240 240 a then 144 else 128) (if byte_in 244 244 a then 143 else 191) b \<and>
         byte_in 128 191 c \<and> byte_in 128 191 d then Some ([a, b, c, d], s) else None)"
| "rune4 _ = None"

fun first_rune :: "string \<Rightarrow> (string \<times> string) option" where
  "first_rune [] = None"
| "first_rune (c # s) =
     (if byte_in 0 127 c then Some ([c], s)
      else case rune2 (c # s) of Some r \<Rightarrow> Some r | None \<Rightarrow>
           (case rune3 (c # s) of Some r \<Rightarrow> Some r | None \<Rightarrow> rune4 (c # s)))"

definition utf8 :: "nat \<Rightarrow> string" where
  "utf8 n = map char_of
     (if n < 128 then [n]
      else if n < 2048 then [192 + n div 64, 128 + n mod 64]
      else if n < 65536 then [224 + n div 4096, 128 + n div 64 mod 64, 128 + n mod 64]
      else [240 + n div 262144, 128 + n div 4096 mod 64, 128 + n div 64 mod 64, 128 + n mod 64])"

lemma rune_parts:
  "rune2 s = Some (r, t) \<Longrightarrow> s = r @ t \<and> length r = 2"
  "rune3 s = Some (r, t) \<Longrightarrow> s = r @ t \<and> length r = 3"
  "rune4 s = Some (r, t) \<Longrightarrow> s = r @ t \<and> length r = 4"
  by (auto elim!: rune2.elims rune3.elims rune4.elims split: if_splits)

lemma first_rune_parts: "first_rune s = Some (r, t) \<Longrightarrow> s = r @ t \<and> r \<noteq> []"
  by (cases s) (auto split: if_splits option.splits dest: rune_parts)

lemma first_rune_shorter [dest]: "first_rune s = Some (r, t) \<Longrightarrow> length t < length s"
  by (auto dest: first_rune_parts)

text \<open>Whether a rune is there depends on its own bytes only.\<close>

lemma rune2_again: "rune2 s = Some (r, t) \<Longrightarrow> rune2 (r @ u) = Some (r, u)"
  by (auto elim!: rune2.elims split: if_splits)

lemma rune3_again: "rune3 s = Some (r, t) \<Longrightarrow> rune3 (r @ u) = Some (r, u) \<and> rune2 (r @ u) = None"
  by (auto elim!: rune3.elims simp: byte_in_def split: if_splits)

lemma rune4_again: "rune4 s = Some (r, t) \<Longrightarrow> rune4 (r @ u) = Some (r, u) \<and> rune2 (r @ u) = None \<and> rune3 (r @ u) = None"
  by (auto elim!: rune4.elims simp: byte_in_def split: if_splits)

lemma first_rune_cases:
  assumes "first_rune (c # s) = Some (r, t)" "\<not> byte_in 0 127 c"
  obtains "rune2 (c # s) = Some (r, t)" | "rune3 (c # s) = Some (r, t)" | "rune4 (c # s) = Some (r, t)"
  using assms by (auto split: option.splits)

lemma first_rune_again:
  assumes "first_rune s = Some (r, t)"
  shows "first_rune (r @ u) = Some (r, u)"
proof -
  obtain c s' where s: "s = c # s'" using assms by (cases s) auto
  from first_rune_parts [OF assms] obtain r' where r: "r = c # r'" using s by (cases r) auto
  show ?thesis
  proof (cases "byte_in 0 127 c")
    case False
    with assms have "first_rune (c # s') = Some (r, t)" by (simp only: s)
    from this False show ?thesis
    proof (cases rule: first_rune_cases)
      case 1
      with False rune2_again [OF 1, of u] show ?thesis by (simp add: r)
    next
      case 2
      with False rune3_again [OF 2, of u] show ?thesis by (simp add: r)
    next
      case 3
      with False rune4_again [OF 3, of u] show ?thesis by (simp add: r)
    qed
  qed (use assms s r in auto)
qed

section \<open>Strings\<close>

definition uFFFD :: string where "uFFFD = utf8 65533"

definition rune_text :: "string \<Rightarrow> string" where
  "rune_text r =
     (if length r = 1 then json_char (hd r)
      else if r = utf8 8232 then [char_of (92 :: nat)] @ ''u2028''
      else if r = utf8 8233 then [char_of (92 :: nat)] @ ''u2029''
      else r)"

function json_chars :: "string \<Rightarrow> string" where
  "json_chars [] = []"
| "json_chars (c # s) =
     (case first_rune (c # s) of
        None \<Rightarrow> [char_of (92 :: nat)] @ ''ufffd'' @ json_chars s
      | Some (r, t) \<Rightarrow> rune_text r @ json_chars t)"
  by pat_completeness auto
termination by (relation "measure length") (auto simp del: first_rune.simps)

definition json_quote :: "string \<Rightarrow> string" where
  "json_quote s = [char_of (34 :: nat)] @ json_chars s @ [char_of (34 :: nat)]"

text \<open>A text with every byte that is not part of a valid rune replaced.\<close>

function to_valid :: "string \<Rightarrow> string" where
  "to_valid [] = []"
| "to_valid (c # s) =
     (case first_rune (c # s) of None \<Rightarrow> uFFFD @ to_valid s | Some (r, t) \<Rightarrow> r @ to_valid t)"
  by pat_completeness auto
termination by (relation "measure length") (auto simp del: first_rune.simps)

function valid_utf8 :: "string \<Rightarrow> bool" where
  "valid_utf8 [] = True"
| "valid_utf8 (c # s) = (case first_rune (c # s) of None \<Rightarrow> False | Some (r, t) \<Rightarrow> valid_utf8 t)"
  by pat_completeness auto
termination by (relation "measure length") (auto simp del: first_rune.simps)

declare first_rune.simps(2) [simp del]

lemma to_valid_id: "valid_utf8 s \<Longrightarrow> to_valid s = s"
proof (induction s rule: valid_utf8.induct)
  case (2 c s)
  then show ?case using first_rune_parts [of "c # s"] by (auto split: option.splits)
qed simp

section \<open>Writing\<close>

definition show_int :: "int \<Rightarrow> string" where
  "show_int i = (if i < 0 then ''-'' @ show_nat (nat (- i)) else show_nat (nat i))"

fun json_text :: "json \<Rightarrow> string" where
  "json_text JNull = ''null''"
| "json_text (JBool b) = (if b then ''true'' else ''false'')"
| "json_text (JNum n) = show_int n"
| "json_text (JStr s) = json_quote s"
| "json_text (JTime t) = json_quote (rfc3339_nano t)"
| "json_text (JArr vs) = ''['' @ join '','' (map json_text vs) @ '']''"
| "json_text (JObj fs) = ''{'' @ join '','' (map (\<lambda>(k, v). json_quote k @ '':'' @ json_text v) fs) @ ''}''"

section \<open>Reading\<close>

text \<open>Four hexadecimal digits.\<close>

definition hex_digit :: "char \<Rightarrow> nat option" where
  "hex_digit c =
     (if byte_in 48 57 c then Some (of_char c - 48)
      else if byte_in 97 102 c then Some (of_char c - 87)
      else if byte_in 65 70 c then Some (of_char c - 55) else None)"

fun hex4 :: "string \<Rightarrow> (nat \<times> string) option" where
  "hex4 (a # b # c # d # s) =
     (case (hex_digit a, hex_digit b, hex_digit c, hex_digit d) of
        (Some a, Some b, Some c, Some d) \<Rightarrow> Some (((a * 16 + b) * 16 + c) * 16 + d, s)
      | _ \<Rightarrow> None)"
| "hex4 _ = None"

text \<open>A code unit read from \<^verbatim>\<open>\\uXXXX\<close>, joined with the other half of a surrogate pair.\<close>

fun low_half :: "string \<Rightarrow> (nat \<times> string) option" where
  "low_half (a # b # s) =
     (if a = char_of (92 :: nat) \<and> b = CHR ''u'' then
        (case hex4 s of Some (m, t) \<Rightarrow> if 56320 \<le> m \<and> m \<le> 57343 then Some (m, t) else None | None \<Rightarrow> None)
      else None)"
| "low_half _ = None"

definition code_point :: "nat \<Rightarrow> string \<Rightarrow> nat \<times> string" where
  "code_point n s =
     (if 55296 \<le> n \<and> n \<le> 56319 then
        (case low_half s of Some (m, t) \<Rightarrow> (65536 + (n - 55296) * 1024 + (m - 56320), t) | None \<Rightarrow> (65533, s))
      else if 56320 \<le> n \<and> n \<le> 57343 then (65533, s) else (n, s))"

definition unescaped :: "char \<Rightarrow> char option" where
  "unescaped c =
     (if c \<in> {char_of (34 :: nat), char_of (92 :: nat), CHR ''/''} then Some c
      else if c = CHR ''n'' then Some (char_of (10 :: nat))
      else if c = CHR ''r'' then Some (char_of (13 :: nat))
      else if c = CHR ''t'' then Some (char_of (9 :: nat))
      else if c = CHR ''b'' then Some (char_of (8 :: nat))
      else if c = CHR ''f'' then Some (char_of (12 :: nat)) else None)"

text \<open>One character of a string literal, decoded, and the rest.\<close>

fun escape_char :: "string \<Rightarrow> (string \<times> string) option" where
  "escape_char [] = None"
| "escape_char (e # s) =
     (if e = CHR ''u'' then
        (case hex4 s of None \<Rightarrow> None | Some (n, t) \<Rightarrow> (case code_point n t of (p, u) \<Rightarrow> Some (utf8 p, u)))
      else (case unescaped e of None \<Rightarrow> None | Some c \<Rightarrow> Some ([c], s)))"

fun read_char :: "string \<Rightarrow> (string \<times> string) option" where
  "read_char [] = None"
| "read_char (c # s) =
     (if c = char_of (92 :: nat) then escape_char s
      else if byte_in 0 31 c then None
      else (case first_rune (c # s) of None \<Rightarrow> Some (uFFFD, s) | Some (r, t) \<Rightarrow> Some (r, t)))"

lemma hex4_shorter [dest]: "hex4 s = Some (n, t) \<Longrightarrow> length t < length s"
  by (auto elim!: hex4.elims split: option.splits)

lemma low_half_shorter [dest]: "low_half s = Some (n, t) \<Longrightarrow> length t < length s"
  by (auto elim!: low_half.elims split: option.splits if_splits dest!: hex4_shorter)

lemma code_point_shorter: "code_point n s = (p, t) \<Longrightarrow> length t \<le> length s"
  by (auto simp: code_point_def split: option.splits if_splits dest!: low_half_shorter)

lemma escape_char_shorter: "escape_char s = Some (r, t) \<Longrightarrow> length t < length s"
  by (cases s) (auto split: option.splits if_splits prod.splits dest!: hex4_shorter code_point_shorter)

lemma read_char_shorter [dest]: "read_char s = Some (r, t) \<Longrightarrow> length t < length s"
  by (cases s) (auto split: option.splits if_splits dest!: escape_char_shorter dest: first_rune_shorter)

text \<open>The contents of a string after its opening quote, up to the closing one.\<close>

function read_chars :: "string \<Rightarrow> (string \<times> string) option" where
  "read_chars [] = None"
| "read_chars (c # s) =
     (if c = char_of (34 :: nat) then Some ([], s)
      else (case read_char (c # s) of None \<Rightarrow> None
            | Some (r, t) \<Rightarrow> (case read_chars t of None \<Rightarrow> None | Some (x, u) \<Rightarrow> Some (r @ x, u))))"
  by pat_completeness auto
termination by (relation "measure length") (auto simp del: read_char.simps)

declare read_char.simps(2) [simp del]

text \<open>The integers: no leading zero, no plus sign.\<close>

definition digits_value :: "string \<Rightarrow> int" where
  "digits_value ds = foldl (\<lambda>n d. 10 * n + digit_of d) 0 ds"

fun read_nat :: "string \<Rightarrow> (int \<times> string) option" where
  "read_nat [] = None"
| "read_nat (c # s) =
     (if c = CHR ''0'' then Some (0, s)
      else if is_digit c then Some (digits_value (c # takeWhile is_digit s), dropWhile is_digit s) else None)"

fun not_fraction :: "string \<Rightarrow> bool" where
  "not_fraction [] = True"
| "not_fraction (c # s) = (c \<noteq> CHR ''.'' \<and> c \<noteq> CHR ''e'' \<and> c \<noteq> CHR ''E'' \<and> \<not> is_digit c)"

definition read_int :: "string \<Rightarrow> (json \<times> string) option" where
  "read_int s =
     (case (case s of c # t \<Rightarrow> if c = CHR ''-'' then map_option (\<lambda>(n, u). (- n, u)) (read_nat t) else read_nat s | [] \<Rightarrow> None) of
        Some (n, t) \<Rightarrow> if not_fraction t then Some (JNum n, t) else None
      | None \<Rightarrow> None)"

definition blank :: "char \<Rightarrow> bool" where
  "blank c \<longleftrightarrow> c \<in> {char_of (32 :: nat), char_of (9 :: nat), char_of (10 :: nat), char_of (13 :: nat)}"

definition skip :: "string \<Rightarrow> string" where
  "skip s = dropWhile blank s"

definition word_off :: "string \<Rightarrow> json \<Rightarrow> string \<Rightarrow> (json \<times> string) option" where
  "word_off w v s = (if prefix w s then Some (v, drop (length w) s) else None)"

text \<open>
  A value, the elements of an array and the members of an object. Between the parts of an
  array or an object comes a comma or the closing bracket: \<open>next_part\<close> tells which.
\<close>

fun next_part :: "char \<Rightarrow> string \<Rightarrow> (bool \<times> string) option" where
  "next_part close [] = None"
| "next_part close (c # s) =
     (if c = CHR '','' then Some (True, s) else if c = close then Some (False, s) else None)"

definition read_key :: "string \<Rightarrow> (string \<times> string) option" where
  "read_key s =
     Option.bind (lit (char_of (34 :: nat)) (skip s)) (\<lambda>s. Option.bind (read_chars s) (\<lambda>(k, s).
     Option.bind (lit CHR '':'' (skip s)) (\<lambda>s. Some (k, s))))"

definition scalar :: "string \<Rightarrow> (json \<times> string) option" where
  "scalar s =
     (case s of [] \<Rightarrow> None
      | c # t \<Rightarrow>
          if c = char_of (34 :: nat) then map_option (\<lambda>(x, u). (JStr x, u)) (read_chars t)
          else if c = CHR ''t'' then word_off ''true'' (JBool True) s
          else if c = CHR ''f'' then word_off ''false'' (JBool False) s
          else if c = CHR ''n'' then word_off ''null'' JNull s
          else read_int s)"

fun read_value :: "nat \<Rightarrow> string \<Rightarrow> (json \<times> string) option"
  and read_elems :: "nat \<Rightarrow> string \<Rightarrow> (json list \<times> string) option"
  and read_members :: "nat \<Rightarrow> string \<Rightarrow> ((string \<times> json) list \<times> string) option"
where
  "read_value 0 s = None"
| "read_value (Suc n) s =
     (case lit CHR ''['' (skip s) of
        Some t \<Rightarrow> (case lit CHR '']'' (skip t) of Some u \<Rightarrow> Some (JArr [], u)
                   | None \<Rightarrow> map_option (\<lambda>(vs, u). (JArr vs, u)) (read_elems n t))
      | None \<Rightarrow> (case lit CHR ''{'' (skip s) of
          Some t \<Rightarrow> (case lit CHR ''}'' (skip t) of Some u \<Rightarrow> Some (JObj [], u)
                     | None \<Rightarrow> map_option (\<lambda>(fs, u). (JObj fs, u)) (read_members n t))
        | None \<Rightarrow> scalar (skip s)))"
| "read_elems 0 s = None"
| "read_elems (Suc n) s =
     (case read_value n s of None \<Rightarrow> None
      | Some (v, t) \<Rightarrow> (case next_part CHR '']'' (skip t) of None \<Rightarrow> None
          | Some (again, u) \<Rightarrow> if again then map_option (\<lambda>(vs, w). (v # vs, w)) (read_elems n u) else Some ([v], u)))"
| "read_members 0 s = None"
| "read_members (Suc n) s =
     (case read_key s of None \<Rightarrow> None
      | Some (k, s) \<Rightarrow> (case read_value n s of None \<Rightarrow> None
          | Some (v, t) \<Rightarrow> (case next_part CHR ''}'' (skip t) of None \<Rightarrow> None
              | Some (again, u) \<Rightarrow>
                  if again then map_option (\<lambda>(fs, w). ((k, v) # fs, w)) (read_members n u) else Some ([(k, v)], u))))"

text \<open>The whole text is one value.\<close>

definition json_parse :: "string \<Rightarrow> json option" where
  "json_parse s =
     (case read_value (2 * length s + 1) s of Some (v, t) \<Rightarrow> if skip t = [] then Some v else None | None \<Rightarrow> None)"

section \<open>Strings are read back\<close>

text \<open>What is written for one byte of ASCII is read as that byte.\<close>

lemma char_consts:
  "char_of (34 :: nat) = CHR 0x22" "char_of (92 :: nat) = CHR 0x5C" "char_of (10 :: nat) = CHR 0x0A"
  "char_of (13 :: nat) = CHR 0x0D" "char_of (9 :: nat) = CHR 0x09" "char_of (8 :: nat) = CHR 0x08"
  "char_of (12 :: nat) = CHR 0x0C" "char_of (32 :: nat) = CHR '' ''" "char_of (48 :: nat) = CHR ''0''"
  by (simp_all add: char_of_def bit_0)

lemma hex_digit_lower: "n < 16 \<Longrightarrow> hex_digit (hex_lower n) = Some n"
  by (simp add: hex_digit_def hex_lower_def byte_in_def)

lemma hex4_byte: "n < 256 \<Longrightarrow> hex4 (CHR ''0'' # CHR ''0'' # hex_lower (n div 16) # hex_lower (n mod 16) # s) = Some (n, s)"
  using hex_digit_lower [of "n div 16"] hex_digit_lower [of "n mod 16"] hex_digit_lower [of 0]
  by (simp add: hex_digit_def byte_in_def)

lemma utf8_ascii: "n < 128 \<Longrightarrow> utf8 n = [char_of n]"
  by (simp add: utf8_def)

lemma code_point_ascii: "n < 128 \<Longrightarrow> code_point n s = (n, s)"
  by (simp add: code_point_def)

lemma read_char_ascii:
  assumes "byte_in 0 127 c"
  shows "read_char (json_char c @ s) = Some ([c], s)"
proof -
  define n where "n = (of_char c :: nat)"
  have n: "n < 128" "char_of n = c" using assms by (auto simp: n_def byte_in_def)
  consider "n = 34" | "n = 92" | "n = 10" | "n = 13" | "n = 9" | "n = 8" | "n = 12"
    | "n \<noteq> 34" "n \<noteq> 92" "n \<noteq> 10" "n \<noteq> 13" "n \<noteq> 9" "n \<noteq> 8" "n \<noteq> 12" "n < 32 \<or> n \<in> {60, 62, 38}"
    | "n \<noteq> 34" "n \<noteq> 92" "\<not> (n < 32 \<or> n \<in> {60, 62, 38})" by (auto simp: le_less)
  then show ?thesis
  proof cases
    case 8
    then have "json_char c = [char_of (92 :: nat), CHR ''u'', CHR ''0'', CHR ''0'', hex_lower (n div 16), hex_lower (n mod 16)]"
      by (auto simp: json_char_def Let_def simp flip: n_def)
    with n hex4_byte [of n s] show ?thesis by (simp add: read_char.simps code_point_ascii utf8_ascii)
  next
    case 9
    then have j: "json_char c = [c]" and c: "c \<noteq> char_of (92 :: nat)" "\<not> byte_in 0 31 c"
      using n by (auto simp: json_char_def Let_def byte_in_def simp flip: n_def)
    with assms show ?thesis by (simp add: read_char.simps first_rune.simps)
  qed (use n in \<open>auto simp: json_char_def Let_def read_char.simps unescaped_def char_consts simp flip: n_def\<close>)
qed

text \<open>A rune of several bytes.\<close>

lemma multi_byte:
  assumes "first_rune s = Some (r, t)" "length r \<noteq> 1"
  shows "\<exists>c r'. r = c # r' \<and> \<not> byte_in 0 127 c"
proof -
  obtain c s' where s: "s = c # s'" using assms by (cases s) auto
  from first_rune_parts [OF assms(1)] obtain r' where "r = c # r'" using s by (cases r) auto
  with assms s show ?thesis by (auto simp: first_rune.simps split: if_splits)
qed

lemma read_char_unicode:
  "read_char ([char_of (92 :: nat)] @ ''ufffd'' @ u) = Some (uFFFD, u)"
  "read_char ([char_of (92 :: nat)] @ ''u2028'' @ u) = Some (utf8 8232, u)"
  "read_char ([char_of (92 :: nat)] @ ''u2029'' @ u) = Some (utf8 8233, u)"
  by (simp_all add: read_char.simps hex_digit_def byte_in_def code_point_def uFFFD_def)

lemma read_char_rune:
  assumes "first_rune s = Some (r, t)"
  shows "read_char (rune_text r @ u) = Some (r, u)"
proof (cases "length r = 1")
  case True
  then obtain c where r: "r = [c]" by (cases r) auto
  from first_rune_parts [OF assms] r have s: "s = c # t" by simp
  have "byte_in 0 127 c"
  proof (rule ccontr)
    assume "\<not> byte_in 0 127 c"
    with assms have "length r = 2 \<or> length r = 3 \<or> length r = 4"
      unfolding s by (cases rule: first_rune_cases) (simp_all add: rune_parts)
    with True show False by simp
  qed
  with r read_char_ascii show ?thesis by (simp add: rune_text_def)
next
  case False
  with multi_byte [OF assms] obtain c r' where r: "r = c # r'" "\<not> byte_in 0 127 c" by auto
  then have c: "c \<noteq> char_of (92 :: nat)" "\<not> byte_in 0 31 c" by (auto simp: byte_in_def)
  have "read_char (r @ u) = Some (r, u)"
    using first_rune_again [OF assms, of u] r c by (simp add: read_char.simps)
  moreover have "rune_text r = (if r = utf8 8232 then [char_of (92 :: nat)] @ ''u2028''
      else if r = utf8 8233 then [char_of (92 :: nat)] @ ''u2029'' else r)"
    using False by (simp only: rune_text_def if_False)
  ultimately show ?thesis
    using read_char_unicode(2,3) [of u] by (simp only: append_assoc split: if_split) blast
qed

lemma rune_text_start:
  assumes "first_rune s = Some (r, t)"
  shows "\<exists>c w. rune_text r = c # w \<and> c \<noteq> char_of (34 :: nat)"
proof (cases "length r = 1")
  case True
  then obtain c where r: "r = [c]" by (cases r) auto
  show ?thesis by (auto simp: rune_text_def r json_char_def Let_def)
next
  case False
  with multi_byte [OF assms] show ?thesis by (auto simp: rune_text_def byte_in_def)
qed

lemma read_chars_json_chars: "read_chars (json_chars s @ char_of (34 :: nat) # u) = Some (to_valid s, u)"
proof (induction s rule: json_chars.induct)
  case (2 c s)
  show ?case
  proof (cases "first_rune (c # s)")
    case None
    then show ?thesis using 2(1) [OF None] read_char_unicode(1) [of "json_chars s @ char_of (34 :: nat) # u"] by simp
  next
    case (Some x)
    obtain r t where x: "x = (r, t)" by (cases x)
    with Some obtain d w where w: "rune_text r = d # w" "d \<noteq> char_of (34 :: nat)" using rune_text_start by blast
    from Some x have "read_char (d # w @ json_chars t @ char_of (34 :: nat) # u) = Some (r, json_chars t @ char_of (34 :: nat) # u)"
      using read_char_rune [of "c # s" r t] w by simp
    with 2(2) [OF Some x [symmetric]] Some x w show ?thesis by simp
  qed
qed simp

section \<open>Fuel\<close>

text \<open>No reader gives back more than it was given.\<close>

lemma lit_shorter: "lit c s = Some t \<Longrightarrow> length t < length s"
  by (cases s) (auto split: if_splits)

lemma skip_shorter: "length (skip s) \<le> length s"
  by (simp add: skip_def length_dropWhile_le)

lemma lit_skip_shorter: "lit c (skip s) = Some t \<Longrightarrow> length t < length s"
  using lit_shorter [of c "skip s" t] skip_shorter [of s] by simp

lemma read_chars_shorter: "read_chars s = Some (x, t) \<Longrightarrow> length t < length s"
proof (induction s arbitrary: x rule: read_chars.induct)
  case (2 c s)
  show ?case
  proof (cases "c = char_of (34 :: nat)")
    case False
    with 2(2) obtain r u y where u: "read_char (c # s) = Some (r, u)" "read_chars u = Some (y, t)"
      by (auto split: option.splits)
    from 2(1) [OF False u(1) refl u(2)] read_char_shorter [OF u(1)] show ?thesis by simp
  qed (use 2 in simp)
qed simp

lemma read_nat_shorter: "read_nat s = Some (n, t) \<Longrightarrow> length t < length s"
  by (cases s) (auto simp: length_dropWhile_le less_Suc_eq_le split: if_splits)

lemma read_int_shorter: "read_int s = Some (v, t) \<Longrightarrow> length t \<le> length s"
  by (auto simp: read_int_def simp del: read_nat.simps split: list.splits option.splits if_splits dest!: read_nat_shorter)

lemma scalar_shorter: "scalar s = Some (v, t) \<Longrightarrow> length t \<le> length s"
  by (auto simp: scalar_def word_off_def split: list.splits if_splits dest!: read_chars_shorter read_int_shorter)

lemma next_part_shorter: "next_part c (skip s) = Some (b, t) \<Longrightarrow> length t < length s"
  using skip_shorter [of s] by (cases "skip s") (auto split: if_splits)

lemma read_key_shorter: "read_key s = Some (k, t) \<Longrightarrow> length t < length s"
  by (auto simp: read_key_def bind_eq_Some_conv dest!: lit_skip_shorter read_chars_shorter)

lemma read_shorter:
  "read_value n s = Some (v, t) \<Longrightarrow> length t \<le> length s"
  "read_elems n s = Some (vs, t) \<Longrightarrow> length t \<le> length s"
  "read_members n s = Some (fs, t) \<Longrightarrow> length t \<le> length s"
proof (induction n s and n s and n s arbitrary: v t and vs t and fs t rule: read_value_read_elems_read_members.induct)
  case (2 n s)
  show ?case
  proof (cases "lit CHR ''['' (skip s)")
    case None
    note nobr = None
    show ?thesis
    proof (cases "lit CHR ''{'' (skip s)")
      case None
      with nobr 2(3) scalar_shorter [of "skip s"] skip_shorter [of s] show ?thesis by fastforce
    next
      case (Some w)
      with nobr 2(3) lit_skip_shorter [OF Some] show ?thesis
        by (auto split: option.splits dest!: lit_skip_shorter [of "CHR ''}''"] 2(1) [OF nobr Some])
    qed
  next
    case (Some w)
    with 2(3) lit_skip_shorter [OF Some] show ?thesis
      by (auto split: option.splits dest!: lit_skip_shorter [of "CHR '']''"] 2(2) [OF Some])
  qed
next
  case (4 n s)
  from 4(3) obtain v w b u where v: "read_value n s = Some (v, w)" and b: "next_part CHR '']'' (skip w) = Some (b, u)"
    by (auto split: option.splits)
  from 4(3) v b 4(1) [OF v] next_part_shorter [OF b] show ?case
    by (auto split: if_splits dest!: 4(2) [OF v refl b refl])
next
  case (6 n s)
  from 6(3) obtain k x v w b u where k: "read_key s = Some (k, x)" and v: "read_value n x = Some (v, w)"
    and b: "next_part CHR ''}'' (skip w) = Some (b, u)"
    by (auto split: option.splits)
  from 6(3) k v b 6(1) [OF k refl v] next_part_shorter [OF b] read_key_shorter [OF k] show ?case
    by (auto split: if_splits dest!: 6(2) [OF k refl v refl b refl])
qed simp_all

lemma fuel_step:
  "(2 * length s + 1 \<le> n \<longrightarrow> read_value (Suc n) s = read_value n s) \<and>
   (2 * length s + 2 \<le> n \<longrightarrow> read_elems (Suc n) s = read_elems n s) \<and>
   (2 * length s + 2 \<le> n \<longrightarrow> read_members (Suc n) s = read_members n s)"
proof (induction n arbitrary: s)
  case (Suc n)
  have V: "read_value (Suc n) u = read_value n u" if "2 * length u + 1 \<le> n" for u using Suc.IH that by blast
  have E: "read_elems (Suc n) u = read_elems n u" if "2 * length u + 2 \<le> n" for u using Suc.IH that by blast
  have M: "read_members (Suc n) u = read_members n u" if "2 * length u + 2 \<le> n" for u using Suc.IH that by blast
  have 1: "read_value (Suc (Suc n)) s = read_value (Suc n) s" if "2 * length s + 1 \<le> Suc n"
  proof -
    have "2 * length t + 2 \<le> n" if "lit c (skip s) = Some t" for c t
      using lit_skip_shorter [OF that] \<open>2 * length s + 1 \<le> Suc n\<close> by linarith
    then show ?thesis
      unfolding read_value.simps(2) [of "Suc n" s] read_value.simps(2) [of n s] by (simp add: E M del: read_value.simps read_elems.simps read_members.simps split: option.split)
  qed
  have 2: "read_elems (Suc (Suc n)) s = read_elems (Suc n) s" if l: "2 * length s + 2 \<le> Suc n"
  proof -
    have "2 * length u + 2 \<le> n" if "read_value n s = Some (v, t)" "next_part c (skip t) = Some (b, u)" for v t c b u
      using read_shorter(1) [OF that(1)] next_part_shorter [OF that(2)] l by linarith
    then show ?thesis
      unfolding read_elems.simps(2) [of "Suc n" s] read_elems.simps(2) [of n s] using l by (simp add: V E del: read_value.simps read_elems.simps read_members.simps split: option.split)
  qed
  have 3: "read_members (Suc (Suc n)) s = read_members (Suc n) s" if l: "2 * length s + 2 \<le> Suc n"
  proof -
    have K: "2 * length x + 1 \<le> n" if "read_key s = Some (k, x)" for k x
      using read_key_shorter [OF that] l by linarith
    have "2 * length u + 2 \<le> n"
      if "read_key s = Some (k, x)" "read_value n x = Some (v, t)" "next_part c (skip t) = Some (b, u)" for k x v t c b u
      using read_key_shorter [OF that(1)] read_shorter(1) [OF that(2)] next_part_shorter [OF that(3)] l by linarith
    then show ?thesis
      unfolding read_members.simps(2) [of "Suc n" s] read_members.simps(2) [of n s] using K by (simp add: V M del: read_value.simps read_elems.simps read_members.simps split: option.split)
  qed
  from 1 2 3 show ?case by blast
qed simp

lemma fuel_enough: "2 * length s + 1 \<le> n \<Longrightarrow> read_value n s = read_value (2 * length s + 1) s"
proof (induction n rule: dec_induct)
  case (step n)
  with fuel_step [of s n] show ?case by simp
qed simp

section \<open>Every value is read back\<close>

text \<open>The value of the text of a value: its times as texts, its strings as valid UTF-8.\<close>

fun clean :: "json \<Rightarrow> json" where
  "clean (JStr s) = JStr (to_valid s)"
| "clean (JTime t) = JStr (to_valid (rfc3339_nano t))"
| "clean (JArr vs) = JArr (map clean vs)"
| "clean (JObj fs) = JObj (map (\<lambda>(k, v). (to_valid k, clean v)) fs)"
| "clean v = v"

fun fuel :: "json \<Rightarrow> nat" where
  "fuel (JArr vs) = Suc (sum_list (map (\<lambda>v. Suc (fuel v)) vs))"
| "fuel (JObj fs) = Suc (sum_list (map (\<lambda>(k, v). Suc (fuel v)) fs))"
| "fuel v = 1"

lemma digits_value_append: "digits_value (ds @ [d]) = 10 * digits_value ds + digit_of d"
  by (simp add: digits_value_def)

lemma digit_of_small: "d < 10 \<Longrightarrow> digit_of (digit_char d) = int d"
  using digit_of_char [of "int d"] by simp

lemma digits_value_show_nat: "digits_value (show_nat n) = int n"
proof (induction n rule: show_nat.induct)
  case (1 n)
  show ?case
  proof (cases "n < 10")
    case True
    then show ?thesis by (simp add: show_nat_small digits_value_def digit_of_small)
  next
    case False
    have "10 * int (n div 10) + int (n mod 10) = int n"
      using mult_div_mod_eq [of 10 n] by (metis of_nat_add of_nat_mult of_nat_numeral)
    with False 1 show ?thesis by (simp add: show_nat_step digits_value_append digit_of_small)
  qed
qed

lemma show_nat_head: "0 < n \<Longrightarrow> hd (show_nat n) \<noteq> CHR ''0''"
proof (induction n rule: show_nat.induct)
  case (1 n)
  show ?case
  proof (cases "n < 10")
    case True
    with 1(2) digit_of_small [of n] show ?thesis by (auto simp: show_nat_small digit_of_def)
  next
    case False
    with 1 show ?thesis by (simp add: show_nat_step)
  qed
qed

lemma digits_span: "list_all is_digit ds \<Longrightarrow> not_fraction u \<Longrightarrow>
    takeWhile is_digit (ds @ u) = ds \<and> dropWhile is_digit (ds @ u) = u"
  by (cases u) (auto simp: list_all_iff takeWhile_append dropWhile_append)

lemma read_nat_show_nat: "not_fraction u \<Longrightarrow> read_nat (show_nat n @ u) = Some (int n, u)"
proof -
  assume u: "not_fraction u"
  obtain c ds where c: "show_nat n = c # ds" by (cases "show_nat n") auto
  have d: "list_all is_digit (c # ds)" using show_nat_digits [of n] by (simp add: c)
  show ?thesis
  proof (cases "n = 0")
    case True
    then show ?thesis by (simp add: show_nat_small digit_char_def char_consts)
  next
    case False
    with show_nat_head [of n] d digits_span [of ds u] u digits_value_show_nat [of n] show ?thesis by (simp add: c)
  qed
qed

lemma read_int_show_int:
  assumes "not_fraction u"
  shows "read_int (show_int i @ u) = Some (JNum i, u)"
proof -
  have "show_nat n \<noteq> CHR ''-'' # w" for n w
    using show_nat_digits [of n] by (auto simp: is_digit_def)
  then have "\<exists>c w. show_nat n @ u = c # w \<and> c \<noteq> CHR ''-''" for n by (cases "show_nat n") auto
  then obtain c w where "show_nat (nat i) @ u = c # w" "c \<noteq> CHR ''-''" by blast
  with assms read_nat_show_nat [OF assms, of "nat i"] read_nat_show_nat [OF assms, of "nat (- i)"] show ?thesis
    by (auto simp: read_int_def show_int_def)
qed

text \<open>How the text of a value starts.\<close>

lemma json_text_start: "\<exists>c w. json_text v = c # w \<and> \<not> blank c \<and> c \<noteq> CHR '']'' \<and> c \<noteq> CHR ''}''"
proof (cases v)
  case (JNum n)
  have "\<exists>c w. show_nat m = c # w \<and> is_digit c" for m
    using show_nat_digits [of m] by (cases "show_nat m") auto
  then obtain c w where "show_nat (nat n) = c # w" "is_digit c" by blast
  then show ?thesis by (auto simp: JNum show_int_def blank_def char_consts is_digit_def)
qed (auto simp: blank_def json_quote_def char_consts)

lemma skip_nonblank: "\<not> blank c \<Longrightarrow> skip (c # s) = c # s"
  by (simp add: skip_def)

lemma skip_json_text [simp]: "skip (json_text v @ u) = json_text v @ u"
  using json_text_start [of v] by (auto simp: skip_nonblank)

lemma lit_json_text: "lit CHR '']'' (json_text v @ u) = None"
  using json_text_start [of v] by auto

lemma scalar_quote: "scalar (json_quote s @ u) = Some (JStr (to_valid s), u)"
  using read_chars_json_chars [of s u] by (simp add: scalar_def json_quote_def)

lemma scalar_int:
  assumes "not_fraction u"
  shows "scalar (show_int i @ u) = Some (JNum i, u)"
proof -
  have "\<exists>c w. show_int i @ u = c # w \<and> (is_digit c \<or> c = CHR ''-'')"
    using show_nat_digits [of "nat i"] by (cases "show_nat (nat i)") (auto simp: show_int_def)
  then obtain c w where c: "show_int i @ u = c # w" "is_digit c \<or> c = CHR ''-''" by blast
  then have "c \<noteq> char_of (34 :: nat)" "c \<noteq> CHR ''t''" "c \<noteq> CHR ''f''" "c \<noteq> CHR ''n''"
    by (auto simp: is_digit_def char_consts)
  with read_int_show_int [OF assms, of i] c(1) show ?thesis by (simp add: scalar_def)
qed

lemma read_key_quote: "read_key (json_quote k @ '':'' @ u) = Some (to_valid k, u)"
proof -
  have "read_chars (json_chars k @ char_of (34 :: nat) # CHR '':'' # u) = Some (to_valid k, CHR '':'' # u)"
    by (rule read_chars_json_chars)
  then show ?thesis by (simp add: read_key_def json_quote_def skip_def blank_def char_consts)
qed

text \<open>The elements of an array and the members of an object, each followed by the bracket.\<close>

definition member_text :: "string \<times> json \<Rightarrow> string" where
  "member_text kv = json_quote (fst kv) @ '':'' @ json_text (snd kv)"

lemma json_text_obj: "json_text (JObj fs) = ''{'' @ join '','' (map member_text fs) @ ''}''"
  by (simp add: member_text_def [abs_def] case_prod_beta')

lemma skip_punct [simp]:
  "skip (CHR '','' # s) = CHR '','' # s" "skip (CHR '']'' # s) = CHR '']'' # s" "skip (CHR ''}'' # s) = CHR ''}'' # s"
  "skip (CHR ''['' # s) = CHR ''['' # s" "skip (CHR ''{'' # s) = CHR ''{'' # s"
  by (simp_all add: skip_def blank_def char_consts)

lemma read_elems_text:
  assumes "\<And>v n u. v \<in> set vs \<Longrightarrow> fuel v \<le> n \<Longrightarrow> not_fraction u \<Longrightarrow> read_value n (json_text v @ u) = Some (clean v, u)"
    and "vs \<noteq> []" "sum_list (map (\<lambda>v. Suc (fuel v)) vs) \<le> n"
  shows "read_elems n (join '','' (map json_text vs) @ CHR '']'' # u) = Some (map clean vs, u)"
  using assms
proof (induction vs arbitrary: n)
  case (Cons v vs)
  from Cons.prems(3) obtain m where n: "n = Suc m" by (cases n) auto
  have val: "read_value m (json_text v @ w) = Some (clean v, w)" if "not_fraction w" for w
    using Cons.prems(1) [of v m w] Cons.prems(3) n that by simp
  show ?case
  proof (cases vs)
    case Nil
    then show ?thesis using val [of "CHR '']'' # u"] by (simp add: n is_digit_def)
  next
    case (Cons v' vs')
    have "read_elems m (join '','' (map json_text vs) @ CHR '']'' # u) = Some (map clean vs, u)"
      using Cons.IH Cons.prems n Cons by auto
    then show ?thesis
      using val [of "CHR '','' # join '','' (map json_text vs) @ CHR '']'' # u"] by (simp add: n Cons is_digit_def)
  qed
qed simp

lemma read_members_text:
  assumes "\<And>k v n u. (k, v) \<in> set fs \<Longrightarrow> fuel v \<le> n \<Longrightarrow> not_fraction u \<Longrightarrow> read_value n (json_text v @ u) = Some (clean v, u)"
    and "fs \<noteq> []" "sum_list (map (\<lambda>(k, v). Suc (fuel v)) fs) \<le> n"
  shows "read_members n (join '','' (map member_text fs) @ CHR ''}'' # u) = Some (map (\<lambda>(k, v). (to_valid k, clean v)) fs, u)"
  using assms
proof (induction fs arbitrary: n)
  case (Cons f fs)
  obtain k v where f: "f = (k, v)" by (cases f)
  from Cons.prems(3) f obtain m where n: "n = Suc m" by (cases n) auto
  have val: "read_value m (json_text v @ w) = Some (clean v, w)" if "not_fraction w" for w
    using Cons.prems(1) [of k v m w] Cons.prems(3) n f that by simp
  have key: "read_key (member_text (k, v) @ w) = Some (to_valid k, json_text v @ w)" for w
    using read_key_quote [of k "json_text v @ w"] by (simp add: member_text_def)
  show ?case
  proof (cases fs)
    case Nil
    then show ?thesis using val [of "CHR ''}'' # u"] key [of "CHR ''}'' # u"] by (simp add: n f is_digit_def)
  next
    case (Cons f' fs')
    have "read_members m (join '','' (map member_text fs) @ CHR ''}'' # u) = Some (map (\<lambda>(k, v). (to_valid k, clean v)) fs, u)"
    proof (rule Cons.IH)
      show "read_value n (json_text v @ u) = Some (clean v, u)" if "(k, v) \<in> set fs" "fuel v \<le> n" "not_fraction u" for k v n u
        using Cons.prems(1) [of k v n u] that by simp
      show "(\<Sum>(k, v)\<leftarrow>fs. Suc (fuel v)) \<le> m" using Cons.prems(3) n f by simp
    qed (simp add: Cons)
    then show ?thesis
      using val [of "CHR '','' # join '','' (map member_text fs) @ CHR ''}'' # u"]
        key [of "CHR '','' # join '','' (map member_text fs) @ CHR ''}'' # u"] by (simp add: n Cons f is_digit_def)
  qed
qed simp

text \<open>How the joined texts start.\<close>

lemma join_elems_start: "vs \<noteq> [] \<Longrightarrow> lit CHR '']'' (skip (join '','' (map json_text vs) @ u)) = None"
  by (cases vs rule: list.exhaust [case_product list.exhaust [of "tl vs"]]) (auto simp: neq_Nil_conv lit_json_text)

lemma join_members_start: "fs \<noteq> [] \<Longrightarrow> lit CHR ''}'' (skip (join '','' (map member_text fs) @ u)) = None"
  by (cases fs rule: list.exhaust [case_product list.exhaust [of "tl fs"]])
    (auto simp: neq_Nil_conv member_text_def json_quote_def skip_def blank_def char_consts)

lemma scalar_value:
  assumes "scalar (c # s) = Some r" "\<not> blank c" "c \<noteq> CHR ''[''" "c \<noteq> CHR ''{''" "0 < n"
  shows "read_value n (c # s) = Some r"
proof -
  obtain m where "n = Suc m" using assms(5) by (cases n) auto
  with assms show ?thesis by (simp add: skip_nonblank)
qed

theorem read_value_text: "fuel v \<le> n \<Longrightarrow> not_fraction u \<Longrightarrow> read_value n (json_text v @ u) = Some (clean v, u)"
proof (induction v arbitrary: n u)
  case (JNum i)
  have "\<exists>c w. show_int i @ u = c # w \<and> (is_digit c \<or> c = CHR ''-'')"
    using show_nat_digits [of "nat i"] by (cases "show_nat (nat i)") (auto simp: show_int_def)
  then obtain c w where c: "show_int i @ u = c # w" "is_digit c \<or> c = CHR ''-''" by blast
  then have "\<not> blank c" "c \<noteq> CHR ''[''" "c \<noteq> CHR ''{''" by (auto simp: blank_def char_consts is_digit_def)
  with scalar_int [OF JNum(2), of i] JNum(1) c show ?case
    using scalar_value [of c w "(JNum i, u)" n] by simp
next
  case (JArr vs)
  then obtain m where n: "n = Suc m" by (cases n) auto
  show ?case
  proof (cases "vs = []")
    case False
    with JArr n read_elems_text [of vs m u] join_elems_start [of vs "CHR '']'' # u"] show ?thesis by simp
  qed (simp add: n)
next
  case (JObj fs)
  then obtain m where n: "n = Suc m" by (cases n) auto
  show ?case
  proof (cases "fs = []")
    case False
    have "read_members m (join '','' (map member_text fs) @ CHR ''}'' # u) = Some (map (\<lambda>(k, v). (to_valid k, clean v)) fs, u)"
      using JObj False n by (intro read_members_text) (auto simp: case_prod_beta)
    with False join_members_start [of fs "CHR ''}'' # u"] show ?thesis
      unfolding json_text_obj by (simp add: n)
  qed (simp add: n)
next
  case (JStr s)
  with scalar_quote [of s u] show ?case
    using scalar_value [of "char_of (34 :: nat)" "json_chars s @ char_of (34 :: nat) # u" "(JStr (to_valid s), u)" n]
    by (simp add: json_quote_def blank_def char_consts)
next
  case (JTime t)
  with scalar_quote [of "rfc3339_nano t" u] show ?case
    using scalar_value [of "char_of (34 :: nat)" "json_chars (rfc3339_nano t) @ char_of (34 :: nat) # u" "(JStr (to_valid (rfc3339_nano t)), u)" n]
    by (simp add: json_quote_def blank_def char_consts)
next
  case (JBool b)
  then obtain m where n: "n = Suc m" by (cases n) auto
  then show ?case by (cases b) (simp_all add: skip_def blank_def char_consts scalar_def word_off_def)
next
  case JNull
  then obtain m where n: "n = Suc m" by (cases n) auto
  then show ?case by (simp add: skip_def blank_def char_consts scalar_def word_off_def)
qed

theorem json_parse_text: "json_parse (json_text v) = Some (clean v)"
proof -
  let ?n = "max (fuel v) (2 * length (json_text v) + 1)"
  have "read_value ?n (json_text v) = Some (clean v, [])"
    using read_value_text [of v ?n "[]"] by simp
  then have "read_value (2 * length (json_text v) + 1) (json_text v) = Some (clean v, [])"
    using fuel_enough [of "json_text v" ?n] by (simp only: max.cobounded2)
  then show ?thesis by (simp only: json_parse_def) (simp add: skip_def)
qed

end
