(* ===== verification/Urls.thy ===== *)
theory Urls
  imports Json_Text "HOL-Library.Char_ord" "HOL-Library.List_Lexorder"
begin

text \<open>
  What the platform client uses of Go's \<^verbatim>\<open>net/url\<close>: the query encoding of
  \<^verbatim>\<open>url.Values\<close> (sorted by key, percent-encoded), \<^verbatim>\<open>url.PathEscape\<close> and the path of a
  URL. The lemmas show that a query is read back
  exactly, so an authorize URL carries its parameters unchanged.
\<close>

section \<open>Percent encoding\<close>

definition unreserved :: "char \<Rightarrow> bool" where
  "unreserved c \<longleftrightarrow> (let n = (of_char c :: nat) in 48 \<le> n \<and> n \<le> 57 \<or> 65 \<le> n \<and> n \<le> 90 \<or> 97 \<le> n \<and> n \<le> 122) \<or>
     c \<in> {CHR ''-'', CHR ''_'', CHR ''.'', CHR ''~''}"

definition hex_upper :: "nat \<Rightarrow> char" where
  "hex_upper n = (if n < 10 then char_of (48 + n) else char_of (55 + n))"

definition percent :: "char \<Rightarrow> string" where
  "percent c = [CHR ''%'', hex_upper (of_char c div 16), hex_upper (of_char c mod 16)]"

definition query_char :: "char \<Rightarrow> string" where
  "query_char c = (if unreserved c then [c] else if c = CHR '' '' then ''+'' else percent c)"

definition QueryEscape :: "string \<Rightarrow> string" where
  "QueryEscape s = concat (map query_char s)"

definition PathEscape :: "string \<Rightarrow> string" where
  "PathEscape s = concat (map (\<lambda>c. if unreserved c \<or> c \<in> set ''$&+:=@'' then [c] else percent c) s)"

section \<open>Queries\<close>

definition query_pair :: "string \<times> string \<Rightarrow> string" where
  "query_pair kv = QueryEscape (fst kv) @ ''='' @ QueryEscape (snd kv)"

definition Encode :: "(string \<times> string) list \<Rightarrow> string" where
  "Encode q = join ''&'' (map query_pair (sort_key fst q))"

text \<open>The path of an absolute URL, for error texts.\<close>

fun after_scheme :: "string \<Rightarrow> string" where
  "after_scheme (a # b # c # s) = (if [a, b, c] = ''://'' then s else after_scheme (b # c # s))"
| "after_scheme s = []"

definition url_path :: "string \<Rightarrow> string" where
  "url_path u = takeWhile (\<lambda>c. c \<noteq> CHR ''?'' \<and> c \<noteq> CHR ''#'') (dropWhile (\<lambda>c. c \<noteq> CHR ''/'') (after_scheme u))"

section \<open>Reading a query back\<close>

definition hex_value :: "char \<Rightarrow> nat" where
  "hex_value c = (let n = of_char c in if n < 65 then n - 48 else n - 55)"

fun unescape :: "string \<Rightarrow> string" where
  "unescape [] = []"
| "unescape (c # s) =
     (if c = CHR ''+'' then CHR '' '' # unescape s
      else if c = CHR ''%'' then (case s of a # b # t \<Rightarrow> char_of (hex_value a * 16 + hex_value b) # unescape t | _ \<Rightarrow> [])
      else c # unescape s)"

definition read_pair :: "string \<Rightarrow> string \<times> string" where
  "read_pair s = (unescape (takeWhile (\<lambda>c. c \<noteq> CHR ''='') s), unescape (tl (dropWhile (\<lambda>c. c \<noteq> CHR ''='') s)))"

definition read_query :: "string \<Rightarrow> (string \<times> string) list" where
  "read_query s = (if s = [] then [] else map read_pair (split_on (CHR ''&'') s))"

lemma hex_value_upper [simp]: "n < 16 \<Longrightarrow> hex_value (hex_upper n) = n"
  by (simp add: hex_value_def hex_upper_def Let_def)

lemma of_char_less [simp]: "(of_char c :: nat) < 256"
  by (metis char_of_mod_256 of_char_of mod_less_divisor of_char_mod_256 zero_less_numeral)

lemma unescape_query_char: "unescape (query_char c @ s) = c # unescape s"
proof (cases "unreserved c")
  case True
  then have "c \<noteq> CHR ''+'' \<and> c \<noteq> CHR ''%''" by (auto simp: unreserved_def Let_def)
  with True show ?thesis by (simp add: query_char_def)
next
  case False
  have "(of_char c :: nat) div 16 < 16" using of_char_less [of c] by (simp add: less_mult_imp_div_less)
  moreover have "char_of ((of_char c :: nat) div 16 * 16 + of_char c mod 16) = c" by simp
  ultimately show ?thesis using False by (simp add: query_char_def percent_def)
qed

lemma unescape_QueryEscape [simp]: "unescape (QueryEscape s) = s"
  by (induction s) (simp_all add: QueryEscape_def unescape_query_char)

definition query_safe :: "char \<Rightarrow> bool" where
  "query_safe c \<longleftrightarrow> c \<noteq> CHR ''&'' \<and> c \<noteq> CHR ''=''"

lemma hex_upper_safe: "n < 16 \<Longrightarrow> query_safe (hex_upper n)"
proof -
  assume "n < 16"
  then have "of_char (hex_upper n) = (if n < 10 then 48 + n else 55 + n)" by (simp add: hex_upper_def)
  with \<open>n < 16\<close> show ?thesis by (auto simp: query_safe_def split: if_splits)
qed

lemma QueryEscape_safe: "list_all query_safe (QueryEscape s)"
proof -
  have "list_all query_safe (query_char c)" for c
  proof -
    have "(of_char c :: nat) div 16 < 16" using of_char_less [of c] by (simp add: less_mult_imp_div_less)
    moreover have "unreserved c \<Longrightarrow> query_safe c" by (auto simp: unreserved_def query_safe_def Let_def)
    ultimately show ?thesis
      using hex_upper_safe by (auto simp: query_char_def percent_def query_safe_def [of "CHR ''+''"] query_safe_def [of "CHR ''%''"])
  qed
  then show ?thesis by (induction s) (auto simp: QueryEscape_def)
qed

lemma takeWhile_safe: "list_all query_safe s \<Longrightarrow> takeWhile (\<lambda>c. c \<noteq> CHR ''='') (s @ CHR ''='' # t) = s \<and>
    dropWhile (\<lambda>c. c \<noteq> CHR ''='') (s @ CHR ''='' # t) = CHR ''='' # t"
  by (induction s) (auto simp: query_safe_def)

lemma read_pair_query_pair [simp]: "read_pair (query_pair kv) = kv"
  using takeWhile_safe [OF QueryEscape_safe [of "fst kv"], of "QueryEscape (snd kv)"]
  by (cases kv) (simp add: read_pair_def query_pair_def)

definition no_amp :: "string \<Rightarrow> bool" where
  "no_amp s \<longleftrightarrow> list_all (\<lambda>c. c \<noteq> CHR ''&'') s"

lemma query_pair_no_amp: "no_amp (query_pair kv)"
  using QueryEscape_safe [of "fst kv"] QueryEscape_safe [of "snd kv"]
  by (auto simp: no_amp_def query_pair_def query_safe_def list_all_iff)

lemma split_on_clean: "no_amp s \<Longrightarrow> split_on (CHR ''&'') s = [s]"
  by (induction s) (auto simp: no_amp_def)

lemma split_on_join_step: "no_amp s \<Longrightarrow> split_on (CHR ''&'') (s @ CHR ''&'' # t) = s # split_on (CHR ''&'') t"
  by (induction s) (auto simp: no_amp_def)

lemma split_on_join: "list_all no_amp xs \<Longrightarrow> xs \<noteq> [] \<Longrightarrow> split_on (CHR ''&'') (join ''&'' xs) = xs"
  by (induction "''&''" xs rule: join.induct) (auto simp: split_on_clean split_on_join_step)

lemma join_nonempty: "xs \<noteq> [] \<Longrightarrow> list_all (\<lambda>x. x \<noteq> []) xs \<Longrightarrow> join sep xs \<noteq> []"
  by (induction sep xs rule: join.induct) auto

lemma read_query_Encode [simp]: "read_query (Encode q) = sort_key fst q"
proof (cases "q = []")
  case False
  let ?ps = "map query_pair (sort_key fst q)"
  have ne: "?ps \<noteq> []" using False by (metis length_0_conv length_map length_sort)
  have "join ''&'' ?ps \<noteq> []"
    using ne by (rule join_nonempty) (simp add: list_all_iff query_pair_def)
  moreover have "split_on (CHR ''&'') (join ''&'' ?ps) = ?ps"
    using ne by (intro split_on_join) (simp_all add: list_all_iff query_pair_no_amp)
  ultimately show ?thesis by (simp add: read_query_def Encode_def comp_def)
qed (simp add: read_query_def Encode_def)

end
