(* ===== verification/Entrust.thy ===== *)
theory Entrust
  imports Signapi Identities Urls
begin

text \<open>
  \<^verbatim>\<open>entrust/client.go\<close>, \<^verbatim>\<open>entrust/trustedx.go\<close> and the configuration part of
  \<^verbatim>\<open>entrust/csc.go\<close>: the client of the eParaksts integration platform. Its OAuth URLs, the
  code exchange, the person's identities and their certificates, the two ways it signs, and
  the introspect token with its cache, which is the token provider of the signing API
  client: the interpretation at the end discharges that contract.
\<close>

section \<open>Configuration\<close>

record EntrustConfig =
  x_BaseURL :: string
  x_ASPath :: string
  x_ClientID :: string
  x_ClientSecret :: string
  x_RedirectURI :: string
  x_ACRMobile :: string
  x_ACREIDScan :: string
  x_ACRCloudEseal :: string
  x_CSCBaseURL :: string
  x_CSCClientID :: string
  x_CSCClientSecret :: string
  x_IdentityFetchRetries :: int
  x_IdentityFetchDelay :: int
  x_EarlyRefresh :: int

record 'u EntrustClient =
  x_cfg :: EntrustConfig
  x_env :: "'u env"

definition NewEntrust :: "EntrustConfig \<Rightarrow> 'u env \<Rightarrow> 'u EntrustClient" where
  "NewEntrust cfg e = \<lparr>x_cfg = cfg\<lparr>
       x_IdentityFetchRetries := (if x_IdentityFetchRetries cfg \<le> 0 then 5 else x_IdentityFetchRetries cfg),
       x_IdentityFetchDelay := (if x_IdentityFetchDelay cfg \<le> 0 then secs 2 else x_IdentityFetchDelay cfg),
       x_EarlyRefresh := (if x_EarlyRefresh cfg \<le> 0 then secs 60 else x_EarlyRefresh cfg),
       x_BaseURL := trim_suffix (x_BaseURL cfg) ''/'',
       x_CSCBaseURL := trim_suffix (x_CSCBaseURL cfg) ''/''\<rparr>,
     x_env = e\<rparr>"

definition tokenEndpoint :: "'u EntrustClient \<Rightarrow> string" where
  "tokenEndpoint c = x_BaseURL (x_cfg c) @ x_ASPath (x_cfg c) @ ''/token''"

definition authorizeEndpoint :: "'u EntrustClient \<Rightarrow> string" where
  "authorizeEndpoint c = x_BaseURL (x_cfg c) @ x_ASPath (x_cfg c)"

definition CSCEnabled :: "'u EntrustClient \<Rightarrow> bool" where
  "CSCEnabled c \<longleftrightarrow> trim_space (x_CSCClientID (x_cfg c)) \<noteq> []"

definition cscPath :: string where "cscPath = ''/trustedx-resources/csc/v2''"

definition cscBaseURI :: "'u EntrustClient \<Rightarrow> string" where
  "cscBaseURI c =
     (let base = x_CSCBaseURL (x_cfg c) in
      if base = [] then x_BaseURL (x_cfg c) @ cscPath
      else if \<not> has_suffix base ''/csc/v2'' then base @ ''/csc/v2'' else base)"

definition CSCRedirectURI :: "'u EntrustClient \<Rightarrow> string" where
  "CSCRedirectURI c = x_RedirectURI (x_cfg c)"

definition ACRForFlow :: "'u EntrustClient \<Rightarrow> bool \<Rightarrow> bool \<Rightarrow> string" where
  "ACRForFlow c useDevice cloudEseal =
     (if useDevice then x_ACREIDScan (x_cfg c)
      else if cloudEseal \<and> x_ACRCloudEseal (x_cfg c) \<noteq> [] then x_ACRCloudEseal (x_cfg c)
      else x_ACRMobile (x_cfg c))"

section \<open>Requests\<close>

definition string_bytes :: "string \<Rightarrow> bytes" where
  "string_bytes s = map of_char s"

definition basicAuth :: "string \<Rightarrow> string \<Rightarrow> string" where
  "basicAuth i secret = ''Basic '' @ b64_encode (string_bytes (i @ '':'' @ secret))"

definition doJSON :: "'u EntrustClient \<Rightarrow> request \<Rightarrow> (payload \<Rightarrow> err + 'a) \<Rightarrow> ('u net, err, 'a) prog" where
  "doJSON c rq out =
     bindE (mapErrE (ErrPre (''entrust: '' @ rq_method rq @ '' '' @ url_path (rq_url rq) @ '': '')) (transmit (x_env c) rq))
       (\<lambda>resp. case rs_body resp of Inl e \<Rightarrow> failE e
          | Inr b0 \<Rightarrow>
             (let b = limit_body (2 ^ 22) b0 in
              if rs_status resp div 100 \<noteq> 2 then
                failE (ErrOther (''entrust: '' @ rq_method rq @ '' '' @ url_path (rq_url rq) @ '' returned '' @
                         show_nat (rs_status resp) @ '': '' @ truncate_body (p_text b)))
              else ofsumE (out b)))"

definition new_request :: "'u EntrustClient \<Rightarrow> string \<Rightarrow> string \<Rightarrow> (string \<times> string) list \<Rightarrow> body \<Rightarrow> ('u net, err, request) prog" where
  "new_request c method url headers bd =
     (case e_new_request (x_env c) method url of Some e \<Rightarrow> failE e
      | None \<Rightarrow> retE \<lparr>rq_client = HcEntrust, rq_method = method, rq_url = url, rq_headers = headers, rq_body = bd\<rparr>)"

definition postForm :: "'u EntrustClient \<Rightarrow> string \<Rightarrow> (string \<times> string) list \<Rightarrow> string \<Rightarrow> (payload \<Rightarrow> err + 'a) \<Rightarrow> ('u net, err, 'a) prog" where
  "postForm c endpoint form authz out =
     bindE (new_request c ''POST'' endpoint
              ([(''Content-Type'', ''application/x-www-form-urlencoded;charset=UTF-8''), (''Accept'', ''application/json'')] @
               (if authz \<noteq> [] then [(''Authorization'', authz)] else [])) (FormBody (sort_key fst form)))
       (\<lambda>rq. doJSON c rq out)"

definition bearer_headers :: "string \<Rightarrow> (string \<times> string) list" where
  "bearer_headers bearer = [(''Authorization'', ''Bearer '' @ bearer), (''Accept'', ''application/json'')]"

definition getJSON :: "'u EntrustClient \<Rightarrow> string \<Rightarrow> string \<Rightarrow> (payload \<Rightarrow> err + 'a) \<Rightarrow> ('u net, err, 'a) prog" where
  "getJSON c url bearer out =
     bindE (new_request c ''GET'' url (bearer_headers bearer) NoBody) (\<lambda>rq. doJSON c rq out)"

definition postJSONBearer :: "'u EntrustClient \<Rightarrow> string \<Rightarrow> string \<Rightarrow> json \<Rightarrow> (payload \<Rightarrow> err + 'a) \<Rightarrow> ('u net, err, 'a) prog" where
  "postJSONBearer c url bearer v out =
     bindE (new_request c ''POST'' url ((''Content-Type'', ''application/json'') # bearer_headers bearer) (JsonBody v))
       (\<lambda>rq. doJSON c rq out)"

section \<open>Tokens\<close>

definition tokenResponse :: "json \<Rightarrow> (string \<times> int) option" where
  "tokenResponse v = Option.bind (obj_of (Some v)) (\<lambda>v. Option.bind (string_of (field v ''access_token''))
     (\<lambda>t. Option.bind (int_of_json (field v ''expires_in''))
     (\<lambda>n. if string_of (field v ''refresh_token'') = None \<or> string_of (field v ''token_type'') = None \<or>
            string_of (field v ''scope'') = None \<or> n < - (2 ^ 63) \<or> 2 ^ 63 \<le> n then None else Some (t, n))))"

text \<open>A count of seconds as a \<open>time.Duration\<close>: the multiplication is one of 64 bits.\<close>

definition duration_secs :: "int \<Rightarrow> int" where
  "duration_secs n = sint (word_of_int (n * 1000000000) :: 64 word)"

definition IntrospectScope :: string where
  "IntrospectScope = ''urn:safelayer:eidas:oauth:token:introspect''"

definition client_auth :: "'u EntrustClient \<Rightarrow> string" where
  "client_auth c = basicAuth (x_ClientID (x_cfg c)) (x_ClientSecret (x_cfg c))"

definition clientCredentials :: "'u EntrustClient \<Rightarrow> string \<Rightarrow> ('u net, err, string \<times> int) prog" where
  "clientCredentials c scope =
     bindE (postForm c (tokenEndpoint c) [(''grant_type'', ''client_credentials''), (''scope'', scope)] (client_auth c)
              (decode tokenResponse ([], 0)))
       (\<lambda>(tok, n). retE (tok, duration_secs n))"

definition IntrospectToken :: "'u EntrustClient \<Rightarrow> ('u net, err, string) prog" where
  "IntrospectToken c =
     bindE (getE (\<lambda>w. (n_tok w, n_tok_exp w))) (\<lambda>(cached, expAt).
     bindE (now (x_env c)) (\<lambda>t.
     if cached \<noteq> [] \<and> expAt - t > x_EarlyRefresh (x_cfg c) then retE cached
     else
       bindE (clientCredentials c IntrospectScope) (\<lambda>(tok, ttl).
       bindE (now (x_env c)) (\<lambda>t'.
       bindE (modE (\<lambda>w. w\<lparr>n_tok := tok, n_tok_exp := t' + ttl\<rparr>)) (\<lambda>_. retE tok)))))"

definition Exchange :: "'u EntrustClient \<Rightarrow> string \<Rightarrow> ('u net, err, string) prog" where
  "Exchange c code =
     bindE (postForm c (tokenEndpoint c) [(''grant_type'', ''authorization_code''), (''code'', code),
                (''redirect_uri'', x_RedirectURI (x_cfg c))] (client_auth c) (decode tokenResponse ([], 0)))
       (\<lambda>(tok, n). if tok = [] then failE (ErrOther ''entrust: token exchange returned no access_token'') else retE tok)"

section \<open>Authorize URLs\<close>

definition scopeProfile :: string where "scopeProfile = ''urn:safelayer:eidas:sign:identity:profile''"
definition scopeAA :: string where "scopeAA = ''urn:lvrtc:fpeil:aa''"
definition scopeUseServer :: string where "scopeUseServer = ''urn:safelayer:eidas:sign:identity:use:server''"
definition scopeUseDevice :: string where "scopeUseDevice = ''urn:safelayer:eidas:sign:identity:use:device''"

definition optional_param :: "string \<Rightarrow> string \<Rightarrow> (string \<times> string) list" where
  "optional_param k v = (if v \<noteq> [] then [(k, v)] else [])"

definition profile_query :: "'u EntrustClient \<Rightarrow> string \<Rightarrow> string \<Rightarrow> string \<Rightarrow> (string \<times> string) list" where
  "profile_query c state acr locales =
     [(''response_type'', ''code''), (''client_id'', x_ClientID (x_cfg c)), (''redirect_uri'', x_RedirectURI (x_cfg c)),
      (''state'', state), (''scope'', scopeProfile @ '' '' @ scopeAA)] @
     optional_param ''acr_values'' acr @ optional_param ''ui_locales'' locales"

definition ProfileAuthorizeURL :: "'u EntrustClient \<Rightarrow> string \<Rightarrow> string \<Rightarrow> string \<Rightarrow> string" where
  "ProfileAuthorizeURL c state acr locales = authorizeEndpoint c @ ''?'' @ Encode (profile_query c state acr locales)"

record SignAuthorizeParams =
  sp_State :: string
  sp_ACRValues :: string
  sp_UILocales :: string
  sp_SignIdentityID :: string
  sp_DigestsSummary :: string
  sp_DigestsSummaryAlgorithm :: string
  sp_UseDevice :: bool

definition sign_query :: "'u EntrustClient \<Rightarrow> SignAuthorizeParams \<Rightarrow> (string \<times> string) list" where
  "sign_query c p =
     [(''response_type'', ''code''), (''client_id'', x_ClientID (x_cfg c)), (''redirect_uri'', x_RedirectURI (x_cfg c)),
      (''state'', sp_State p), (''scope'', if sp_UseDevice p then scopeUseDevice else scopeUseServer),
      (''sign_identity_id'', sp_SignIdentityID p), (''digests_summary'', sp_DigestsSummary p),
      (''digests_summary_algorithm'', sp_DigestsSummaryAlgorithm p)] @
     optional_param ''acr_values'' (sp_ACRValues p) @ optional_param ''ui_locales'' (sp_UILocales p)"

definition SignAuthorizeURL :: "'u EntrustClient \<Rightarrow> SignAuthorizeParams \<Rightarrow> string" where
  "SignAuthorizeURL c p = authorizeEndpoint c @ ''?'' @ Encode (sign_query c p)"

section \<open>Identities and signing\<close>

definition pathUsersMe :: string where "pathUsersMe = ''/trustedx-resources/openid/v1/users/me''"
definition pathSignIdentity :: string where "pathSignIdentity = ''/trustedx-resources/esigp/v1/sign_identities/''"
definition pathServerRawBat :: string where "pathServerRawBat = ''/trustedx-resources/esigp/v1/signatures/server/raw/batch''"
definition pathDeviceRaw :: string where "pathDeviceRaw = ''/trustedx-resources/esigp/v1/signatures/device/raw''"
definition pathSignaturesRes :: string where "pathSignaturesRes = ''/trustedx-resources/esigp/v1/signatures/''"

definition strings_of :: "json option \<Rightarrow> string list option" where
  "strings_of v = Option.bind (array_of v) (\<lambda>vs. those (map (\<lambda>x. string_of (Some x)) vs))"

definition access_of :: "json \<Rightarrow> (string \<times> string list) option" where
  "access_of v = Option.bind (obj_of (Some v)) (\<lambda>v. Option.bind (string_of (field v ''user_id''))
     (\<lambda>u. Option.bind (strings_of (field v ''permissions'')) (\<lambda>ps. Some (u, ps))))"

definition identity_of :: "json \<Rightarrow> SignIdentity option" where
  "identity_of v = Option.bind (obj_of (Some v)) (\<lambda>v. Option.bind (string_of (field v ''id''))
     (\<lambda>i. Option.bind (string_of (field v ''description''))
     (\<lambda>d. Option.bind (obj_of (field v ''status'')) (\<lambda>st. Option.bind (string_of (field st ''value''))
     (\<lambda>sv. Option.bind (strings_of (field v ''labels''))
     (\<lambda>ls. Option.bind (array_of (field v ''access'')) (\<lambda>as. Option.bind (those (map access_of as))
     (\<lambda>acc. Some \<lparr>si_ID = i, si_Description = d, si_Status = sv, si_Labels = ls, si_Access = acc\<rparr>))))))))"

definition usersMeResponse :: "json \<Rightarrow> SignIdentity list option" where
  "usersMeResponse v = Option.bind (obj_of (Some v)) (\<lambda>v. Option.bind (array_of (field v ''sign_identities''))
     (\<lambda>vs. those (map identity_of vs)))"

definition UsersMe :: "'u EntrustClient \<Rightarrow> string \<Rightarrow> ('u net, err, SignIdentity list) prog" where
  "UsersMe c profileToken = getJSON c (x_BaseURL (x_cfg c) @ pathUsersMe) profileToken (decode usersMeResponse [])"

definition identityDetailResponse :: "json \<Rightarrow> string option" where
  "identityDetailResponse v = Option.bind (obj_of (Some v)) (\<lambda>v. Option.bind (obj_of (field v ''identity''))
     (\<lambda>i. Option.bind (obj_of (field i ''details'')) (\<lambda>d. string_of (field d ''certificate''))))"

text \<open>The tries that are left of the certificate fetch, with the last error.\<close>

fun identity_cert_from :: "'u EntrustClient \<Rightarrow> string \<Rightarrow> string \<Rightarrow> nat \<Rightarrow> err \<Rightarrow> ('u net, err, string) prog" where
  "identity_cert_from c profileToken i 0 lastErr = failE lastErr"
| "identity_cert_from c profileToken i (Suc left) lastErr =
     bindE (tryE (getJSON c (x_BaseURL (x_cfg c) @ pathSignIdentity @ PathEscape i) profileToken
                    (decode identityDetailResponse [])))
       (\<lambda>r. case r of
          Inr cert \<Rightarrow>
            if cert \<noteq> [] then retE cert
            else bindE (onEnv (e_wait (x_env c) (x_IdentityFetchDelay (x_cfg c))))
              (\<lambda>_. identity_cert_from c profileToken i left
                 (ErrOther (''entrust: sign_identity '' @ quoted i @ '' has no certificate'')))
        | Inl e \<Rightarrow> bindE (onEnv (e_wait (x_env c) (x_IdentityFetchDelay (x_cfg c))))
              (\<lambda>_. identity_cert_from c profileToken i left e))"

definition SignIdentityCert :: "'u EntrustClient \<Rightarrow> string \<Rightarrow> string \<Rightarrow> ('u net, err, string) prog" where
  "SignIdentityCert c profileToken i =
     identity_cert_from c profileToken i (nat (x_IdentityFetchRetries (x_cfg c))) (ErrOther [])"

definition serverRawBatchRequest :: "string \<Rightarrow> string \<Rightarrow> (string \<times> string) list \<Rightarrow> json" where
  "serverRawBatchRequest signIdentityID signatureAlgorithm reqs = JObj [
     (''sign_identity_id'', JStr signIdentityID), (''signature_algorithm'', JStr signatureAlgorithm),
     (''requests'', JArr (map (\<lambda>(d, a). JObj [(''digest_value'', JStr d), (''signature_algorithm'', JStr a)]) reqs))]"

definition serverRawBatchResponse :: "json \<Rightarrow> string list option" where
  "serverRawBatchResponse v = Option.bind (obj_of (Some v)) (\<lambda>v. strings_of (field v ''signatures''))"

definition ServerRawBatch :: "'u EntrustClient \<Rightarrow> string \<Rightarrow> string \<Rightarrow> string \<Rightarrow> (string \<times> string) list \<Rightarrow> ('u net, err, string list) prog" where
  "ServerRawBatch c signingToken signIdentityID signatureAlgorithm reqs =
     postJSONBearer c (x_BaseURL (x_cfg c) @ pathServerRawBat) signingToken
       (serverRawBatchRequest signIdentityID signatureAlgorithm reqs) (decode serverRawBatchResponse [])"

text \<open>What the device shows, as the provider wants it: base64 of a JSON text after an equals sign.\<close>

definition device_info :: "string \<Rightarrow> string \<Rightarrow> int \<Rightarrow> json" where
  "device_info code message deadlineMs = JObj [
     (''api_level'', JNum 1), (''code'', JStr code), (''message'', JStr message),
     (''params'', JObj [(''deadline'', JNum deadlineMs), (''force_pin'', JBool True), (''transaction_type'', JStr ''signature'')])]"

definition deviceRawRequest :: "string \<Rightarrow> string \<Rightarrow> string \<Rightarrow> string \<Rightarrow> json" where
  "deviceRawRequest digestValue digestAlgorithm html signIdentityID = JObj [
     (''input'', JObj [(''digest_value'', JStr digestValue), (''digest_algorithm'', JStr digestAlgorithm),
        (''data_info'', JObj [(''html'', JStr html)])]),
     (''sign_identities'', JArr [JObj [(''id'', JStr signIdentityID)]]),
     (''notify'', JBool True)]"

definition deviceRawResponse :: "json \<Rightarrow> string option" where
  "deviceRawResponse v = Option.bind (obj_of (Some v)) (\<lambda>v. Option.bind (obj_of (field v ''signature''))
     (\<lambda>s. string_of (field s ''id'')))"

definition DeviceRaw :: "'u EntrustClient \<Rightarrow> string \<Rightarrow> string \<Rightarrow> string \<Rightarrow> string \<Rightarrow> string \<Rightarrow> string \<Rightarrow> int \<Rightarrow> ('u net, err, string) prog" where
  "DeviceRaw c signingToken signIdentityID digestValue digestAlgorithm code message deadlineMs =
     bindE (postJSONBearer c (x_BaseURL (x_cfg c) @ pathDeviceRaw) signingToken
              (deviceRawRequest digestValue digestAlgorithm
                 (''='' @ b64_encode (string_bytes (json_text (device_info code message deadlineMs)))) signIdentityID)
              (decode deviceRawResponse []))
       (\<lambda>i. if i = [] then failE (ErrOther ''entrust: device/raw returned no signature id'') else retE i)"

definition deviceResult :: "json \<Rightarrow> (string \<times> string) option" where
  "deviceResult v = Option.bind (obj_of (Some v)) (\<lambda>v. Option.bind (string_of (field v ''status''))
     (\<lambda>s. Option.bind (string_of (field v ''value'')) (\<lambda>x. Some (s, x))))"

definition PollDeviceResult :: "'u EntrustClient \<Rightarrow> string \<Rightarrow> string \<Rightarrow> ('u net, err, string \<times> string) prog" where
  "PollDeviceResult c signingToken signatureID =
     getJSON c (x_BaseURL (x_cfg c) @ pathSignaturesRes @ PathEscape signatureID @ ''/result'') signingToken
       (decode deviceResult ([], []))"

definition delete_url :: "'u EntrustClient \<Rightarrow> string \<Rightarrow> string" where
  "delete_url c signatureID = x_BaseURL (x_cfg c) @ pathSignaturesRes @ PathEscape signatureID"

definition DeleteSignature :: "'u EntrustClient \<Rightarrow> string \<Rightarrow> string \<Rightarrow> ('u net, err, unit) prog" where
  "DeleteSignature c signingToken signatureID =
     bindE (new_request c ''DELETE'' (delete_url c signatureID) (bearer_headers signingToken) NoBody) (\<lambda>rq.
     bindE (mapErrE (ErrPre ''entrust: delete signature: '') (transmit (x_env c) rq)) (\<lambda>resp.
     if rs_status resp div 100 \<noteq> 2
     then failE (ErrOther (''entrust: delete signature returned '' @ show_nat (rs_status resp))) else retE ()))"

section \<open>Library\<close>

text \<open>Nothing of the platform client goes through the signing API's HTTP clients.\<close>

lemma quiet_onEnv [simp, keeps_intros]: "keeps sa_log (onEnv m)"
  by (simp add: onEnv_def keeps_liftE sa_log_def)

lemma quiet_now [simp, keeps_intros]: "keeps sa_log (now e)"
  by (simp add: now_def)

lemma quiet_transmit [keeps_intros]: "rq_client rq = HcEntrust \<Longrightarrow> keeps sa_log (transmit e rq)"
  by (intro keepsI wp_mono [OF transmit_log]) (auto simp: sa_log_def)

lemma quiet_new_request:
  "(\<And>rq. rq_client rq = HcEntrust \<Longrightarrow> keeps sa_log (f rq)) \<Longrightarrow> keeps sa_log (bindE (new_request c m u hs bd) f)"
  by (auto simp: new_request_def bindE_def failE_def retE_def keeps_def split: option.split)

lemma quiet_doJSON: "rq_client rq = HcEntrust \<Longrightarrow> keeps sa_log (doJSON c rq out)"
  unfolding doJSON_def by (intro keeps_intros)

lemma quiet_http [simp, keeps_intros]:
  "keeps sa_log (postForm c u f a out)" "keeps sa_log (getJSON c u b out')" "keeps sa_log (postJSONBearer c u b v out'')"
  by (simp_all add: postForm_def getJSON_def postJSONBearer_def quiet_new_request quiet_doJSON)

lemma quiet_IntrospectToken: "keeps sa_log (IntrospectToken c)"
  unfolding IntrospectToken_def clientCredentials_def by (intro keeps_intros) (simp_all add: sa_log_def)

text \<open>The application's signing API client keeps the contract of \<open>signapi_client\<close>.\<close>

interpretation app_client: signapi_client "NewClient base (IntrospectToken ec) e [WithFirstAttempt d1, WithCallLimit d2]"
  for base ec e d1 d2
  using keepsD [OF quiet_IntrospectToken]
  by unfold_locales (simp add: NewClient_def WithFirstAttempt_def WithCallLimit_def)

lemma quiet_entrust [simp, keeps_intros]:
  "keeps sa_log (Exchange c code)" "keeps sa_log (UsersMe c tok)" "keeps sa_log (ServerRawBatch c tok i a rs)"
  "keeps sa_log (DeviceRaw c tok i d da cd msg dl)" "keeps sa_log (PollDeviceResult c tok i)"
  unfolding Exchange_def UsersMe_def ServerRawBatch_def DeviceRaw_def PollDeviceResult_def
  by (intro keeps_intros)+

lemma quiet_DeleteSignature [simp, keeps_intros]: "keeps sa_log (DeleteSignature c tok i)"
  unfolding DeleteSignature_def by (intro quiet_new_request keeps_intros)

lemma quiet_SignIdentityCert [simp, keeps_intros]: "keeps sa_log (SignIdentityCert c tok i)"
proof -
  have "keeps sa_log (identity_cert_from c tok i n e)" for n e
    by (induction n arbitrary: e) (auto intro!: keeps_intros)
  then show ?thesis by (simp add: SignIdentityCert_def)
qed

section \<open>Properties\<close>

text \<open>The introspect token's request.\<close>

definition is_token_request :: "'u EntrustClient \<Rightarrow> exchange \<Rightarrow> bool" where
  "is_token_request c x \<longleftrightarrow> rq_client (fst x) = HcEntrust \<and> rq_method (fst x) = ''POST'' \<and> rq_url (fst x) = tokenEndpoint c \<and>
     rq_body (fst x) = FormBody (sort_key fst [(''grant_type'', ''client_credentials''), (''scope'', IntrospectScope)])"

lemma doJSON_log:
  "wp (doJSON c rq out) (\<lambda>_ w'. (\<exists>r. n_log w' = n_log w @ [(rq, r)]) \<and> n_tok w' = n_tok w \<and> n_tok_exp w' = n_tok_exp w)
     (\<lambda>_ w'. (\<exists>r. n_log w' = n_log w @ [(rq, r)]) \<and> n_tok w' = n_tok w \<and> n_tok_exp w' = n_tok_exp w) w"
  unfolding doJSON_def wp_rules
  by (rule wp_mono [OF transmit_log]) (auto simp: wp_rules Let_def split: sum.split)

lemma clientCredentials_log:
  "wp (clientCredentials c IntrospectScope)
     (\<lambda>_ w'. (\<exists>x. n_log w' = n_log w @ [x] \<and> is_token_request c x) \<and> n_tok w' = n_tok w \<and> n_tok_exp w' = n_tok_exp w)
     (\<lambda>_ w'. (n_log w' = n_log w \<or> (\<exists>x. n_log w' = n_log w @ [x] \<and> is_token_request c x)) \<and>
        n_tok w' = n_tok w \<and> n_tok_exp w' = n_tok_exp w) w"
  unfolding clientCredentials_def postForm_def new_request_def
  by (auto simp: wp_rules is_token_request_def split: option.split intro!: wp_mono [OF doJSON_log])

text \<open>
  The cached introspect token is used only while it is good. \<open>IntrospectToken\<close> answers
  from the cache, without any request, exactly when a token is cached and it expires later
  than the early-refresh margin from now; in every other case it makes one request to the
  token endpoint, and on success the answered token is the one cached. A failed request
  leaves the cache as it was.
\<close>

theorem introspect_token_cache:
  "wp (IntrospectToken c)
     (\<lambda>tok w'. let t = fst (e_now (x_env c) (n_env w)) in
        if n_tok w \<noteq> [] \<and> n_tok_exp w - t > x_EarlyRefresh (x_cfg c)
        then tok = n_tok w \<and> n_log w' = n_log w \<and> n_tok_exp w' = n_tok_exp w
        else n_tok w' = tok \<and> (\<exists>x. n_log w' = n_log w @ [x] \<and> is_token_request c x))
     (\<lambda>e w'. n_tok w' = n_tok w \<and> n_tok_exp w' = n_tok_exp w \<and>
        \<not> (n_tok w \<noteq> [] \<and> n_tok_exp w - fst (e_now (x_env c) (n_env w)) > x_EarlyRefresh (x_cfg c)) \<and>
        (n_log w' = n_log w \<or> (\<exists>x. n_log w' = n_log w @ [x] \<and> is_token_request c x))) w"
  unfolding IntrospectToken_def
  by (auto simp: wp_rules Let_def
      intro!: wp_mono [OF now_frame] wp_mono [OF clientCredentials_log])


text \<open>
  C39: The signature authorization the person is sent to is bound to what is signed: the query
  of \<open>SignAuthorizeURL\<close>, decoded, is exactly its parameters, among them the job's state, the
  sign identity and the digests summary and algorithm, unchanged, and the device scope for a
  device signature only.
\<close>

theorem sign_url_carries_binding:
  "\<exists>q. SignAuthorizeURL c p = authorizeEndpoint c @ ''?'' @ q \<and> read_query q = sort_key fst (sign_query c p) \<and>
     {(''state'', sp_State p), (''sign_identity_id'', sp_SignIdentityID p), (''digests_summary'', sp_DigestsSummary p),
      (''digests_summary_algorithm'', sp_DigestsSummaryAlgorithm p),
      (''scope'', if sp_UseDevice p then scopeUseDevice else scopeUseServer)} \<subseteq> set (read_query q)"
proof -
  have "{(''state'', sp_State p), (''sign_identity_id'', sp_SignIdentityID p), (''digests_summary'', sp_DigestsSummary p),
      (''digests_summary_algorithm'', sp_DigestsSummaryAlgorithm p),
      (''scope'', if sp_UseDevice p then scopeUseDevice else scopeUseServer)} \<subseteq> set (sign_query c p)"
    by (simp add: sign_query_def)
  then show ?thesis
    by (intro exI [of _ "Encode (sign_query c p)"]) (simp add: SignAuthorizeURL_def)
qed

text \<open>
  \<open>SignIdentityCert\<close> asks at most as often as it is configured to, and it never returns an
  empty certificate.
\<close>

theorem identity_cert_bounded:
  "wp (SignIdentityCert c tok i)
     (\<lambda>cert w'. cert \<noteq> [] \<and> length (n_log w') \<le> length (n_log w) + nat (x_IdentityFetchRetries (x_cfg c)))
     (\<lambda>e w'. length (n_log w') \<le> length (n_log w) + nat (x_IdentityFetchRetries (x_cfg c))) w"
proof -
  have get: "wp (getJSON c u b out) (\<lambda>_ w'. length (n_log w') \<le> Suc (length (n_log w)))
      (\<lambda>_ w'. length (n_log w') \<le> Suc (length (n_log w))) w" for u b and out :: "payload \<Rightarrow> err + string" and w
    unfolding getJSON_def new_request_def
    by (auto simp: wp_rules split: option.split intro!: wp_mono [OF doJSON_log])
  have "wp (identity_cert_from c tok i n e) (\<lambda>cert w'. cert \<noteq> [] \<and> length (n_log w') \<le> length (n_log w) + n)
     (\<lambda>e w'. length (n_log w') \<le> length (n_log w) + n) w" for n e w
  proof (induction n arbitrary: e w)
    case (Suc n)
    have IH: "wp (identity_cert_from c tok i n e) (\<lambda>cert w'. cert \<noteq> [] \<and> length (n_log w') \<le> Suc (length (n_log w) + n))
       (\<lambda>e w'. length (n_log w') \<le> Suc (length (n_log w) + n)) w1"
      if "length (n_log w1) \<le> Suc (length (n_log w))" for e w1
      using that by (intro wp_mono [OF Suc.IH]) auto
    have again: "wp (bindE (onEnv m) (\<lambda>_. identity_cert_from c tok i n e))
        (\<lambda>cert w'. cert \<noteq> [] \<and> length (n_log w') \<le> Suc (length (n_log w) + n))
        (\<lambda>e w'. length (n_log w') \<le> Suc (length (n_log w) + n)) w1"
      if w1: "length (n_log w1) \<le> Suc (length (n_log w))" for m :: "('a, err, unit) prog" and e w1
    proof -
      have "wp (onEnv m) (\<lambda>_ w'. n_log w' = n_log w1) (\<lambda>_ w'. n_log w' = n_log w1) w1" by (rule onEnv_frame) simp
      then show ?thesis unfolding wp_bindE
      proof (rule wp_mono)
        fix w2 :: "'a net" assume "n_log w2 = n_log w1"
        with w1 show "wp (identity_cert_from c tok i n e) (\<lambda>cert w'. cert \<noteq> [] \<and> length (n_log w') \<le> Suc (length (n_log w) + n))
          (\<lambda>e w'. length (n_log w') \<le> Suc (length (n_log w) + n)) w2" by (intro IH) simp
      qed (use w1 in simp)
    qed
    show ?case
      unfolding identity_cert_from.simps wp_bindE wp_tryE
      by (rule wp_mono [OF get]) (auto simp: wp_if wp_retE intro: again)
  qed (simp add: wp_rules)
  then show ?thesis by (simp add: SignIdentityCert_def)
qed

end
