(* ===== verification/Authcert.thy ===== *)
theory Authcert
  imports Job Sha256
begin

text \<open>
  \<^verbatim>\<open>signing/authcert.go\<close>: with whose certificate a timestamp is requested. A set of flows
  is configured to use the deployment's own certificate; every other flow uses the signer's.
  What the code counts and logs of each timestamp is a record of the metrics it increments.
\<close>

section \<open>Flow lists\<close>

definition allFlows :: string where "allFlows = ''all''"

definition DefaultTSAAccessCertFlows :: string where "DefaultTSAAccessCertFlows = []"

record FlowSet =
  fs_all :: bool
  fs_flows :: "Flow set"

definition parse_flow_name :: "string \<Rightarrow> FlowSet \<Rightarrow> FlowSet" where
  "parse_flow_name name0 S =
     (let name = trim_space name0 in
      if name = [] then S
      else if equal_fold name allFlows then S\<lparr>fs_all := True\<rparr>
      else if Valid name then S\<lparr>fs_flows := insert name (fs_flows S)\<rparr>
      else S)"

definition ParseFlowSet :: "string \<Rightarrow> FlowSet" where
  "ParseFlowSet list = fold parse_flow_name (split_on (CHR '','') list) \<lparr>fs_all = False, fs_flows = {}\<rparr>"

definition Has :: "FlowSet \<Rightarrow> Flow \<Rightarrow> bool" where
  "Has S f \<longleftrightarrow> fs_all S \<or> f \<in> fs_flows S"

definition UnknownFlowNames :: "string \<Rightarrow> string list" where
  "UnknownFlowNames list =
     filter (\<lambda>name. name \<noteq> [] \<and> \<not> equal_fold name allFlows \<and> \<not> Valid name)
       (map trim_space (split_on (CHR '','') list))"

definition KnownFlowNames :: "string list" where
  "KnownFlowNames = Flows"

section \<open>The certificate\<close>

datatype CertSource = SourceSigner | SourceDeployment

record Config =
  cf_DefaultSignatureQualifier :: string
  cf_EIDScanPollInterval :: int
  cf_EIDScanDeadline :: int
  cf_TSAAccessCert :: string
  cf_TSAAccessCertFlows :: FlowSet
  cf_LegacyEIDEnabled :: bool

definition authCertFor :: "Config \<Rightarrow> Job \<Rightarrow> string \<times> CertSource \<times> bool" where
  "authCertFor cfg j =
     (if Has (cf_TSAAccessCertFlows cfg) (j_Flow j) then
        (let cert = trim_space (cf_TSAAccessCert cfg) in
         if cert \<noteq> [] then (cert, SourceDeployment, True) else ([], SourceDeployment, False))
      else
        (let cert = trim_space (j_AuthCert j) in (cert, SourceSigner, cert \<noteq> [])))"

datatype TsOp = TsSign | TsArchive

text \<open>
  The counters: \<open>TimestampRequest\<close> is \<open>signing_timestamp_requests_total\<close>, \<open>TimestampRefused\<close>
  is \<open>signing_timestamp_refused_total\<close>. The request's log line carries the fingerprint of a
  certificate of the deployment.
\<close>

datatype Metric =
    TimestampRequest CertSource Flow TsOp "string option"
  | TimestampRefused Flow TsOp

definition hex_digit :: "nat \<Rightarrow> char" where
  "hex_digit n = (if n < 10 then char_of (48 + n) else char_of (87 + n))"

definition hex_encode :: "bytes \<Rightarrow> string" where
  "hex_encode bs = concat (map (\<lambda>b. [hex_digit (unat b div 16), hex_digit (unat b mod 16)]) bs)"

definition certFingerprint :: "string \<Rightarrow> string" where
  "certFingerprint cert =
     (let raw = (case b64_decode (trim_space cert) of None \<Rightarrow> map of_char cert | Some b \<Rightarrow> b)
      in hex_encode (take 8 (Sum256 raw)))"

definition recordTimestampRequest :: "Job \<Rightarrow> CertSource \<Rightarrow> TsOp \<Rightarrow> string \<Rightarrow> Metric" where
  "recordTimestampRequest j source op cert =
     TimestampRequest source (j_Flow j) op (if source = SourceDeployment then Some (certFingerprint cert) else None)"

definition recordTimestampRefused :: "Job \<Rightarrow> TsOp \<Rightarrow> Metric" where
  "recordTimestampRefused j op = TimestampRefused (j_Flow j) op"

section \<open>Library\<close>

definition flow_entries :: "string \<Rightarrow> string list" where
  "flow_entries list = map trim_space (split_on (CHR '','') list)"

lemma Valid_not_all: "Valid f \<Longrightarrow> \<not> equal_fold f allFlows"
proof -
  assume "Valid f"
  then have "f \<in> set Flows" by (simp add: Valid_iff_listed)
  moreover have "\<not> list_ex (\<lambda>f. equal_fold f allFlows) Flows" by code_simp
  ultimately show ?thesis by (auto simp: list_ex_iff)
qed

lemma Valid_nonempty: "Valid f \<Longrightarrow> f \<noteq> []"
  by (auto simp: Valid_def flow_names)

lemma parse_flow_name_effect:
  "fs_all (parse_flow_name n S) \<longleftrightarrow> fs_all S \<or> equal_fold (trim_space n) allFlows"
  "fs_flows (parse_flow_name n S) = fs_flows S \<union> {f. f = trim_space n \<and> Valid f}"
  using Valid_not_all [of "trim_space n"] Valid_nonempty [of "trim_space n"]
  by (auto simp: parse_flow_name_def Let_def equal_fold_def to_lower_def allFlows_def)

lemma fold_parse:
  "fs_all (fold parse_flow_name ns S) \<longleftrightarrow> fs_all S \<or> (\<exists>n \<in> set (map trim_space ns). equal_fold n allFlows)"
  "fs_flows (fold parse_flow_name ns S) = fs_flows S \<union> {f. f \<in> set (map trim_space ns) \<and> Valid f}"
  by (induction ns arbitrary: S) (auto simp: parse_flow_name_effect)

section \<open>Properties\<close>

text \<open>
  A flow list is read exactly. \<open>ParseFlowSet\<close> selects a flow precisely when the list
  names it, white space aside, and it is a flow of the service, or when the list has the
  word "all" in any case; and \<open>UnknownFlowNames\<close> reports exactly the entries that are
  neither empty nor "all" and selected nothing.
\<close>

theorem flow_list_read:
  "(Has (ParseFlowSet list) f \<longleftrightarrow>
      (\<exists>n \<in> set (flow_entries list). equal_fold n allFlows) \<or> Valid f \<and> f \<in> set (flow_entries list)) \<and>
   UnknownFlowNames list =
     filter (\<lambda>n. n \<noteq> [] \<and> \<not> equal_fold n allFlows \<and> n \<notin> fs_flows (ParseFlowSet list)) (flow_entries list)"
proof
  show "Has (ParseFlowSet list) f \<longleftrightarrow>
      (\<exists>n \<in> set (flow_entries list). equal_fold n allFlows) \<or> Valid f \<and> f \<in> set (flow_entries list)"
    by (auto simp: Has_def ParseFlowSet_def fold_parse flow_entries_def)
  show "UnknownFlowNames list =
     filter (\<lambda>n. n \<noteq> [] \<and> \<not> equal_fold n allFlows \<and> n \<notin> fs_flows (ParseFlowSet list)) (flow_entries list)"
    unfolding UnknownFlowNames_def flow_entries_def
    by (rule filter_cong) (auto simp: ParseFlowSet_def fold_parse)
qed

text \<open>
  The certificate a timestamp is requested with comes from the configured side and from
  no other. A flow in the configured set uses the deployment's certificate, every other flow
  the signer's; it is available exactly when that one is not blank; and whatever the other
  side's certificate is makes no difference, so neither ever stands in for the other.
\<close>

theorem authCertFor_no_fallback:
  "let own = (if Has (cf_TSAAccessCertFlows cfg) (j_Flow j) then cf_TSAAccessCert cfg else j_AuthCert j) in
   authCertFor cfg j =
     (trim_space own, if Has (cf_TSAAccessCertFlows cfg) (j_Flow j) then SourceDeployment else SourceSigner,
      trim_space own \<noteq> []) \<and>
   authCertFor (if Has (cf_TSAAccessCertFlows cfg) (j_Flow j) then cfg else cfg\<lparr>cf_TSAAccessCert := other\<rparr>)
     (if Has (cf_TSAAccessCertFlows cfg) (j_Flow j) then j\<lparr>j_AuthCert := other\<rparr> else j) = authCertFor cfg j"
  by (auto simp: authCertFor_def Let_def)

end
