(* ===== verification/Der.thy ===== *)
theory Der
  imports Base64
begin

text \<open>
  The part of Go's \<^verbatim>\<open>encoding/asn1\<close> that the signature boundary uses: marshalling and
  unmarshalling \<open>SEQUENCE { INTEGER r, INTEGER s }\<close> (the struct \<open>ecdsaSig\<close> of
  \<^verbatim>\<open>signing/ecdsa.go\<close>). Unmarshalling follows the library: lengths must be minimal
  (\<open>parseTagAndLength\<close>), integers must be minimal (\<open>checkInteger\<close>), bytes after the
  outer SEQUENCE are returned to the caller, and bytes after the last field \<^emph>\<open>inside\<close> the
  SEQUENCE are skipped. A high-tag-number identifier never matches the tags wanted here,
  so only the one-byte identifiers are read.

  The lemmas show that what is accepted is the canonical encoding of its two integers,
  up to those skipped bytes, and that marshalling is inverted by unmarshalling.
\<close>

section \<open>Marshalling\<close>

text \<open>\<open>makeBigInt\<close> on a non-negative number, \<open>appendLength\<close>, and the element around a body.\<close>

definition der_int :: "nat \<Rightarrow> bytes" where
  "der_int n =
     (if n = 0 then [0]
      else let bs = nat_be n in if 128 \<le> unat (hd bs) then 0 # bs else bs)"

definition der_length :: "nat \<Rightarrow> bytes" where
  "der_length n = (if n < 128 then [of_nat n] else of_nat (128 + length (nat_be n)) # nat_be n)"

definition der_elem :: "byte \<Rightarrow> bytes \<Rightarrow> bytes" where
  "der_elem tag body = tag # der_length (length body) @ body"

abbreviation tag_integer :: byte where "tag_integer \<equiv> 0x02"
abbreviation tag_sequence :: byte where "tag_sequence \<equiv> 0x30"

definition der_fields :: "nat \<Rightarrow> nat \<Rightarrow> bytes" where
  "der_fields r s = der_elem tag_integer (der_int r) @ der_elem tag_integer (der_int s)"

definition der_marshal :: "nat \<Rightarrow> nat \<Rightarrow> bytes" where
  "der_marshal r s = der_elem tag_sequence (der_fields r s)"

section \<open>Unmarshalling\<close>

fun parse_length_bytes :: "nat \<Rightarrow> nat \<Rightarrow> bytes \<Rightarrow> (nat \<times> bytes) option" where
  "parse_length_bytes 0 acc bs = Some (acc, bs)"
| "parse_length_bytes (Suc k) acc [] = None"
| "parse_length_bytes (Suc k) acc (b # bs) =
     (if 2 ^ 23 \<le> acc then None
      else let acc' = acc * 256 + unat b in
        if acc' = 0 then None else parse_length_bytes k acc' bs)"

fun parse_length :: "bytes \<Rightarrow> (nat \<times> bytes) option" where
  "parse_length [] = None"
| "parse_length (b # bs) =
     (if unat b < 128 then Some (unat b, bs)
      else if unat b = 128 then None
      else (case parse_length_bytes (unat b - 128) 0 bs of
          None \<Rightarrow> None
        | Some (n, rest) \<Rightarrow> if n < 128 then None else Some (n, rest)))"

fun parse_elem :: "byte \<Rightarrow> bytes \<Rightarrow> (bytes \<times> bytes) option" where
  "parse_elem tag [] = None"
| "parse_elem tag (b # bs) =
     (if b \<noteq> tag then None
      else (case parse_length bs of
          None \<Rightarrow> None
        | Some (n, rest) \<Rightarrow> if length rest < n then None else Some (take n rest, drop n rest)))"

definition minimal_int :: "bytes \<Rightarrow> bool" where
  "minimal_int bs = (case bs of [] \<Rightarrow> False | [b] \<Rightarrow> True
     | a # b # _ \<Rightarrow> \<not> (a = 0 \<and> unat b < 128) \<and> \<not> (a = 0xFF \<and> 128 \<le> unat b))"

definition parse_int :: "bytes \<Rightarrow> int option" where
  "parse_int bs =
     (if \<not> minimal_int bs then None
      else if 128 \<le> unat (hd bs) then Some (int (be_nat bs) - 256 ^ length bs)
      else Some (int (be_nat bs)))"

definition parse_int_field :: "bytes \<Rightarrow> (int \<times> bytes) option" where
  "parse_int_field bs =
     (case parse_elem tag_integer bs of None \<Rightarrow> None
      | Some (body, rest) \<Rightarrow> map_option (\<lambda>n. (n, rest)) (parse_int body))"

definition der_unmarshal :: "bytes \<Rightarrow> ((int \<times> int) \<times> bytes) option" where
  "der_unmarshal raw =
     (case parse_elem tag_sequence raw of None \<Rightarrow> None
      | Some (inner, rest) \<Rightarrow>
          (case parse_int_field inner of None \<Rightarrow> None
           | Some (r, inner') \<Rightarrow>
               (case parse_int_field inner' of None \<Rightarrow> None
                | Some (s, _) \<Rightarrow> Some ((r, s), rest))))"

section \<open>Lengths\<close>

lemma der_length_small: "n < 128 \<Longrightarrow> der_length n = [of_nat n]"
  by (simp add: der_length_def)

lemma parse_length_bytes_inv:
  "parse_length_bytes k acc bs = Some (n, rest) \<Longrightarrow>
     \<exists>ls. length ls = k \<and> bs = ls @ rest \<and> n = acc * 256 ^ k + be_nat ls \<and>
       (acc = 0 \<longrightarrow> ls = [] \<or> hd ls \<noteq> 0)"
proof (induction k acc bs rule: parse_length_bytes.induct)
  case (3 k acc b bs)
  then have acc': "acc * 256 + unat b \<noteq> 0"
    and "parse_length_bytes k (acc * 256 + unat b) bs = Some (n, rest)"
    by (auto simp: Let_def split: if_splits)
  with 3 obtain ls where ls: "length ls = k" "bs = ls @ rest"
      "n = (acc * 256 + unat b) * 256 ^ k + be_nat ls"
    by (auto simp: Let_def split: if_splits)
  have "n = acc * 256 ^ Suc k + be_nat (b # ls)"
    using ls by (simp add: be_nat_cons algebra_simps)
  moreover have "acc = 0 \<longrightarrow> b \<noteq> 0" using acc' by auto
  ultimately show ?case using ls by (intro exI [of _ "b # ls"]) auto
qed auto

lemma parse_length_canonical:
  assumes "parse_length bs = Some (n, rest)"
  shows "bs = der_length n @ rest"
proof (cases bs)
  case (Cons b cs)
  show ?thesis
  proof (cases "unat b < 128")
    case True
    with assms Cons show ?thesis by (auto simp: der_length_def)
  next
    case False
    with assms Cons have parts: "unat b \<noteq> 128" "parse_length_bytes (unat b - 128) 0 cs = Some (n, rest)" "128 \<le> n"
      by (auto split: if_splits option.splits prod.splits)
    then obtain ls where ls: "length ls = unat b - 128" "cs = ls @ rest" "n = be_nat ls" "ls = [] \<or> hd ls \<noteq> 0"
      using parse_length_bytes_inv by fastforce
    have "ls \<noteq> []" using ls(3) parts(3) by auto
    with ls have eq: "nat_be n = ls" by (simp add: nat_be_be_nat)
    have "128 + length ls = unat b" using ls(1) False by simp
    then have "(of_nat (128 + length ls) :: byte) = b" by (simp only: byte_of_nat_unat)
    with eq parts(3) Cons ls(2) show ?thesis by (simp add: der_length_def)
  qed
qed (use assms in simp)

lemma parse_length_bytes_nat_be:
  "ls \<noteq> [] \<Longrightarrow> acc * 256 ^ length ls + be_nat ls < 2 ^ 31 \<Longrightarrow> (acc = 0 \<Longrightarrow> hd ls \<noteq> 0) \<Longrightarrow>
     parse_length_bytes (length ls) acc (ls @ rest) = Some (acc * 256 ^ length ls + be_nat ls, rest)"
proof (induction ls arbitrary: acc)
  case (Cons b ls)
  have nz: "acc * 256 + unat b \<noteq> 0" using Cons.prems(3) by (auto simp: unat_eq_0)
  have val: "acc * 256 ^ length (b # ls) + be_nat (b # ls) = (acc * 256 + unat b) * 256 ^ length ls + be_nat ls"
    by (simp add: be_nat_cons algebra_simps)
  have "acc * 256 \<le> acc * 256 ^ length (b # ls)" by simp
  also have "\<dots> < 2 ^ 31" using Cons.prems(2) by linarith
  finally have small: "acc < 2 ^ 23" by simp
  have "parse_length_bytes (length ls) (acc * 256 + unat b) (ls @ rest) =
      Some ((acc * 256 + unat b) * 256 ^ length ls + be_nat ls, rest)"
  proof (cases "ls = []")
    case False
    then show ?thesis using Cons.prems(2) nz val by (intro Cons.IH) auto
  qed simp
  then show ?case using nz small by (simp only: val) (simp add: Let_def)
qed simp

lemma parse_length_der_length [simp]:
  assumes "n < 2 ^ 31"
  shows "parse_length (der_length n @ rest) = Some (n, rest)"
proof (cases "n < 128")
  case False
  have len: "length (nat_be n) \<le> 4" using assms by (intro nat_be_length_le) simp
  then have u: "unat (of_nat (128 + length (nat_be n)) :: byte) = 128 + length (nat_be n)"
    by (intro unat_byte_of_nat) simp
  have "parse_length_bytes (length (nat_be n)) 0 (nat_be n @ rest) = Some (n, rest)"
    using parse_length_bytes_nat_be [of "nat_be n" 0 rest] False assms by (simp add: nat_be_hd)
  with u False show ?thesis by (simp add: der_length_def del: of_nat_add)
qed (simp add: der_length_def unat_byte_of_nat)

lemma parse_elem_der_elem [simp]:
  "length body < 2 ^ 31 \<Longrightarrow> parse_elem tag (der_elem tag body @ rest) = Some (body, rest)"
  by (simp add: der_elem_def)

lemma parse_elem_canonical:
  "parse_elem tag bs = Some (body, rest) \<Longrightarrow> bs = der_elem tag body @ rest"
  by (cases bs)
    (auto simp: der_elem_def min_absorb2 split: if_splits option.splits prod.splits dest!: parse_length_canonical)

section \<open>Integers\<close>

lemma der_int_nonempty [simp]: "der_int n \<noteq> []"
  by (auto simp: der_int_def Let_def)

lemma parse_int_der_int [simp]: "parse_int (der_int n) = Some (int n)"
proof (cases "n = 0")
  case False
  then obtain b bs where nb: "nat_be n = b # bs" by (cases "nat_be n") auto
  have "b \<noteq> 0" using nat_be_hd [of n] False nb by simp
  moreover have "be_nat (b # bs) = n" using be_nat_nat_be [of n] nb by simp
  ultimately show ?thesis
    using nb False by (auto simp: der_int_def parse_int_def minimal_int_def Let_def split: list.splits)
qed (simp add: der_int_def parse_int_def minimal_int_def be_nat_def)

lemma parse_int_canonical:
  assumes "parse_int bs = Some (int n)"
  shows "bs = der_int n"
proof -
  from assms have min: "minimal_int bs" by (auto simp: parse_int_def split: if_splits)
  then obtain b cs where bs: "bs = b # cs" by (cases bs) (auto simp: minimal_int_def)
  have lt: "int (be_nat bs) < 256 ^ length bs" using be_nat_less [of bs] by (metis of_nat_less_iff of_nat_numeral of_nat_power)
  have pos: "unat b < 128" and n: "be_nat bs = n"
    using assms bs min lt by (auto simp: parse_int_def split: if_splits)
  show ?thesis
  proof (cases "b = 0")
    case False
    then have "nat_be n = bs" using nat_be_be_nat [of bs] bs n by simp
    moreover then have "n \<noteq> 0" using bs by (metis list.discI nat_be_zero)
    ultimately show ?thesis using bs pos by (simp add: der_int_def)
  next
    case True
    show ?thesis
    proof (cases cs)
      case Nil
      with True bs n show ?thesis by (simp add: der_int_def)
    next
      case (Cons c ds)
      with min True bs have c: "128 \<le> unat c" by (auto simp: minimal_int_def)
      then have "c \<noteq> 0" by auto
      then have "nat_be n = cs" using nat_be_be_nat [of cs] True bs n Cons by simp
      moreover then have "n \<noteq> 0" using Cons by (metis list.discI nat_be_zero)
      ultimately show ?thesis using True bs c Cons by (simp add: der_int_def)
    qed
  qed
qed

lemma der_int_length: "n < 256 ^ k \<Longrightarrow> length (der_int n) \<le> Suc k"
  using nat_be_length_le [of n k] by (simp add: der_int_def Let_def)

lemma parse_int_field_canonical:
  assumes "parse_int_field bs = Some (int n, rest)"
  shows "bs = der_elem tag_integer (der_int n) @ rest"
  using assms
  by (auto simp: parse_int_field_def split: option.splits prod.splits dest!: parse_elem_canonical parse_int_canonical)

lemma parse_int_field_der [simp]:
  "length (der_int n) < 2 ^ 31 \<Longrightarrow>
     parse_int_field (der_elem tag_integer (der_int n) @ rest) = Some (int n, rest)"
  by (simp add: parse_int_field_def)

section \<open>The signature structure\<close>

lemma der_length_bound: "n < 2 ^ 31 \<Longrightarrow> length (der_length n) \<le> 5"
  using nat_be_length_le [of n 4] by (simp add: der_length_def)

lemma der_unmarshal_marshal:
  assumes "r < 256 ^ 66" and "s < 256 ^ 66"
  shows "der_unmarshal (der_marshal r s @ rest) = Some ((int r, int s), rest)"
proof -
  have len: "length (der_int r) \<le> 67" "length (der_int s) \<le> 67"
    using assms der_int_length by fastforce+
  then have small: "length (der_int r) < 2 ^ 31" "length (der_int s) < 2 ^ 31" by simp_all
  have "length (der_fields r s) < 2 ^ 31"
    using len der_length_bound [OF small(1)] der_length_bound [OF small(2)]
    by (simp add: der_fields_def der_elem_def)
  moreover have "parse_int_field (der_elem tag_integer (der_int s)) = Some (int s, [])"
    using parse_int_field_der [OF small(2), of "[]"] by simp
  ultimately show ?thesis
    using small by (simp add: der_unmarshal_def der_marshal_def) (simp add: der_fields_def)
qed

text \<open>
  What unmarshalling accepts with nothing left over is one SEQUENCE element whose body is
  the canonical encoding of the two integers followed by some skipped bytes.
\<close>

lemma der_unmarshal_shape:
  assumes "der_unmarshal raw = Some ((int r, int s), rest)"
  shows "\<exists>skipped. raw = der_elem tag_sequence (der_fields r s @ skipped) @ rest"
  using assms
  by (auto simp: der_unmarshal_def der_fields_def split: option.splits prod.splits
      dest!: parse_elem_canonical parse_int_field_canonical)

end
