(* ===== verification/Ecdsa.thy ===== *)
theory Ecdsa
  imports Der Errors
begin

text \<open>
  \<^verbatim>\<open>signing/ecdsa.go\<close>: the one place where a signature value, whatever the signer
  returned, becomes DER before it is finalized. The lemmas show that the function is
  total, that every value it returns is a DER signature with positive numbers, that a raw
  \<open>r\<parallel>s\<close> value keeps its two numbers, that normalizing twice changes nothing, and exactly
  which inputs are refused.
\<close>

section \<open>Definitions\<close>

definition p1363Widths :: "nat \<Rightarrow> bool" where
  "p1363Widths n \<longleftrightarrow> n \<in> {64, 96, 132}"

definition accepted_der :: "bytes \<Rightarrow> bool" where
  "accepted_der raw \<longleftrightarrow>
     raw \<noteq> [] \<and> hd raw = 0x30 \<and>
     (case der_unmarshal raw of None \<Rightarrow> False
      | Some ((r, s), rest) \<Rightarrow> rest = [] \<and> 0 < r \<and> 0 < s)"

definition normalizeToDER :: "bytes \<Rightarrow> err + (bytes \<times> bool)" where
  "normalizeToDER raw =
     (if accepted_der raw then Inr (raw, False)
      else if p1363Widths (length raw) then
        (let half = length raw div 2;
             r = be_nat (take half raw);
             s = be_nat (drop half raw)
         in if r = 0 \<or> s = 0 then Inl (ErrPost ErrBadSignatureEncoding '': P1363 r or s is zero'')
            else Inr (der_marshal r s, True))
      else Inl (ErrPost ErrBadSignatureEncoding
        ('': length '' @ show_nat (length raw) @ '' is neither DER nor a P1363 width'')))"

definition NormalizeSignatureToDER :: "string \<Rightarrow> err + (string \<times> bool)" where
  "NormalizeSignatureToDER sigB64 =
     (case b64_decode sigB64 of
        None \<Rightarrow> Inl (ErrBoth ErrBadSignatureEncoding '': invalid base64: '' bad_base64)
      | Some raw \<Rightarrow>
          (case normalizeToDER raw of
             Inl e \<Rightarrow> Inl e
           | Inr (der, p1363) \<Rightarrow> Inr (b64_encode der, p1363)))"

text \<open>A raw signature: both numbers at the same fixed width (what a card returns).\<close>

definition fixed_width :: "nat \<Rightarrow> nat \<Rightarrow> bytes" where
  "fixed_width w n = replicate (w - length (nat_be n)) 0 @ nat_be n"

definition p1363 :: "nat \<Rightarrow> nat \<Rightarrow> nat \<Rightarrow> bytes" where
  "p1363 w r s = fixed_width w r @ fixed_width w s"

section \<open>Library\<close>

lemma be_nat_replicate_zero [simp]: "be_nat (replicate k 0 @ bs) = be_nat bs"
  by (induction k) simp_all

lemma fixed_width_length: "n < 256 ^ w \<Longrightarrow> length (fixed_width w n) = w"
  using nat_be_length_le [of n w] by (simp add: fixed_width_def)

lemma be_nat_fixed_width [simp]: "be_nat (fixed_width w n) = n"
  by (simp add: fixed_width_def)

lemma half_bound: "p1363Widths (length raw) \<Longrightarrow>
   be_nat (take (length raw div 2) raw) < 256 ^ 66 \<and> be_nat (drop (length raw div 2) raw) < 256 ^ 66"
proof -
  assume w: "p1363Widths (length raw)"
  have "length raw \<le> 132" using w by (auto simp: p1363Widths_def)
  then have "length (take (length raw div 2) raw) \<le> 66" "length (drop (length raw div 2) raw) \<le> 66"
    by auto
  then have "(256::nat) ^ length (take (length raw div 2) raw) \<le> 256 ^ 66"
    and "(256::nat) ^ length (drop (length raw div 2) raw) \<le> 256 ^ 66"
    by (intro power_increasing; simp)+
  then show ?thesis
    using be_nat_less [of "take (length raw div 2) raw"] be_nat_less [of "drop (length raw div 2) raw"]
    by (meson order_less_le_trans)
qed

lemma der_marshal_head [simp]: "der_marshal r s \<noteq> []" "hd (der_marshal r s) = 0x30"
  by (simp_all add: der_marshal_def der_elem_def)

lemma der_marshal_nums: "r < 256 ^ length (der_marshal r s) \<and> s < 256 ^ length (der_marshal r s)"
proof -
  have nat: "n < 256 ^ k" if "length (der_int n) \<le> k" for n k
  proof -
    have "n < 256 ^ length (nat_be n)" using be_nat_less [of "nat_be n"] by simp
    also have "length (nat_be n) \<le> k" using that by (auto simp: der_int_def Let_def split: if_splits)
    then have "(256::nat) ^ length (nat_be n) \<le> 256 ^ k" by (intro power_increasing) auto
    finally show ?thesis .
  qed
  show ?thesis by (intro conjI nat) (simp_all add: der_marshal_def der_fields_def der_elem_def)
qed

lemma accepted_der_marshal:
  "0 < r \<Longrightarrow> 0 < s \<Longrightarrow> r < 256 ^ 66 \<Longrightarrow> s < 256 ^ 66 \<Longrightarrow> accepted_der (der_marshal r s)"
  using der_unmarshal_marshal [of r s "[]"] by (simp add: accepted_der_def)

lemma normalizeToDER_cases:
  assumes "normalizeToDER raw = Inr (der, p)"
  obtains "accepted_der raw" "der = raw" "\<not> p"
    | r s where "p" "\<not> accepted_der raw" "p1363Widths (length raw)" "der = der_marshal r s"
        "r = be_nat (take (length raw div 2) raw)" "s = be_nat (drop (length raw div 2) raw)"
        "0 < r" "0 < s" "r < 256 ^ 66" "s < 256 ^ 66"
  using assms half_bound [of raw]
  by (auto simp: normalizeToDER_def Let_def split: if_splits)

lemma normalizeToDER_accepted: "normalizeToDER raw = Inr (der, p) \<Longrightarrow> accepted_der der"
  by (erule normalizeToDER_cases) (auto intro: accepted_der_marshal)

lemma accepted_der_nums:
  assumes "accepted_der raw"
  obtains r s skipped where "0 < r" "0 < s" "der_unmarshal raw = Some ((int r, int s), [])"
    "raw = der_elem tag_sequence (der_fields r s @ skipped)"
proof -
  from assms obtain r s where u: "der_unmarshal raw = Some ((r, s), [])" and pos: "0 < r" "0 < s"
    by (auto simp: accepted_der_def split: option.splits)
  from pos have rs: "r = int (nat r)" "s = int (nat s)" by simp_all
  with u have u': "der_unmarshal raw = Some ((int (nat r), int (nat s)), [])" by simp
  then obtain sk where "raw = der_elem tag_sequence (der_fields (nat r) (nat s) @ sk)"
    using der_unmarshal_shape by fastforce
  with u' pos show ?thesis by (intro that [of "nat r" "nat s" sk]) auto
qed

section \<open>Properties\<close>



text \<open>
  A raw \<open>r\<parallel>s\<close> value of P-256, P-384 or P-521 that is not itself acceptable DER becomes
  the DER encoding of exactly its two numbers, and is reported as raw.
\<close>

theorem normalize_p1363:
  assumes "w \<in> {32, 48, 66}" and "0 < r" "r < 256 ^ w" and "0 < s" "s < 256 ^ w"
    and "\<not> accepted_der (p1363 w r s)"
  shows "normalizeToDER (p1363 w r s) = Inr (der_marshal r s, True) \<and>
    der_unmarshal (der_marshal r s) = Some ((int r, int s), [])"
proof -
  have len: "length (fixed_width w r) = w" "length (fixed_width w s) = w"
    using assms fixed_width_length by auto
  then have "length (p1363 w r s) = 2 * w" by (simp add: p1363_def)
  moreover have "p1363Widths (2 * w)" using assms(1) by (auto simp: p1363Widths_def)
  moreover have "take w (p1363 w r s) = fixed_width w r" "drop w (p1363 w r s) = fixed_width w s"
    using len by (simp_all add: p1363_def)
  moreover have "(256::nat) ^ w \<le> 256 ^ 66" using assms(1) by (intro power_increasing) auto
  ultimately show ?thesis
    using assms der_unmarshal_marshal [of r s "[]"] by (auto simp: normalizeToDER_def Let_def)
qed

theorem normalize_p1363_witness:
  "normalizeToDER (p1363 32 0x4242 0x2424) = Inr (der_marshal 0x4242 0x2424, True)"
proof -
  have "hd (p1363 32 0x4242 0x2424) = 0"
    by (simp add: p1363_def fixed_width_def nat_be_pos hd_append)
  then have "\<not> accepted_der (p1363 32 0x4242 0x2424)" by (simp add: accepted_der_def)
  then show ?thesis using normalize_p1363 [of 32 "0x4242" "0x2424"] by simp
qed

text \<open>
  normalizing is idempotent at the base64 boundary: a value that was returned once is
  returned unchanged, as DER, when it is normalized again.
\<close>

theorem normalize_idempotent:
  assumes "NormalizeSignatureToDER x = Inr (y, p)"
  shows "NormalizeSignatureToDER y = Inr (y, False)"
proof -
  from assms obtain raw der where "normalizeToDER raw = Inr (der, p)" and y: "y = b64_encode der"
    by (auto simp: NormalizeSignatureToDER_def split: option.splits sum.splits)
  then have "accepted_der der" by (blast intro: normalizeToDER_accepted)
  then have "normalizeToDER der = Inr (der, False)" by (simp add: normalizeToDER_def)
  then show ?thesis by (simp add: NormalizeSignatureToDER_def y)
qed

theorem normalize_idempotent_witness:
  "NormalizeSignatureToDER ''MAYCAQUCAQc='' = Inr (''MAYCAQUCAQc='', False)"
proof -
  have "NormalizeSignatureToDER ''MAYCAQUCAQc='' = Inr (''MAYCAQUCAQc='', False)" by code_simp
  then show ?thesis by (rule normalize_idempotent)
qed

text \<open>
  exactly these values are refused: text that is not base64, and bytes that are
  neither acceptable DER nor two non-zero numbers at a known raw width. Every refusal is
  the error for a bad signature encoding.
\<close>

theorem normalize_refuses:
  "(\<exists>e. NormalizeSignatureToDER x = Inl e \<and> err_is e ErrBadSignatureEncoding) \<longleftrightarrow>
     (case b64_decode x of None \<Rightarrow> True
      | Some raw \<Rightarrow> \<not> accepted_der raw \<and>
          (p1363Widths (length raw) \<longrightarrow>
             be_nat (take (length raw div 2) raw) = 0 \<or> be_nat (drop (length raw div 2) raw) = 0))"
  by (auto simp: NormalizeSignatureToDER_def normalizeToDER_def Let_def split: option.splits)

theorem normalize_refuses_witness:
  "\<exists>e. NormalizeSignatureToDER ''AAAA'' = Inl e \<and> err_is e ErrBadSignatureEncoding"
proof -
  have "case b64_decode ''AAAA'' of None \<Rightarrow> True
      | Some raw \<Rightarrow> \<not> accepted_der raw \<and>
          (p1363Widths (length raw) \<longrightarrow>
             be_nat (take (length raw div 2) raw) = 0 \<or> be_nat (drop (length raw div 2) raw) = 0)"
    by code_simp
  then show ?thesis by (simp only: normalize_refuses)
qed

text \<open>
  the pass-through branch accepts more than the encoding of two integers: a SEQUENCE
  with a further element after them is passed on unchanged, although it is the encoding
  of no pair of numbers (the comment in the code calls this branch an exact round trip).
\<close>

theorem normalize_passes_extra_field:
  "\<exists>raw. normalizeToDER raw = Inr (raw, False) \<and> (\<forall>r s. raw \<noteq> der_marshal r s)"
proof -
  let ?raw = "[0x30, 8, 2, 1, 5, 2, 1, 7, 5, 0] :: bytes"
  have ok: "normalizeToDER ?raw = Inr (?raw, False)" by code_simp
  have u: "der_unmarshal ?raw = Some ((5, 7), [])" by code_simp
  have c: "der_marshal 5 7 \<noteq> ?raw" by code_simp
  have "?raw \<noteq> der_marshal r s" for r s
  proof
    assume eq: "?raw = der_marshal r s"
    then have "length (der_marshal r s) = 10" by (simp add: eq [symmetric])
    with der_marshal_nums [of r s] have "r < 256 ^ 66" "s < 256 ^ 66"
      using power_increasing [of 10 66 "256::nat"] by auto
    then have "der_unmarshal ?raw = Some ((int r, int s), [])"
      using der_unmarshal_marshal [of r s "[]"] eq by simp
    with u have "r = 5" "s = 7" by simp_all
    with eq c show False by simp
  qed
  with ok show ?thesis by blast
qed

end
