(* ===== verification/Spine.thy ===== *)
theory Spine
  imports Store Entrust Authcert Ecdsa
begin

text \<open>
  The shared spine of \<^verbatim>\<open>signing/orchestrator.go\<close> and the types of \<^verbatim>\<open>signing/flow.go\<close>: the
  state an operation of the orchestrator works on, the sessions and uploads, the digest
  calculation, finalize, the closing of sessions, and the helpers.

  An operation's state is the Redis it saves to, the upstream world, the session closes that
  were started in the background and have not run yet, the metrics, the CSC signing calls
  made, and the job the operation has in hand (the \<^verbatim>\<open>*job.Job\<close> it loaded or made, which
  its callees change in place). Parameters that stand for code outside the repository are
  fields of \<open>env\<close> and \<open>csc\<close>; the CSC client library and its profile are one record of the
  functions the flow calls.

  The lemmas give the exact effect of the digest calculation and of finalize on the job and
  on the request that is sent.
\<close>

section \<open>The CSC client library\<close>

datatype EIDFlow = EIDScan | CardOnComputer

record TokenResponse =
  tk_AccessToken :: string
  tk_CredentialID :: string
  tk_Details :: json

record SignHashRequest =
  sh_CredentialID :: string
  sh_Hashes :: "bytes list"
  sh_HashAlgorithmOID :: string
  sh_SignAlgo :: string

text \<open>
  Values the code only passes on (an authorization request, a pushed request's answer, a
  credential, the details of a token, the answer of signHash) are JSON here.
\<close>

record 'u csc =
  cs_NewPKCE :: "('u, err, string \<times> string) prog"  \<comment> \<open>verifier and challenge\<close>
  cs_CredentialRequest :: "string \<Rightarrow> string \<Rightarrow> string \<times> string \<Rightarrow> EIDFlow \<Rightarrow> json"
  cs_SigningRequest :: "string \<Rightarrow> string \<Rightarrow> string \<times> string \<Rightarrow> EIDFlow \<Rightarrow> string \<Rightarrow> bytes list \<Rightarrow> string \<Rightarrow> json"
  cs_PushedAuthorize :: "json \<Rightarrow> ('u, err, json) prog"
  cs_AuthorizeURL :: "json \<Rightarrow> string"
  cs_Token :: "string \<Rightarrow> string \<Rightarrow> string \<Rightarrow> ('u, err, TokenResponse) prog"
  cs_CredentialsInfo :: "string \<Rightarrow> string \<Rightarrow> ('u, err, json) prog"
  cs_CredentialID :: "json \<Rightarrow> string"
  cs_CheckSigning :: "json \<Rightarrow> nat \<Rightarrow> int \<Rightarrow> err option"
  cs_ErrCertificateValidity :: err
  cs_LeafCertificate :: "json \<Rightarrow> err + bytes"
  cs_SignAlgoFor :: "json \<Rightarrow> string \<Rightarrow> err + string"
  cs_Signing :: "TokenResponse \<Rightarrow> err + json"
  cs_Bound :: "json \<Rightarrow> string \<Rightarrow> bytes list \<Rightarrow> err option"
  cs_SignHash :: "string \<Rightarrow> SignHashRequest \<Rightarrow> ('u, err, json) prog"
  cs_Signature :: "json \<Rightarrow> nat \<Rightarrow> err + bytes"
  cs_VerifySignature :: "bytes \<Rightarrow> string \<Rightarrow> string \<Rightarrow> bytes \<Rightarrow> bytes \<Rightarrow> err option"
  cs_DigestLength :: "string \<Rightarrow> nat"
  cs_OIDSHA256 :: string
  cs_OIDSHA384 :: string
  cs_OIDSHA512 :: string

section \<open>State\<close>

record ('r, 'u) sys =
  s_redis :: 'r
  s_net :: "'u net"
  s_closing :: "(string \<times> string list) list"
  s_metrics :: "Metric list"
  s_signhash :: "(string \<times> SignHashRequest) list"
  s_job :: Job

record ('r, 'u) Orchestrator =
  o_jobs :: "'r Store"
  o_signapi :: "'u Client"
  o_entrust :: "'u EntrustClient"
  o_csc :: "'u csc"
  o_env :: "'u env"
  o_cfg :: Config
  o_polls :: nat  \<comment> \<open>the rounds of the device poll the model runs at most\<close>

definition onRedis :: "('r, err, 'a) prog \<Rightarrow> (('r, 'u) sys, err, 'a) prog" where
  "onRedis m = liftE s_redis (\<lambda>r s. s\<lparr>s_redis := r\<rparr>) m"

definition onNet :: "('u net, err, 'a) prog \<Rightarrow> (('r, 'u) sys, err, 'a) prog" where
  "onNet m = liftE s_net (\<lambda>n s. s\<lparr>s_net := n\<rparr>) m"

definition job :: "(('r, 'u) sys, err, Job) prog" where
  "job = getE s_job"

definition setJob :: "(Job \<Rightarrow> Job) \<Rightarrow> (('r, 'u) sys, err, unit) prog" where
  "setJob f = modE (\<lambda>s. s\<lparr>s_job := f (s_job s)\<rparr>)"

definition time :: "('r, 'u) Orchestrator \<Rightarrow> (('r, 'u) sys, err, int) prog" where
  "time ob = onNet (now (o_env ob))"

text \<open>\<open>time.Now()\<close> read inside \<open>Transition\<close> and \<open>Fail\<close>.\<close>

definition transitionJob :: "('r, 'u) Orchestrator \<Rightarrow> JobState \<Rightarrow> (('r, 'u) sys, err, unit) prog" where
  "transitionJob ob to = bindE (time ob) (\<lambda>t. setJob (\<lambda>j. snd (Transition to t j)))"

definition failJob :: "('r, 'u) Orchestrator \<Rightarrow> string \<Rightarrow> string \<Rightarrow> (('r, 'u) sys, err, unit) prog" where
  "failJob ob code message = bindE (time ob) (\<lambda>t. setJob (Fail code message t))"

definition saveJob :: "('r, 'u) Orchestrator \<Rightarrow> (('r, 'u) sys, err, unit) prog" where
  "saveJob ob = bindE job (\<lambda>j. onRedis (Save (o_jobs ob) j))"

definition metric :: "Metric \<Rightarrow> (('r, 'u) sys, err, unit) prog" where
  "metric m = modE (\<lambda>s. s\<lparr>s_metrics := s_metrics s @ [m]\<rparr>)"

section \<open>Types of a flow and of a request\<close>

record Capabilities =
  ca_SupportsBatch :: bool
  ca_UsesDigestSummary :: bool
  ca_ClientSide :: bool
  ca_DevicePush :: bool
  ca_SingleSessionOnly :: bool
  ca_Level :: string

datatype InputFile = InputFile (if_Name: string) (if_Digest: string) (if_DigestAlgorithm: string)

record InputDocument =
  i_DocumentID :: string
  i_FileName :: string
  i_MimeType :: string
  i_Format :: SignatureFormat
  i_Operation :: Operation
  i_Bytes :: bytes
  i_Hash :: string
  i_DigestAlgorithm :: string
  i_Files :: "InputFile list"

record PrepareInput =
  pi_Flow :: Flow
  pi_Caller :: string
  pi_Locale :: string
  pi_SignatureQualifier :: string
  pi_SigningCert :: string
  pi_AuthCert :: string
  pi_SignIdentityID :: string
  pi_SealID :: string
  pi_PostAuthRedirect :: string
  pi_AuthErrorRedirect :: string
  pi_Documents :: "InputDocument list"

datatype DigestOut = DigestOut (do_DocumentID: string) (do_Digest: string) (do_DigestAlgorithm: string)

record PrepareResult =
  pr_Job :: Job
  pr_AuthorizeURL :: string
  pr_Digests :: "DigestOut list"
  pr_SignAlgo :: string

datatype SubmittedSignature = SubmittedSignature (ss_DocumentID: string) (ss_SignatureValue: string)

section \<open>Helpers\<close>

definition classifyUpstream :: "err \<Rightarrow> err" where
  "classifyUpstream e =
     (case as_api_error e of
        Some (APIError m p st b) \<Rightarrow> if ClientError st then ErrBoth ErrDocumentRejected '': '' e else e
      | _ \<Rightarrow> e)"

definition substituteJobID :: "string \<Rightarrow> string \<Rightarrow> string" where
  "substituteJobID rawURL jobID = replace_all rawURL ''{jobId}'' jobID"

definition signapiDocDigestAlgo :: "string \<Rightarrow> string" where
  "signapiDocDigestAlgo s =
     (let s = to_upper (filter (\<lambda>c. c \<notin> {CHR ''-'', CHR ''_'', CHR '' ''}) s) in
      if s = [] then ''SHA256'' else s)"

definition hashFilesFor :: "InputDocument \<Rightarrow> HashFile list" where
  "hashFilesFor d =
     (if i_Files d \<noteq> [] then
        map (\<lambda>f. HashFile (if_Name f) (if_Digest f) (signapiDocDigestAlgo (if_DigestAlgorithm f))) (i_Files d)
      else [HashFile (i_FileName d) (i_Hash d) (signapiDocDigestAlgo (i_DigestAlgorithm d))])"

definition RawURLEncode :: "bytes \<Rightarrow> string" where
  "RawURLEncode b =
     map (\<lambda>c. if c = CHR ''+'' then CHR ''-'' else if c = CHR ''/'' then CHR ''_'' else c)
       (filter (\<lambda>c. c \<noteq> CHR ''='') (b64_encode b))"

definition newState :: "('r, 'u) Orchestrator \<Rightarrow> (('r, 'u) sys, err, string) prog" where
  "newState ob = bindE (onNet (onEnv (e_rand (o_env ob) 32))) (\<lambda>b. retE (RawURLEncode b))"

definition validateBatch :: "PrepareInput \<Rightarrow> Capabilities \<Rightarrow> err option" where
  "validateBatch inp caps =
     (case pi_Documents inp of
        [] \<Rightarrow> Some (ErrOther ''signing: no documents'')
      | d # ds \<Rightarrow>
          if length (d # ds) > 1 \<and> (\<not> ca_SupportsBatch caps \<or> ca_SingleSessionOnly caps) then Some ErrBatchUnsupport
          else if list_ex (\<lambda>d'. i_Format d' \<noteq> i_Format d) ds then Some ErrMixedFormat
          else None)"

definition certSubject :: "'u env \<Rightarrow> string \<Rightarrow> string" where
  "certSubject e b64 =
     (case b64_decode b64 of None \<Rightarrow> []
      | Some der \<Rightarrow> (case e_subject e der of None \<Rightarrow> [] | Some s \<Rightarrow> s))"

definition asice_type :: string where "asice_type = ''application/vnd.etsi.asic-e+zip''"

definition containerType :: "SignatureFormat \<Rightarrow> bool \<Rightarrow> string \<times> string" where
  "containerType format asice =
     (if format = FormatPAdES then (''application/pdf'', ''.pdf'')
      else if asice then (asice_type, ''.asice'') else (asice_type, ''.edoc''))"

definition fileExt :: "string \<Rightarrow> string" where
  "fileExt name = (if CHR ''.'' \<in> set name then CHR ''.'' # rev (takeWhile (\<lambda>c. c \<noteq> CHR ''.'') (rev name)) else [])"

definition orDefault :: "string \<Rightarrow> string \<Rightarrow> string" where
  "orDefault v def = (if trim_space v = [] then def else v)"

definition signAlgoName :: "string \<Rightarrow> string" where
  "signAlgoName sigAlgo =
     (let s = to_lower sigAlgo in
      if contains s ''ecdsa'' \<or> contains s ''ecc'' then ''ecdsa''
      else if contains s ''rsa'' then ''rsa'' else sigAlgo)"

section \<open>Sessions and uploads\<close>

text \<open>The job's documents and the request's are walked together, by index.\<close>

definition upload_document :: "('r, 'u) Orchestrator \<Rightarrow> string \<Rightarrow> string \<Rightarrow> InputDocument \<Rightarrow> (('r, 'u) sys, err, unit) prog" where
  "upload_document ob jobID sid d =
     (if i_Bytes d \<noteq> [] then
        bindE (mapErrE (ErrPre (''upload '' @ quoted (i_DocumentID d) @ '': ''))
                 (onNet (UploadFile (o_signapi ob) jobID sid (i_FileName d) (i_MimeType d) (i_Bytes d)))) (\<lambda>_. retE ())
      else
        mapErrE (ErrPre (''add digest '' @ quoted (i_DocumentID d) @ '': ''))
          (onNet (AddDocumentDigest (o_signapi ob) jobID sid (hashFilesFor d) 0)))"

definition createSessionsAndUpload :: "('r, 'u) Orchestrator \<Rightarrow> InputDocument list \<Rightarrow> (('r, 'u) sys, err, unit) prog" where
  "createSessionsAndUpload ob ins =
     bindE job (\<lambda>j0.
     forE [0..<length (j_Documents j0)] (\<lambda>i.
       bindE (mapErrE (ErrPre ''start session: '') (onNet (StartSession (o_signapi ob) (j_JobID j0)))) (\<lambda>sid.
       bindE (setJob (update_doc i (\<lambda>d. d\<lparr>d_SessionID := sid\<rparr>))) (\<lambda>_.
       upload_document ob (j_JobID j0) sid (ins ! i)))))"

section \<open>Digests\<close>

text \<open>The results applied in order; the documents before a missing one keep what they got.\<close>

definition with_digest :: "DigestResult \<Rightarrow> Document \<Rightarrow> Document" where
  "with_digest r d = d\<lparr>d_Digest := dr_Digest r,
     d_DigestAlgorithm := (if d_DigestAlgorithm d = [] then dr_Algorithm r else d_DigestAlgorithm d)\<rparr>"

text \<open>The job's signature algorithm, summary and summary algorithm: the first that is not empty stays.\<close>

fun with_shared :: "DigestResult \<Rightarrow> string \<times> string \<times> string \<Rightarrow> string \<times> string \<times> string" where
  "with_shared r (signAlgo, summary, summaryAlgo) =
     (if signAlgo = [] then dr_SignatureAlgorithm r else signAlgo,
      if summary = [] then dr_DigestsSummary r else summary,
      if summary = [] then dr_Algorithm r else summaryAlgo)"

fun digest_docs :: "(string \<Rightarrow> DigestResult option) \<Rightarrow> Document list \<Rightarrow> string \<times> string \<times> string \<Rightarrow>
    err option \<times> Document list \<times> string \<times> string \<times> string" where
  "digest_docs bySession [] acc = (None, [], acc)"
| "digest_docs bySession (d # ds) acc =
     (case bySession (d_SessionID d) of
        None \<Rightarrow> (Some (ErrOther (''signing: no digest for session '' @ quoted (d_SessionID d))), d # ds, acc)
      | Some r \<Rightarrow> (case digest_docs bySession ds (with_shared r acc) of (e, ds', acc') \<Rightarrow> (e, with_digest r d # ds', acc')))"

definition by_session :: "DigestResult list \<Rightarrow> string \<Rightarrow> DigestResult option" where
  "by_session results = map_of (rev (map (\<lambda>r. (dr_SessionID r, r)) results))"

definition apply_digests :: "DigestResult list \<Rightarrow> Job \<Rightarrow> err option \<times> Job" where
  "apply_digests results j =
     (case digest_docs (by_session results) (j_Documents j) (j_SignAlgo j, j_DigestsSummary j, j_DigestsSummaryAlgo j) of
        (e, ds, a, s, sa) \<Rightarrow> (e, j\<lparr>j_Documents := ds, j_SignAlgo := a, j_DigestsSummary := s, j_DigestsSummaryAlgo := sa\<rparr>))"

definition digest_request :: "Job \<Rightarrow> string \<Rightarrow> CalculateDigestRequest" where
  "digest_request j cert =
     (let first = hd (j_Documents j) in
      \<lparr>cd_Sessions = map d_SessionID (j_Documents j), cd_Certificate = cert,
       cd_SignAsPdf = (d_Format first = FormatPAdES),
       cd_CreateNewEdoc = (d_Format first \<noteq> FormatPAdES \<and> d_Operation first = OpCreate)\<rparr>)"

definition calculateDigests :: "('r, 'u) Orchestrator \<Rightarrow> string \<Rightarrow> (('r, 'u) sys, err, unit) prog" where
  "calculateDigests ob cert =
     bindE job (\<lambda>j.
     if j_Documents j = [] then failE (ErrOther ''signing: no documents'')
     else
       bindE (onNet (CalculateDigest (o_signapi ob) (j_JobID j) (digest_request j cert))) (\<lambda>results.
       case apply_digests results j of
         (e, j') \<Rightarrow> bindE (setJob (\<lambda>_. j')) (\<lambda>_. case e of None \<Rightarrow> retE () | Some e \<Rightarrow> failE e)))"

section \<open>Finalize\<close>

fun normalized :: "Document list \<Rightarrow> err + (string \<times> string) list" where
  "normalized [] = Inr []"
| "normalized (d # ds) =
     (case NormalizeSignatureToDER (d_SignatureValue d) of
        Inl e \<Rightarrow> Inl (ErrPre (''document '' @ quoted (d_DocumentID d) @ '': '') e)
      | Inr (der, wasP1363) \<Rightarrow>
          (case normalized ds of Inl e \<Rightarrow> Inl e | Inr ssv \<Rightarrow> Inr ((d_SessionID d, der) # ssv)))"

definition mark_ready :: "Document \<Rightarrow> Document" where
  "mark_ready d = d\<lparr>d_State := DocReady, d_SignatureValue := []\<rparr>"

definition finalize :: "('r, 'u) Orchestrator \<Rightarrow> (('r, 'u) sys, err, unit) prog" where
  "finalize ob =
     bindE job (\<lambda>j.
     case authCertFor (o_cfg ob) j of (authCert, certSource, ok) \<Rightarrow>
     if \<not> ok then bindE (metric (recordTimestampRefused j TsSign)) (\<lambda>_. failE ErrNoTimestampCert)
     else
       bindE (metric (recordTimestampRequest j certSource TsSign authCert)) (\<lambda>_.
       bindE (ofsumE (normalized (j_Documents j))) (\<lambda>ssv.
       bindE (onNet (FinalizeSigning (o_signapi ob) (j_JobID j)
                \<lparr>fr_SessionSignatureValues = ssv, fr_AuthCertificate = authCert\<rparr>)) (\<lambda>_.
       bindE (setJob (\<lambda>j. j\<lparr>j_Documents := map mark_ready (j_Documents j)\<rparr>)) (\<lambda>_.
       transitionJob ob StateReady)))))"

section \<open>Closing sessions\<close>

definition closeLater :: "string \<Rightarrow> string list \<Rightarrow> (('r, 'u) sys, err, unit) prog" where
  "closeLater correlationID sessionIDs =
     (let sids = filter (\<lambda>sid. sid \<noteq> []) sessionIDs in
      if length sids = 0 then retE ()
      else modE (\<lambda>s. s\<lparr>s_closing := s_closing s @ [(correlationID, sids)]\<rparr>))"

definition closeSessions :: "(('r, 'u) sys, err, unit) prog" where
  "closeSessions = bindE job (\<lambda>j. closeLater (j_JobID j) (map d_SessionID (j_Documents j)))"

definition closeSession :: "('r, 'u) Orchestrator \<Rightarrow> string \<Rightarrow> string \<Rightarrow> (('r, 'u) sys, err, unit) prog" where
  "closeSession ob correlationID sessionID =
     (if sessionID = [] then retE () else ignE (onNet (CloseSession (o_signapi ob) correlationID sessionID)))"

text \<open>One started close run to its end, and all of them: what \<open>WaitClosing\<close> waits for.\<close>

definition run_close :: "('r, 'u) Orchestrator \<Rightarrow> string \<times> string list \<Rightarrow> (('r, 'u) sys, err, unit) prog" where
  "run_close ob task = forE (snd task) (closeSession ob (fst task))"

definition WaitClosing :: "('r, 'u) Orchestrator \<Rightarrow> (('r, 'u) sys, err, unit) prog" where
  "WaitClosing ob =
     bindE (getE s_closing) (\<lambda>tasks.
     bindE (forE tasks (run_close ob)) (\<lambda>_. modE (\<lambda>s. s\<lparr>s_closing := []\<rparr>)))"

section \<open>Library\<close>

lemma wp_onRedis [wp_rules]:
  "wp (onRedis m) Q E = (\<lambda>s. wp m (\<lambda>x r. Q x (s\<lparr>s_redis := r\<rparr>)) (\<lambda>e r. E e (s\<lparr>s_redis := r\<rparr>)) (s_redis s))"
  by (simp add: onRedis_def wp_rules)

lemma wp_onNet [wp_rules]:
  "wp (onNet m) Q E = (\<lambda>s. wp m (\<lambda>x n. Q x (s\<lparr>s_net := n\<rparr>)) (\<lambda>e n. E e (s\<lparr>s_net := n\<rparr>)) (s_net s))"
  by (simp add: onNet_def wp_rules)

lemma wp_job [wp_rules]: "wp job Q E = (\<lambda>s. Q (s_job s) s)"
  by (simp add: job_def wp_rules)

lemma wp_setJob [wp_rules]: "wp (setJob f) Q E = (\<lambda>s. Q () (s\<lparr>s_job := f (s_job s)\<rparr>))"
  by (simp add: setJob_def wp_rules)

lemma wp_metric [wp_rules]: "wp (metric m) Q E = (\<lambda>s. Q () (s\<lparr>s_metrics := s_metrics s @ [m]\<rparr>))"
  by (simp add: metric_def wp_rules)

text \<open>Which part of the state each part of the program touches.\<close>

lemma keeps_onNet [keeps_intros]: "(\<And>s n. f (s\<lparr>s_net := n\<rparr>) = f s) \<Longrightarrow> keeps f (onNet m)"
  by (simp add: onNet_def keeps_liftE)

lemma keeps_onRedis [keeps_intros]: "(\<And>s r. f (s\<lparr>s_redis := r\<rparr>) = f s) \<Longrightarrow> keeps f (onRedis m)"
  by (simp add: onRedis_def keeps_liftE)

lemma keeps_setJob [keeps_intros]: "(\<And>s. f (s\<lparr>s_job := g (s_job s)\<rparr>) = f s) \<Longrightarrow> keeps f (setJob g)"
  by (simp add: setJob_def keeps_modE)

lemma keeps_job [keeps_intros]: "keeps f job"
  by (simp add: job_def)

lemma keeps_metric [keeps_intros]: "(\<And>s ms. f (s\<lparr>s_metrics := ms\<rparr>) = f s) \<Longrightarrow> keeps f (metric m)"
  by (simp add: metric_def keeps_modE)

lemma time_frame:
  "wp (time ob) (\<lambda>_ s'. \<exists>n. s' = s\<lparr>s_net := n\<rparr> \<and> n_log n = n_log (s_net s)) (\<lambda>_ _. False) s"
  unfolding time_def wp_onNet by (rule wp_mono [OF now_frame]) auto

lemma sa_log_cong: "n_log n = n_log m \<Longrightarrow> sa_log n = sa_log m"
  by (simp add: sa_log_def)

text \<open>Reading the clock cannot fail and changes only the environment.\<close>

lemma wp_time: "(\<And>t n. n_log n = n_log (s_net s) \<Longrightarrow> Q t (s\<lparr>s_net := n\<rparr>)) \<Longrightarrow> wp (time ob) Q E s"
  by (rule wp_mono [OF time_frame]) auto

lemma wp_transitionJob:
  "(\<And>t n. n_log n = n_log (s_net s) \<Longrightarrow> Q () (s\<lparr>s_net := n, s_job := snd (Transition to t (s_job s))\<rparr>)) \<Longrightarrow>
     wp (transitionJob ob to) Q E s"
  unfolding transitionJob_def wp_rules by (rule wp_time) simp

lemma wp_failJob:
  "(\<And>t n. n_log n = n_log (s_net s) \<Longrightarrow> Q () (s\<lparr>s_net := n, s_job := Fail c m t (s_job s)\<rparr>)) \<Longrightarrow> wp (failJob ob c m) Q E s"
  unfolding failJob_def wp_rules by (rule wp_time) simp

subsection \<open>Digests\<close>

definition digested :: "(string \<Rightarrow> DigestResult option) \<Rightarrow> Document \<Rightarrow> Document \<Rightarrow> bool" where
  "digested f d d' \<longleftrightarrow> (\<exists>r. f (d_SessionID d) = Some r \<and> d' = with_digest r d)"

lemma with_digest_frame [simp]:
  "d_State (with_digest r d) = d_State d" "d_SessionID (with_digest r d) = d_SessionID d"
  "d_DocumentID (with_digest r d) = d_DocumentID d" "d_SignatureValue (with_digest r d) = d_SignatureValue d"
  "d_Error (with_digest r d) = d_Error d" "d_Digest (with_digest r d) = dr_Digest r"
  by (simp_all add: with_digest_def)

lemma digest_docs_ok:
  "digest_docs f ds acc = (None, ds', acc') \<Longrightarrow> list_all2 (digested f) ds ds'"
  by (induction f ds acc arbitrary: ds' rule: digest_docs.induct)
     (auto simp: digested_def split: option.splits prod.splits)

lemma digest_docs_frame:
  "digest_docs f ds acc = (e, ds', acc') \<Longrightarrow>
     map d_State ds' = map d_State ds \<and> map d_SessionID ds' = map d_SessionID ds \<and> map d_DocumentID ds' = map d_DocumentID ds \<and>
     map d_SignatureValue ds' = map d_SignatureValue ds \<and> map d_Error ds' = map d_Error ds"
  by (induction f ds acc arbitrary: ds' rule: digest_docs.induct) (auto split: option.splits prod.splits)

lemma by_session_in: "by_session rs sid = Some r \<Longrightarrow> r \<in> set rs \<and> dr_SessionID r = sid"
  unfolding by_session_def by (auto dest!: map_of_SomeD)

lemma apply_digests_frame:
  "apply_digests rs j = (e, j') \<Longrightarrow>
     j_JobID j' = j_JobID j \<and> j_State j' = j_State j \<and> j_Flow j' = j_Flow j \<and> j_OAuthState j' = j_OAuthState j \<and>
     map d_State (j_Documents j') = map d_State (j_Documents j) \<and> map d_SessionID (j_Documents j') = map d_SessionID (j_Documents j)"
  by (auto simp: apply_digests_def split: prod.splits dest: digest_docs_frame)

definition shares :: "DigestResult \<Rightarrow> DigestResult \<Rightarrow> bool" where
  "shares r r' \<longleftrightarrow> dr_DigestsSummary r' = dr_DigestsSummary r \<and> dr_Algorithm r' = dr_Algorithm r \<and>
     dr_SignatureAlgorithm r' = dr_SignatureAlgorithm r"

lemma with_shared_cong: "shares r r' \<Longrightarrow> with_shared r' acc = with_shared r acc"
  by (cases acc) (simp add: shares_def)

lemma with_shared_idem: "with_shared r (with_shared r acc) = with_shared r acc"
  by (cases acc) simp

lemma digest_docs_shared:
  assumes "\<And>sid r'. f sid = Some r' \<Longrightarrow> shares r r'"
  shows "digest_docs f ds acc = (None, ds', acc') \<Longrightarrow> ds \<noteq> [] \<Longrightarrow> acc' = with_shared r acc"
proof (induction ds arbitrary: acc ds' acc')
  case (Cons d ds)
  then obtain r' ds0 where r': "f (d_SessionID d) = Some r'" and rec: "digest_docs f ds (with_shared r' acc) = (None, ds0, acc')"
    by (auto split: option.splits prod.splits)
  have sh: "with_shared r' acc = with_shared r acc" using assms [OF r'] by (rule with_shared_cong)
  show ?case
  proof (cases "ds = []")
    case False
    with Cons.IH [OF rec] sh show ?thesis by (simp add: with_shared_idem)
  qed (use rec sh in simp)
qed simp

text \<open>What a digest calculation that succeeded put on the job, from the answer it got.\<close>

definition digests_applied :: "(string \<times> string) list \<Rightarrow> string \<Rightarrow> string \<Rightarrow> string \<Rightarrow> Job \<Rightarrow> Job \<Rightarrow> bool" where
  "digests_applied sds summ alg sa j j' \<longleftrightarrow>
     list_all2 (\<lambda>d d'. (d_SessionID d, d_Digest d') \<in> set sds \<and>
        d' = d\<lparr>d_Digest := d_Digest d', d_DigestAlgorithm := (if d_DigestAlgorithm d = [] then alg else d_DigestAlgorithm d)\<rparr>)
       (j_Documents j) (j_Documents j') \<and>
     j_SignAlgo j' = (if j_SignAlgo j = [] then sa else j_SignAlgo j) \<and>
     j_DigestsSummary j' = (if j_DigestsSummary j = [] then summ else j_DigestsSummary j) \<and>
     j_DigestsSummaryAlgo j' = (if j_DigestsSummary j = [] then alg else j_DigestsSummaryAlgo j)"

lemma apply_digests_applied:
  assumes rs: "rs = map (\<lambda>(sid, g). \<lparr>dr_SessionID = sid, dr_Digest = g, dr_DigestsSummary = summ, dr_Algorithm = alg, dr_SignatureAlgorithm = sa\<rparr>) sds"
    and ok: "apply_digests rs j = (None, j')" and ne: "j_Documents j \<noteq> []"
  shows "digests_applied sds summ alg sa j j'"
proof -
  obtain ds acc where dd: "digest_docs (by_session rs) (j_Documents j) (j_SignAlgo j, j_DigestsSummary j, j_DigestsSummaryAlgo j) = (None, ds, acc)"
    and j': "j' = j\<lparr>j_Documents := ds, j_SignAlgo := fst acc, j_DigestsSummary := fst (snd acc), j_DigestsSummaryAlgo := snd (snd acc)\<rparr>"
    using ok by (auto simp: apply_digests_def split: prod.splits)
  let ?r = "\<lparr>dr_SessionID = [], dr_Digest = [], dr_DigestsSummary = summ, dr_Algorithm = alg, dr_SignatureAlgorithm = sa\<rparr>"
  have known: "shares ?r r \<and> (sid, dr_Digest r) \<in> set sds" if "by_session rs sid = Some r" for sid r
    using by_session_in [OF that] by (auto simp: rs shares_def)
  have acc: "acc = with_shared ?r (j_SignAlgo j, j_DigestsSummary j, j_DigestsSummaryAlgo j)"
    using digest_docs_shared [OF _ dd ne, of ?r] known by blast
  have "list_all2 (\<lambda>d d'. (d_SessionID d, d_Digest d') \<in> set sds \<and>
        d' = d\<lparr>d_Digest := d_Digest d', d_DigestAlgorithm := (if d_DigestAlgorithm d = [] then alg else d_DigestAlgorithm d)\<rparr>)
       (j_Documents j) ds"
    using digest_docs_ok [OF dd]
    by (rule list_all2_mono) (use known in \<open>fastforce simp: digested_def with_digest_def shares_def\<close>)
  with acc show ?thesis by (simp add: digests_applied_def j')
qed

lemma calculateDigests_spec:
  assumes "signapi_client (o_signapi ob)"
  shows "wp (calculateDigests ob cert)
     (\<lambda>_ s'. \<exists>sds summ alg sa. digest_answer (o_signapi ob) (digest_request (s_job s) cert) (s_net s) (s_net s') sds summ alg sa \<and>
        digests_applied sds summ alg sa (s_job s) (s_job s'))
     (\<lambda>e s'. map d_SessionID (j_Documents (s_job s')) = map d_SessionID (j_Documents (s_job s))) s"
proof (cases "j_Documents (s_job s) = []")
  case True
  then show ?thesis unfolding calculateDigests_def by (simp add: wp_rules)
next
  case False
  show ?thesis
    unfolding calculateDigests_def
  proof (simp add: wp_rules False, rule wp_mono [OF signapi_client.CalculateDigest_log [OF assms]], goal_cases)
    case (1 rs w)
    then obtain sds summ alg sa where a: "digest_answer (o_signapi ob) (digest_request (s_job s) cert) (s_net s) w sds summ alg sa"
      and rs: "rs = map (\<lambda>(sid, g). \<lparr>dr_SessionID = sid, dr_Digest = g, dr_DigestsSummary = summ, dr_Algorithm = alg, dr_SignatureAlgorithm = sa\<rparr>) sds"
      by blast
    obtain e j' where ap: "apply_digests rs (s_job s) = (e, j')" by fastforce
    show ?case
    proof (cases e)
      case None
      with ap a apply_digests_applied [OF rs, of "s_job s" j'] False show ?thesis by (auto simp: wp_rules)
    next
      case (Some x)
      with ap apply_digests_frame [OF ap] show ?thesis by (simp add: wp_rules)
    qed
  qed simp
qed

subsection \<open>Finalize\<close>

definition normalized_pair :: "Document \<Rightarrow> string \<times> string \<Rightarrow> bool" where
  "normalized_pair d p \<longleftrightarrow> fst p = d_SessionID d \<and> (\<exists>was. NormalizeSignatureToDER (d_SignatureValue d) = Inr (snd p, was))"

lemma normalized_ok: "normalized ds = Inr ssv \<Longrightarrow> list_all2 normalized_pair ds ssv"
  by (induction ds arbitrary: ssv) (auto simp: normalized_pair_def split: sum.splits)

text \<open>
  What a finalize that succeeded did: one request, with every document's signature in DER under
  its session, in order, and the certificate of \<open>authCertFor\<close>, answered with a 2xx; then
  every document is ready and its signature value gone.
\<close>

definition finalized :: "('r, 'u) Orchestrator \<Rightarrow> ('r, 'u) sys \<Rightarrow> ('r, 'u) sys \<Rightarrow> bool" where
  "finalized ob s s' \<longleftrightarrow>
     (\<exists>cert src ssv x st b t. authCertFor (o_cfg ob) (s_job s) = (cert, src, True) \<and>
        list_all2 normalized_pair (j_Documents (s_job s)) ssv \<and>
        sa_log (s_net s') = sa_log (s_net s) @ [x] \<and>
        is_try (o_signapi ob) ''POST'' finalizePath
          (JsonBody (finalizeRequest_json \<lparr>fr_SessionSignatureValues = ssv, fr_AuthCertificate = cert\<rparr>)) x \<and>
        answered x = Some (st, b) \<and> st div 100 = 2 \<and>
        s_job s' = snd (Transition StateReady t ((s_job s)\<lparr>j_Documents := map mark_ready (j_Documents (s_job s))\<rparr>)))"

text \<open>A finalize that failed: the job is as it was, and at most one request was sent.\<close>

definition not_finalized :: "('r, 'u) Orchestrator \<Rightarrow> ('r, 'u) sys \<Rightarrow> err \<Rightarrow> ('r, 'u) sys \<Rightarrow> bool" where
  "not_finalized ob s e s' \<longleftrightarrow> s_job s' = s_job s \<and>
     (if snd (snd (authCertFor (o_cfg ob) (s_job s)))
      then sa_log (s_net s') = sa_log (s_net s) \<or> (\<exists>x. sa_log (s_net s') = sa_log (s_net s) @ [x])
      else e = ErrNoTimestampCert \<and> s_net s' = s_net s)"

lemma FinalizeSigning_log:
  assumes "signapi_client c"
  shows "wp (FinalizeSigning c corr req)
      (\<lambda>_ w'. \<exists>x st b. sa_log w' = sa_log w @ [x] \<and>
         is_try c ''POST'' finalizePath (JsonBody (finalizeRequest_json req)) x \<and> answered x = Some (st, b) \<and> st div 100 = 2)
      (\<lambda>e w'. sa_log w' = sa_log w \<or> (\<exists>x. sa_log w' = sa_log w @ [x])) w"
  unfolding FinalizeSigning_def
  by (rule wp_mono [OF signapi_client.doOnce_log [OF assms]])
     (auto simp: signapi_client.one_try_def [OF assms] simp del: split_paired_Ex)

lemma finalize_spec:
  assumes "signapi_client (o_signapi ob)"
  shows "wp (finalize ob) (\<lambda>_. finalized ob s) (not_finalized ob s) s"
proof -
  obtain cert src ok where ac: "authCertFor (o_cfg ob) (s_job s) = (cert, src, ok)" by (metis prod_cases3)
  show ?thesis
  proof (cases ok)
    case False
    then show ?thesis unfolding finalize_def by (simp add: wp_rules ac not_finalized_def)
  next
    case True
    show ?thesis
    proof (cases "normalized (j_Documents (s_job s))")
      case (Inl e)
      then show ?thesis unfolding finalize_def by (simp add: wp_rules ac not_finalized_def True)
    next
      case (Inr ssv)
      then have n: "list_all2 normalized_pair (j_Documents (s_job s)) ssv" by (rule normalized_ok)
      let ?req = "\<lparr>fr_SessionSignatureValues = ssv, fr_AuthCertificate = cert\<rparr>"
      have fin: "finalized ob s (s0\<lparr>s_net := n, s_job := snd (Transition StateReady t
            ((s_job s)\<lparr>j_Documents := map mark_ready (j_Documents (s_job s))\<rparr>))\<rparr>)"
        if "sa_log w = sa_log (s_net s) @ [x]" "is_try (o_signapi ob) ''POST'' finalizePath (JsonBody (finalizeRequest_json ?req)) x"
          "answered x = Some (st, b)" "st div 100 = 2" "n_log n = n_log w" for w x st b n t s0
        using that sa_log_cong [OF that(5)] ac True n unfolding finalized_def by fastforce
      show ?thesis
        unfolding finalize_def
        by (simp add: wp_rules ac True Inr, rule wp_mono [OF FinalizeSigning_log [OF assms]])
           (auto simp: not_finalized_def ac True intro!: wp_transitionJob intro: fin simp del: split_paired_Ex)
    qed
  qed
qed

lemma finalize_keeps_redis: "keeps s_redis (finalize ob)"
  unfolding finalize_def transitionJob_def time_def by (intro keeps_intros) simp_all

lemma finalized_documents:
  "finalized ob s s' \<Longrightarrow> j_Documents (s_job s') = map mark_ready (j_Documents (s_job s)) \<and> j_JobID (s_job s') = j_JobID (s_job s) \<and>
     (CanTransition (j_State (s_job s)) StateReady \<longrightarrow> j_State (s_job s') = StateReady)"
  by (auto simp: finalized_def Transition_state simp del: split_paired_Ex)

section \<open>Properties\<close>

text \<open>
  C11: \<open>finalize\<close> signs what it was given, once. When it succeeds, exactly one request went to
  the finalize path, carrying for every document, in order, its session and the DER form of
  its signature, and the certificate that \<open>authCertFor\<close> chose; it was answered with a 2xx;
  and only then is every document ready, its signature value cleared. When it fails, the job
  is as it was and at most one request was sent; with no certificate to ask for the timestamp
  with, it is refused without any request.
\<close>

theorem finalize_exact:
  assumes "signapi_client (o_signapi ob)"
  shows "wp (finalize ob) (\<lambda>_ s'. finalized ob s s' \<and> length (j_Documents (s_job s')) = length (j_Documents (s_job s)) \<and>
      list_all (\<lambda>d. d_State d = DocReady \<and> d_SignatureValue d = []) (j_Documents (s_job s'))) (not_finalized ob s) s"
  by (rule wp_mono [OF finalize_spec [OF assms]]) (auto dest!: finalized_documents simp: list_all_iff mark_ready_def)

text \<open>A concrete orchestrator for the witnesses: Redis in memory, scripted upstreams.\<close>

definition demo_csc :: "script csc" where
  "demo_csc = \<lparr>
     cs_NewPKCE = retE (''verifier'', ''challenge''),
     cs_CredentialRequest = (\<lambda>uri state pkce eid. JStr state),
     cs_SigningRequest = (\<lambda>uri state pkce eid cred digests oid. JStr state),
     cs_PushedAuthorize = (\<lambda>req. retE req),
     cs_AuthorizeURL = (\<lambda>par. case par of JStr t \<Rightarrow> ''https://csc/authorize?request_uri='' @ t | _ \<Rightarrow> []),
     cs_Token = (\<lambda>code uri verifier. if code = ''bad'' then failE (ErrOther ''invalid_grant'')
        else retE \<lparr>tk_AccessToken = ''sad'', tk_CredentialID = ''cred'', tk_Details = JStr code\<rparr>),
     cs_CredentialsInfo = (\<lambda>tok cred. retE (JStr cred)),
     cs_CredentialID = (\<lambda>c. case c of JStr t \<Rightarrow> t | _ \<Rightarrow> []),
     cs_CheckSigning = (\<lambda>c n t. None),
     cs_ErrCertificateValidity = ErrOther ''csc: certificate validity'',
     cs_LeafCertificate = (\<lambda>c. Inr [0x30, 0]),
     cs_SignAlgoFor = (\<lambda>c oid. Inr ''1.2.840.10045.4.3.2''),
     cs_Signing = (\<lambda>tok. Inr (tk_Details tok)),
     cs_Bound = (\<lambda>ds cred digests. if ds = JStr ''other'' then Some (ErrOther ''csc: not bound'') else None),
     cs_SignHash = (\<lambda>tok req. retE (JStr ''signatures'')),
     cs_Signature = (\<lambda>out i. Inr [0x30, 6, 2, 1, 5, 2, 1, 7]),
     cs_VerifySignature = (\<lambda>cert algo oid digest sig. None),
     cs_DigestLength = (\<lambda>oid. if oid = ''sha256'' then 32 else if oid = ''sha384'' then 48 else 64),
     cs_OIDSHA256 = ''sha256'', cs_OIDSHA384 = ''sha384'', cs_OIDSHA512 = ''sha512''\<rparr>"

definition demo_entrust_config :: EntrustConfig where
  "demo_entrust_config = \<lparr>x_BaseURL = ''https://eidas'', x_ASPath = ''/as'', x_ClientID = ''id'', x_ClientSecret = ''s'',
     x_RedirectURI = ''https://signer/callback'', x_ACRMobile = ''m'', x_ACREIDScan = ''e'', x_ACRCloudEseal = [],
     x_CSCBaseURL = [], x_CSCClientID = ''csc'', x_CSCClientSecret = ''s'', x_IdentityFetchRetries = 0,
     x_IdentityFetchDelay = 0, x_EarlyRefresh = 0\<rparr>"

definition demo_config :: Config where
  "demo_config = \<lparr>cf_DefaultSignatureQualifier = ''eu_eidas_qes'', cf_EIDScanPollInterval = 2, cf_EIDScanDeadline = 5,
     cf_TSAAccessCert = [], cf_TSAAccessCertFlows = \<lparr>fs_all = False, fs_flows = {}\<rparr>, cf_LegacyEIDEnabled = False\<rparr>"

definition demo :: "(mem_state, script) Orchestrator" where
  "demo = \<lparr>o_jobs = New mem_redis 0, o_signapi = fixed_client, o_entrust = NewEntrust demo_entrust_config script_env,
     o_csc = demo_csc, o_env = script_env, o_cfg = demo_config, o_polls = 10\<rparr>"

definition demo_sys :: "mem_state \<Rightarrow> (err + response) list \<Rightarrow> Job \<Rightarrow> (mem_state, script) sys" where
  "demo_sys r as j = \<lparr>s_redis = r, s_net = script_net as, s_closing = [], s_metrics = [], s_signhash = [], s_job = j\<rparr>"

definition demo_doc :: Document where
  "demo_doc = emptyDocument\<lparr>d_DocumentID := ''doc'', d_SessionID := ''sess'', d_SignatureValue := ''MAYCAQUCAQc=''\<rparr>"

definition demo_job :: Job where
  "demo_job = emptyJob\<lparr>j_JobID := ''J'', j_Flow := FlowWebEID, j_State := StateFinalizing, j_AuthCert := ''cert'',
     j_OAuthState := ''st'', j_Documents := [demo_doc]\<rparr>"

lemmas demo_defs = demo_def demo_sys_def demo_job_def demo_doc_def demo_config_def demo_entrust_config_def demo_csc_def
  emptyJob_def emptyDocument_def

lemma demo_signapi [simp]: "signapi_client (o_signapi demo)"
  by (simp add: demo_def fixed.signapi_client_axioms)

theorem finalize_exact_witness:
  "let s = demo_sys mem_empty [Inr (json_response 200 JNull)] demo_job in
   wp (finalize demo) (\<lambda>_ s'. finalized demo s s' \<and> j_State (s_job s') = StateReady) (\<lambda>_ _. False) s"
proof -
  let ?s = "demo_sys mem_empty [Inr (json_response 200 JNull)] demo_job"
  have "wp (finalize demo) (\<lambda>_ s'. j_State (s_job s') = StateReady) (\<lambda>_ _. False) ?s"
    by code_simp
  from wp_conj [OF this finalize_exact [OF demo_signapi, of ?s]]
  show ?thesis unfolding Let_def by (rule wp_mono) auto
qed

text \<open>
  C12: The digests a person signs are the provider's, unchanged. After a digest calculation
  that succeeded, every document carries the digest that the provider's answer gave for that
  document's session, and nothing else of the document has changed but the algorithm label
  it did not have; the job's signature algorithm and digests summary are the answer's, or the
  ones it already had. The answer is the one to the request for exactly the job's sessions
  and the given certificate. A failed calculation changes no session.
\<close>

theorem digests_verbatim:
  assumes "signapi_client (o_signapi ob)"
  shows "wp (calculateDigests ob cert)
     (\<lambda>_ s'. \<exists>sds summ alg sa. digest_answer (o_signapi ob) (digest_request (s_job s) cert) (s_net s) (s_net s') sds summ alg sa \<and>
        digests_applied sds summ alg sa (s_job s) (s_job s'))
     (\<lambda>e s'. map d_SessionID (j_Documents (s_job s')) = map d_SessionID (j_Documents (s_job s))) s"
  by (rule calculateDigests_spec [OF assms])

definition demo_digests :: json where
  "demo_digests = JObj [(''data'', JObj [(''sessionDigests'', JArr [JObj [(''sessionId'', JStr ''sess''), (''digest'', JStr ''ZGln'')]]),
     (''digests_summary'', JStr ''sum''), (''algorithm'', JStr ''SHA256''), (''signature_algorithm'', JStr ''ecdsa'')])]"

theorem digests_verbatim_witness:
  "let s = demo_sys mem_empty [Inr (json_response 503 JNull), Inr (json_response 200 demo_digests)] demo_job in
   wp (calculateDigests demo ''cert'')
     (\<lambda>_ s'. map d_Digest (j_Documents (s_job s')) = [''ZGln''] \<and>
        (\<exists>sds summ alg sa. digests_applied sds summ alg sa (s_job s) (s_job s'))) (\<lambda>_ _. False) s"
proof -
  let ?s = "demo_sys mem_empty [Inr (json_response 503 JNull), Inr (json_response 200 demo_digests)] demo_job"
  have "wp (calculateDigests demo ''cert'') (\<lambda>_ s'. map d_Digest (j_Documents (s_job s')) = [''ZGln'']) (\<lambda>_ _. False) ?s"
    by code_simp
  from wp_conj [OF this digests_verbatim [OF demo_signapi, of "''cert''" ?s]]
  show ?thesis unfolding Let_def by (rule wp_mono) auto
qed

end
