(* ===== verification/Flows.thy ===== *)
theory Flows
  imports Spine
begin

text \<open>
  \<^verbatim>\<open>signing/flows.go\<close> and \<^verbatim>\<open>signing/csc.go\<close>: the strategies behind a job's flow, the local
  card (\<open>eidFlow\<close>), the platform's three variants (\<open>txFlow\<close>) and the CSC flows
  (\<open>cscFlow\<close>), each with its capabilities, its authorization, its callbacks and its signing
  step, and the dispatch of the \<open>Flow\<close> interface over them. The device poll of
  \<open>signDevice\<close> runs until the provider answers or its deadline has passed; the model
  bounds its rounds by \<open>o_polls\<close>, and the last section shows that the bound is never met
  when it covers the deadline.
\<close>

section \<open>The strategies\<close>

datatype txVariant = txMobile | txEIDScan | txCloudEseal

datatype FlowImpl = eidFlow Flow | txFlow txVariant | cscFlow Flow EIDFlow

definition flows :: "Flow \<Rightarrow> FlowImpl option" where
  "flows f =
     (if f = FlowWebEID then Some (eidFlow FlowWebEID)
      else if f = FlowLegacyEID then Some (eidFlow FlowLegacyEID)
      else if f = FlowCSCEidScan then Some (cscFlow FlowCSCEidScan EIDScan)
      else if f = FlowCSCEidPlugin then Some (cscFlow FlowCSCEidPlugin CardOnComputer)
      else if f = FlowEParakstsMobile then Some (txFlow txMobile)
      else if f = FlowEIDScan then Some (txFlow txEIDScan)
      else if f = FlowEParakstsMobileEseal then Some (txFlow txCloudEseal)
      else None)"

fun flow_Type :: "FlowImpl \<Rightarrow> Flow" where
  "flow_Type (eidFlow f) = f"
| "flow_Type (txFlow v) = (case v of txEIDScan \<Rightarrow> FlowEIDScan | txCloudEseal \<Rightarrow> FlowEParakstsMobileEseal
     | txMobile \<Rightarrow> FlowEParakstsMobile)"
| "flow_Type (cscFlow f e) = f"

definition no_capabilities :: Capabilities where
  "no_capabilities = \<lparr>ca_SupportsBatch = False, ca_UsesDigestSummary = False, ca_ClientSide = False,
     ca_DevicePush = False, ca_SingleSessionOnly = False, ca_Level = []\<rparr>"

fun flow_Capabilities :: "FlowImpl \<Rightarrow> Capabilities" where
  "flow_Capabilities (eidFlow f) = no_capabilities\<lparr>ca_SupportsBatch := True, ca_ClientSide := True, ca_Level := ''QES''\<rparr>"
| "flow_Capabilities (txFlow v) = (case v of
     txEIDScan \<Rightarrow> no_capabilities\<lparr>ca_UsesDigestSummary := True, ca_DevicePush := True, ca_SingleSessionOnly := True, ca_Level := ''QES''\<rparr>
   | txCloudEseal \<Rightarrow> no_capabilities\<lparr>ca_SupportsBatch := True, ca_UsesDigestSummary := True, ca_Level := ''SEAL''\<rparr>
   | txMobile \<Rightarrow> no_capabilities\<lparr>ca_SupportsBatch := True, ca_UsesDigestSummary := True, ca_Level := ''QES''\<rparr>)"
| "flow_Capabilities (cscFlow f e) = no_capabilities\<lparr>ca_SupportsBatch := True, ca_Level := ''QES''\<rparr>"

section \<open>The platform's flows\<close>

definition acr :: "('r, 'u) Orchestrator \<Rightarrow> txVariant \<Rightarrow> string" where
  "acr ob v = ACRForFlow (o_entrust ob) (v = txEIDScan) (v = txCloudEseal)"

text \<open>A new state for the signature authorization, and its URL: the end of both ways to it.\<close>

definition begin_sign_leg :: "('r, 'u) Orchestrator \<Rightarrow> txVariant \<Rightarrow> (('r, 'u) sys, err, string) prog" where
  "begin_sign_leg ob v =
     bindE (newState ob) (\<lambda>state.
     bindE (setJob (\<lambda>j. j\<lparr>j_OAuthState := state, j_PendingLeg := LegSign\<rparr>)) (\<lambda>_.
     bindE job (\<lambda>j.
     retE (SignAuthorizeURL (o_entrust ob) \<lparr>sp_State = state, sp_ACRValues = acr ob v, sp_UILocales = j_Locale j,
        sp_SignIdentityID = j_SignIdentityID j, sp_DigestsSummary = j_DigestsSummary j,
        sp_DigestsSummaryAlgorithm = j_DigestsSummaryAlgo j, sp_UseDevice = (v = txEIDScan)\<rparr>))))"

definition beginSuppliedIdentity :: "('r, 'u) Orchestrator \<Rightarrow> txVariant \<Rightarrow> (('r, 'u) sys, err, string) prog" where
  "beginSuppliedIdentity ob v =
     bindE (setJob (\<lambda>j. j\<lparr>j_SubjectRef := certSubject (o_env ob) (j_SigningCert j)\<rparr>)) (\<lambda>_.
     bindE job (\<lambda>j.
     bindE (calculateDigests ob (j_SigningCert j)) (\<lambda>_.
     begin_sign_leg ob v)))"

definition tx_BeginAuthorization :: "('r, 'u) Orchestrator \<Rightarrow> txVariant \<Rightarrow> (('r, 'u) sys, err, string) prog" where
  "tx_BeginAuthorization ob v =
     bindE job (\<lambda>j.
     if j_SignIdentityID j \<noteq> [] \<and> j_SigningCert j \<noteq> [] \<and> j_AuthCert j \<noteq> [] then beginSuppliedIdentity ob v
     else
       bindE (newState ob) (\<lambda>state.
       bindE (setJob (\<lambda>j. j\<lparr>j_OAuthState := state, j_PendingLeg := LegProfile\<rparr>)) (\<lambda>_.
       retE (ProfileAuthorizeURL (o_entrust ob) state (acr ob v) (j_Locale j)))))"

definition select_signing :: "txVariant \<Rightarrow> SignIdentity list \<Rightarrow> string \<Rightarrow> err + SignIdentity" where
  "select_signing v ids sealID = (case v of txEIDScan \<Rightarrow> SelectEIDScanSigning ids
     | txCloudEseal \<Rightarrow> SelectSealSigning ids sealID | txMobile \<Rightarrow> SelectMobileSigning ids)"

text \<open>\<^verbatim>\<open>j.F, err = m\<close>: the field is set either way, to the zero value with an error.\<close>

definition fetch_into :: "(string \<Rightarrow> Job \<Rightarrow> Job) \<Rightarrow> (('r, 'u) sys, err, string) prog \<Rightarrow> (('r, 'u) sys, err, string) prog" where
  "fetch_into put m =
     bindE (tryE m) (\<lambda>r. bindE (setJob (put (case r of Inl _ \<Rightarrow> [] | Inr x \<Rightarrow> x))) (\<lambda>_. ofsumE r))"

definition advanceProfile :: "('r, 'u) Orchestrator \<Rightarrow> txVariant \<Rightarrow> string \<Rightarrow> (('r, 'u) sys, err, string \<times> bool) prog" where
  "advanceProfile ob v code =
     bindE (onNet (Exchange (o_entrust ob) code)) (\<lambda>profileToken.
     bindE (setJob (\<lambda>j. j\<lparr>j_ProfileToken := profileToken\<rparr>)) (\<lambda>_.
     bindE (onNet (UsersMe (o_entrust ob) profileToken)) (\<lambda>ids.
     bindE job (\<lambda>j.
     bindE (ofsumE (select_signing v ids (j_SealID j))) (\<lambda>signIdent.
     bindE (setJob (\<lambda>j. j\<lparr>j_SignIdentityID := si_ID signIdent\<rparr>)) (\<lambda>_.
     bindE (fetch_into (\<lambda>x j. j\<lparr>j_SigningCert := x\<rparr>)
              (onNet (SignIdentityCert (o_entrust ob) profileToken (si_ID signIdent)))) (\<lambda>cert.
     bindE (setJob (\<lambda>j. j\<lparr>j_SubjectRef := certSubject (o_env ob) cert\<rparr>)) (\<lambda>_.
     bindE (ofsumE (SelectAuthIdentity ids (v = txEIDScan))) (\<lambda>authID.
     bindE (fetch_into (\<lambda>x j. j\<lparr>j_AuthCert := x\<rparr>)
              (onNet (SignIdentityCert (o_entrust ob) profileToken (si_ID authID)))) (\<lambda>_.
     bindE (calculateDigests ob cert) (\<lambda>_.
     bindE (begin_sign_leg ob v) (\<lambda>url. retE (url, False)))))))))))))"

definition unexpected_leg :: "OAuthLeg \<Rightarrow> err" where
  "unexpected_leg l = ErrOther (''signing: unexpected callback leg '' @ show_nat (nat (leg_num l)))"

definition tx_AdvanceCallback :: "('r, 'u) Orchestrator \<Rightarrow> txVariant \<Rightarrow> string \<Rightarrow> (('r, 'u) sys, err, string \<times> bool) prog" where
  "tx_AdvanceCallback ob v code =
     bindE job (\<lambda>j. case j_PendingLeg j of
       LegProfile \<Rightarrow> advanceProfile ob v code
     | LegSign \<Rightarrow>
         bindE (onNet (Exchange (o_entrust ob) code)) (\<lambda>token.
         bindE (setJob (\<lambda>j. j\<lparr>j_SigningToken := token, j_PendingLeg := LegNone\<rparr>)) (\<lambda>_. retE ([], True)))
     | _ \<Rightarrow> failE (unexpected_leg (j_PendingLeg j)))"

definition signServerBatch :: "('r, 'u) Orchestrator \<Rightarrow> (('r, 'u) sys, err, unit) prog" where
  "signServerBatch ob =
     bindE job (\<lambda>j.
     let reqs = map (\<lambda>d. (d_Digest d, j_SignAlgo j)) (j_Documents j) in
     bindE (onNet (ServerRawBatch (o_entrust ob) (j_SigningToken j) (j_SignIdentityID j) (j_SignAlgo j) reqs)) (\<lambda>sigs.
     if length sigs \<noteq> length (j_Documents j) then
       failE (ErrOther (''signing: server/raw returned '' @ show_nat (length sigs) @ '' signatures for '' @
                show_nat (length (j_Documents j)) @ '' documents''))
     else setJob (\<lambda>j. j\<lparr>j_Documents := map2 (\<lambda>d sig. d\<lparr>d_SignatureValue := sig\<rparr>) (j_Documents j) sigs\<rparr>)))"

definition digestAlgoFor :: "string \<Rightarrow> string" where
  "digestAlgoFor digestB64 =
     (case b64_decode digestB64 of None \<Rightarrow> ''sha256''
      | Some b \<Rightarrow> if length b = 48 then ''sha384'' else if length b = 64 then ''sha512'' else ''sha256'')"

definition out_of_rounds :: err where
  "out_of_rounds = ErrOther ''the poll ran out of rounds''"

text \<open>The rounds of the poll that are left; \<open>out_of_rounds\<close> is an error of the model alone.\<close>

fun poll_device :: "('r, 'u) Orchestrator \<Rightarrow> string \<Rightarrow> string \<Rightarrow> int \<Rightarrow> nat \<Rightarrow> (('r, 'u) sys, err, string) prog" where
  "poll_device ob token sigID grace 0 = failE out_of_rounds"
| "poll_device ob token sigID grace (Suc n) =
     bindE (tryE (onNet (PollDeviceResult (o_entrust ob) token sigID))) (\<lambda>res.
     let again =
       bindE (time ob) (\<lambda>t.
       if t > grace then failE (ErrOther ''signing:device_timeout'')
       else bindE (onNet (onEnv (e_wait (o_env ob) (cf_EIDScanPollInterval (o_cfg ob))))) (\<lambda>_.
              poll_device ob token sigID grace n)) in
     case res of
       Inl e \<Rightarrow> again
     | Inr (status, val) \<Rightarrow>
         if status = ''finished'' then retE val
         else if status = ''failed'' then failE (ErrOther ''signing:device_failed'')
         else if status = ''canceled'' \<or> status = ''cancelled'' then failE (ErrOther ''signing:device_canceled'')
         else again)"

definition device_message :: string where "device_message = ''Confirm signing in eParaksts''"

definition unix_milli :: "int \<Rightarrow> int" where "unix_milli t = t div 1000000"

definition signDevice :: "('r, 'u) Orchestrator \<Rightarrow> (('r, 'u) sys, err, unit) prog" where
  "signDevice ob =
     bindE job (\<lambda>j.
     if length (j_Documents j) \<noteq> 1 then failE ErrBatchUnsupport
     else
       let d = hd (j_Documents j) in
       bindE (ofsumE (VerificationCode (d_Digest d))) (\<lambda>code.
       bindE (time ob) (\<lambda>t.
       let deadline = t + cf_EIDScanDeadline (o_cfg ob) in
       bindE (setJob (\<lambda>j. j\<lparr>j_VerificationCode := code, j_VerificationMessage := device_message,
                j_SigningDeadline := unix_milli deadline\<rparr>)) (\<lambda>_.
       bindE (saveJob ob) (\<lambda>_.
       bindE (onNet (DeviceRaw (o_entrust ob) (j_SigningToken j) (j_SignIdentityID j) (d_Digest d)
                (digestAlgoFor (d_Digest d)) code device_message (unix_milli deadline))) (\<lambda>sigID.
       finallyE
         (bindE (poll_device ob (j_SigningToken j) sigID (deadline + secs 10) (o_polls ob)) (\<lambda>val.
          setJob (update_doc 0 (\<lambda>d. d\<lparr>d_SignatureValue := val\<rparr>))))
         (onNet (DeleteSignature (o_entrust ob) (j_SigningToken j) sigID))))))))"

definition tx_Sign :: "('r, 'u) Orchestrator \<Rightarrow> txVariant \<Rightarrow> (('r, 'u) sys, err, unit) prog" where
  "tx_Sign ob v = (if v = txEIDScan then signDevice ob else signServerBatch ob)"

section \<open>The CSC flows\<close>

definition cscSignMargin :: int where "cscSignMargin = secs 120"

definition csc_newRequest :: "('r, 'u) Orchestrator \<Rightarrow> (('r, 'u) sys, err, string \<times> string) prog" where
  "csc_newRequest ob =
     bindE (newState ob) (\<lambda>state.
     bindE (onNet (onEnv (cs_NewPKCE (o_csc ob)))) (\<lambda>pkce.
     bindE (setJob (\<lambda>j. j\<lparr>j_OAuthState := state, j_PKCEVerifier := fst pkce\<rparr>)) (\<lambda>_. retE pkce)))"

definition csc_push :: "('r, 'u) Orchestrator \<Rightarrow> json \<Rightarrow> (('r, 'u) sys, err, string) prog" where
  "csc_push ob req =
     bindE (onNet (onEnv (cs_PushedAuthorize (o_csc ob) req))) (\<lambda>par. retE (cs_AuthorizeURL (o_csc ob) par))"

definition csc_BeginAuthorization :: "('r, 'u) Orchestrator \<Rightarrow> EIDFlow \<Rightarrow> (('r, 'u) sys, err, string) prog" where
  "csc_BeginAuthorization ob eid =
     bindE (csc_newRequest ob) (\<lambda>pkce.
     bindE (setJob (\<lambda>j. j\<lparr>j_PendingLeg := LegCredential\<rparr>)) (\<lambda>_.
     bindE job (\<lambda>j.
     csc_push ob (cs_CredentialRequest (o_csc ob) (CSCRedirectURI (o_entrust ob)) (j_OAuthState j) pkce eid))))"

text \<open>The last of the three candidates with the digest's length, as the inner loop leaves it.\<close>

definition oid_of_length :: "'u csc \<Rightarrow> nat \<Rightarrow> string" where
  "oid_of_length c n =
     fold (\<lambda>candidate oid. if cs_DigestLength c candidate = n then candidate else oid)
       [cs_OIDSHA256 c, cs_OIDSHA384 c, cs_OIDSHA512 c] []"

fun digest_oid_from :: "'u csc \<Rightarrow> string \<Rightarrow> bytes list \<Rightarrow> err + string" where
  "digest_oid_from c oid [] = Inr oid"
| "digest_oid_from c oid (d # ds) =
     (let k = oid_of_length c (length d) in
      if k = [] then Inl (ErrOther (''signing: a '' @ show_nat (length d) @ ''-byte digest names no SHA-2 algorithm''))
      else if oid \<noteq> [] \<and> k \<noteq> oid then Inl (ErrOther ''signing: the batch mixes digest algorithms'')
      else digest_oid_from c k ds)"

definition digestAlgorithmOID :: "'u csc \<Rightarrow> bytes list \<Rightarrow> err + string" where
  "digestAlgorithmOID c digests =
     (if digests = [] then Inl (ErrOther ''signing: no digests'') else digest_oid_from c [] digests)"

definition optE :: "err option \<Rightarrow> ('s, err, unit) prog" where
  "optE e = (case e of None \<Rightarrow> retE () | Some x \<Rightarrow> failE x)"

definition jobDigests :: "(('r, 'u) sys, err, bytes list) prog" where
  "jobDigests = bindE job (\<lambda>j. ofsumE (Digests j))"

definition advanceCredential :: "('r, 'u) Orchestrator \<Rightarrow> EIDFlow \<Rightarrow> TokenResponse \<Rightarrow> (('r, 'u) sys, err, string \<times> bool) prog" where
  "advanceCredential ob eid tok =
     (if tk_CredentialID tok = [] then failE (ErrOther ''signing: the credential registration named no credential'')
      else
        let c = o_csc ob in
        bindE (onNet (onEnv (cs_CredentialsInfo c (tk_AccessToken tok) (tk_CredentialID tok)))) (\<lambda>cred.
        bindE job (\<lambda>j.
        bindE (time ob) (\<lambda>t.
        bindE (optE (map_option (\<lambda>e. if err_is e (cs_ErrCertificateValidity c) then ErrBoth ErrCSCCredentialExpiring '': '' e else e)
                 (cs_CheckSigning c cred (length (j_Documents j)) (t + cscSignMargin)))) (\<lambda>_.
        bindE (ofsumE (cs_LeafCertificate c cred)) (\<lambda>leaf.
        let cert = b64_encode leaf in
        bindE (setJob (\<lambda>j. j\<lparr>j_CredentialID := cs_CredentialID c cred, j_SigningCert := cert,
                 j_SubjectRef := certSubject (o_env ob) cert\<rparr>)) (\<lambda>_.
        bindE (calculateDigests ob cert) (\<lambda>_.
        bindE jobDigests (\<lambda>digests.
        bindE (ofsumE (digestAlgorithmOID c digests)) (\<lambda>hashOID.
        bindE (ofsumE (cs_SignAlgoFor c cred hashOID)) (\<lambda>algo.
        bindE (setJob (\<lambda>j. j\<lparr>j_HashAlgorithmOID := hashOID, j_SignAlgo := algo\<rparr>)) (\<lambda>_.
        bindE (csc_newRequest ob) (\<lambda>pkce.
        bindE (setJob (\<lambda>j. j\<lparr>j_PendingLeg := LegSign\<rparr>)) (\<lambda>_.
        bindE job (\<lambda>j.
        bindE (csc_push ob (cs_SigningRequest c (CSCRedirectURI (o_entrust ob)) (j_OAuthState j) pkce eid
                 (j_CredentialID j) digests hashOID)) (\<lambda>url.
        retE (url, False)))))))))))))))))"

definition csc_AdvanceCallback :: "('r, 'u) Orchestrator \<Rightarrow> EIDFlow \<Rightarrow> string \<Rightarrow> (('r, 'u) sys, err, string \<times> bool) prog" where
  "csc_AdvanceCallback ob eid code =
     bindE job (\<lambda>j0.
     bindE (tryE (onNet (onEnv (cs_Token (o_csc ob) code (CSCRedirectURI (o_entrust ob)) (j_PKCEVerifier j0))))) (\<lambda>r.
     bindE (setJob (\<lambda>j. j\<lparr>j_PKCEVerifier := []\<rparr>)) (\<lambda>_.
     bindE (ofsumE r) (\<lambda>tok.
     case j_PendingLeg j0 of
       LegCredential \<Rightarrow> advanceCredential ob eid tok
     | LegSign \<Rightarrow>
         bindE (ofsumE (cs_Signing (o_csc ob) tok)) (\<lambda>ds.
         bindE jobDigests (\<lambda>digests.
         bindE (optE (map_option (ErrBoth ErrCSCNotBound '': '') (cs_Bound (o_csc ob) ds (j_CredentialID j0) digests))) (\<lambda>_.
         bindE (setJob (\<lambda>j. j\<lparr>j_SigningToken := tk_AccessToken tok, j_PendingLeg := LegNone\<rparr>)) (\<lambda>_.
         retE ([], True)))))
     | _ \<Rightarrow> failE (unexpected_leg (j_PendingLeg j0))))))"

text \<open>The signatures of one answer, verified one after another and put on the documents.\<close>

definition take_signature :: "('r, 'u) Orchestrator \<Rightarrow> bytes \<Rightarrow> json \<Rightarrow> bytes list \<Rightarrow> nat \<Rightarrow> (('r, 'u) sys, err, unit) prog" where
  "take_signature ob cert out digests i =
     bindE (ofsumE (cs_Signature (o_csc ob) out i)) (\<lambda>sig.
     bindE job (\<lambda>j.
     bindE (optE (map_option (ErrPre (''document '' @ quoted (d_DocumentID (j_Documents j ! i)) @ '': ''))
              (cs_VerifySignature (o_csc ob) cert (j_SignAlgo j) (j_HashAlgorithmOID j) (digests ! i) sig))) (\<lambda>_.
     setJob (update_doc i (\<lambda>d. d\<lparr>d_SignatureValue := b64_encode sig\<rparr>)))))"

definition cert_error :: "err \<Rightarrow> err" where
  "cert_error e = ErrPre ''signing: the credential certificate: '' e"

definition csc_certificate :: "'u env \<Rightarrow> string \<Rightarrow> err + bytes" where
  "csc_certificate e b64 =
     (case b64_decode b64 of None \<Rightarrow> Inl (cert_error bad_base64)
      | Some der \<Rightarrow> (case e_subject e der of None \<Rightarrow> Inl (cert_error (ErrOther ''x509: malformed certificate''))
                     | Some _ \<Rightarrow> Inr der))"

definition signHash :: "('r, 'u) Orchestrator \<Rightarrow> string \<Rightarrow> SignHashRequest \<Rightarrow> (('r, 'u) sys, err, json) prog" where
  "signHash ob token req =
     bindE (modE (\<lambda>s. s\<lparr>s_signhash := s_signhash s @ [(token, req)]\<rparr>)) (\<lambda>_.
     onNet (onEnv (cs_SignHash (o_csc ob) token req)))"

definition csc_Sign :: "('r, 'u) Orchestrator \<Rightarrow> (('r, 'u) sys, err, unit) prog" where
  "csc_Sign ob =
     bindE jobDigests (\<lambda>digests.
     bindE job (\<lambda>j.
     bindE (ofsumE (csc_certificate (o_env ob) (j_SigningCert j))) (\<lambda>cert.
     bindE (tryE (signHash ob (j_SigningToken j)
              \<lparr>sh_CredentialID = j_CredentialID j, sh_Hashes = digests, sh_HashAlgorithmOID = j_HashAlgorithmOID j,
               sh_SignAlgo = j_SignAlgo j\<rparr>)) (\<lambda>r.
     bindE (setJob (\<lambda>j. j\<lparr>j_SigningToken := []\<rparr>)) (\<lambda>_.
     bindE (ofsumE r) (\<lambda>out.
     forE [0..<length (j_Documents j)] (take_signature ob cert out digests)))))))"

section \<open>The Flow interface\<close>

fun BeginAuthorization :: "('r, 'u) Orchestrator \<Rightarrow> FlowImpl \<Rightarrow> (('r, 'u) sys, err, string) prog" where
  "BeginAuthorization ob (eidFlow f) = failE (ErrOther ''signing: eid is client-side (no authorization)'')"
| "BeginAuthorization ob (txFlow v) = tx_BeginAuthorization ob v"
| "BeginAuthorization ob (cscFlow f e) = csc_BeginAuthorization ob e"

fun AdvanceCallback :: "('r, 'u) Orchestrator \<Rightarrow> FlowImpl \<Rightarrow> string \<Rightarrow> (('r, 'u) sys, err, string \<times> bool) prog" where
  "AdvanceCallback ob (eidFlow f) code = failE (ErrOther ''signing: eid has no callback'')"
| "AdvanceCallback ob (txFlow v) code = tx_AdvanceCallback ob v code"
| "AdvanceCallback ob (cscFlow f e) code = csc_AdvanceCallback ob e code"

fun Sign :: "('r, 'u) Orchestrator \<Rightarrow> FlowImpl \<Rightarrow> (('r, 'u) sys, err, unit) prog" where
  "Sign ob (eidFlow f) = failE (ErrOther ''signing: eid signatures are submitted by the client'')"
| "Sign ob (txFlow v) = tx_Sign ob v"
| "Sign ob (cscFlow f e) = csc_Sign ob"

section \<open>What the flows leave alone\<close>

text \<open>The part of the job no flow changes: its id, flow and state, and its documents' ids, sessions and states.\<close>

definition doc_core :: "Document \<Rightarrow> string \<times> string \<times> DocState" where
  "doc_core d = (d_DocumentID d, d_SessionID d, d_State d)"

definition core :: "('r, 'u) sys \<Rightarrow> string \<times> Flow \<times> JobState \<times> (string \<times> string \<times> DocState) list" where
  "core s = (j_JobID (s_job s), j_Flow (s_job s), j_State (s_job s), map doc_core (j_Documents (s_job s)))"

lemma core_frame [simp]:
  "core (s\<lparr>s_net := n\<rparr>) = core s" "core (s\<lparr>s_redis := r\<rparr>) = core s" "core (s\<lparr>s_metrics := m\<rparr>) = core s"
  "core (s\<lparr>s_signhash := h\<rparr>) = core s" "core (s\<lparr>s_closing := c\<rparr>) = core s"
  by (simp_all add: core_def)

lemma core_update_doc: "(\<And>d. doc_core (f d) = doc_core d) \<Longrightarrow> core (s\<lparr>s_job := update_doc i f (s_job s)\<rparr>) = core s"
  by (cases "i < length (j_Documents (s_job s))")
     (auto simp: core_def update_doc_def map_update list_update_beyond intro!: nth_equalityI simp: nth_list_update)

lemma keeps_calculateDigests:
  assumes "\<And>s n. f (s\<lparr>s_net := n\<rparr>) = f s" and "\<And>s e j' rs. apply_digests rs (s_job s) = (e, j') \<Longrightarrow> f (s\<lparr>s_job := j'\<rparr>) = f s"
  shows "keeps f (calculateDigests ob cert)"
proof -
  have upd: "f (s\<lparr>s_net := n, s_job := j'\<rparr>) = f s" if "apply_digests rs (s_job s) = (e, j')" for rs e j' n s
    using assms(2) [where s = "s\<lparr>s_net := n\<rparr>"] assms(1) [where s = s and n = n] that by simp
  show ?thesis
    unfolding keeps_def calculateDigests_def job_def setJob_def onNet_def
    by (auto simp: run_defs assms(1) dest: upd split: prod.split sum.split option.split)
qed

lemma digest_docs_core: "digest_docs f ds acc = (e, ds', acc') \<Longrightarrow> map doc_core ds' = map doc_core ds"
  by (induction f ds acc arbitrary: ds' rule: digest_docs.induct) (auto simp: doc_core_def split: option.splits prod.splits)

lemma apply_digests_core: "apply_digests rs j = (e, j') \<Longrightarrow> map doc_core (j_Documents j') = map doc_core (j_Documents j)"
  by (auto simp: apply_digests_def split: prod.splits dest: digest_docs_core)

lemma keeps_core_digests [keeps_intros]: "keeps core (calculateDigests ob cert)"
  by (rule keeps_calculateDigests) (auto simp: core_def dest: apply_digests_frame apply_digests_core)

lemma keeps_redis_digests [keeps_intros]: "keeps s_redis (calculateDigests ob cert)"
  by (rule keeps_calculateDigests) simp_all

lemma keeps_optE [keeps_intros]: "keeps f (optE e)"
  by (simp add: optE_def split: option.split)

lemmas flow_defs = newState_def begin_sign_leg_def beginSuppliedIdentity_def tx_BeginAuthorization_def fetch_into_def
  advanceProfile_def tx_AdvanceCallback_def signServerBatch_def csc_newRequest_def csc_push_def csc_BeginAuthorization_def
  jobDigests_def advanceCredential_def csc_AdvanceCallback_def take_signature_def signHash_def csc_Sign_def

lemma keeps_case_leg [keeps_intros]:
  "keeps f a \<Longrightarrow> keeps f b \<Longrightarrow> keeps f c \<Longrightarrow> keeps f d \<Longrightarrow>
     keeps f (case l of LegNone \<Rightarrow> a | LegProfile \<Rightarrow> b | LegSign \<Rightarrow> c | LegCredential \<Rightarrow> d)"
  by (cases l) auto

lemma keeps_core_doc [keeps_intros]: "(\<And>d. doc_core (f d) = doc_core d) \<Longrightarrow> keeps core (setJob (update_doc i f))"
  by (intro keeps_setJob core_update_doc)

lemma keeps_signHash_calls [keeps_intros]:
  "(\<And>s h. f (s\<lparr>s_signhash := h\<rparr>) = f s) \<Longrightarrow> (\<And>s n. f (s\<lparr>s_net := n\<rparr>) = f s) \<Longrightarrow> keeps f (signHash ob tok req)"
  unfolding signHash_def by (intro keeps_intros)

lemma begin_keeps:
  "keeps core (tx_BeginAuthorization ob v)" "keeps core (csc_BeginAuthorization ob e)"
  "keeps s_redis (tx_BeginAuthorization ob v)" "keeps s_redis (csc_BeginAuthorization ob e)"
  unfolding tx_BeginAuthorization_def beginSuppliedIdentity_def begin_sign_leg_def newState_def
    csc_BeginAuthorization_def csc_newRequest_def csc_push_def
  by (intro keeps_intros; simp add: core_def)+

lemma advance_keeps:
  "keeps core (tx_AdvanceCallback ob v code)" "keeps core (csc_AdvanceCallback ob e code)"
  "keeps s_redis (tx_AdvanceCallback ob v code)" "keeps s_redis (csc_AdvanceCallback ob e code)"
  unfolding tx_AdvanceCallback_def advanceProfile_def fetch_into_def begin_sign_leg_def newState_def
    csc_AdvanceCallback_def advanceCredential_def csc_newRequest_def csc_push_def jobDigests_def time_def
  by (intro keeps_intros; simp add: core_def)+

lemma BeginAuthorization_keeps: "keeps core (BeginAuthorization ob fl)" "keeps s_redis (BeginAuthorization ob fl)"
  by (cases fl; simp add: begin_keeps)+

lemma AdvanceCallback_keeps: "keeps core (AdvanceCallback ob fl code)" "keeps s_redis (AdvanceCallback ob fl code)"
  by (cases fl; simp add: advance_keeps)+

text \<open>Signing saves the job to show the verification code, so it keeps the core but not Redis.\<close>

lemma keeps_core_signServerBatch: "keeps core (signServerBatch ob)"
proof -
  have st: "map doc_core (map2 (\<lambda>d sig. d\<lparr>d_SignatureValue := sig\<rparr>) ds sigs) = map doc_core ds" if "length sigs = length ds" for ds and sigs :: "string list"
    using that by (induction sigs ds rule: list_induct2) (simp_all add: doc_core_def)
  show ?thesis
    unfolding keeps_def signServerBatch_def job_def setJob_def onNet_def
    by (auto simp: run_defs core_def st simp del: map_map split: prod.split sum.split)
qed

lemma keeps_core_poll: "keeps core (poll_device ob tok sid g n)"
  by (induction n) (simp_all add: Let_def time_def, (intro keeps_intros; simp)+)

lemma Sign_core: "keeps core (Sign ob fl)"
proof -
  have "keeps core (signDevice ob)"
    unfolding signDevice_def saveJob_def time_def
    by (intro keeps_intros keeps_core_poll; simp add: core_def doc_core_def)
  moreover have "keeps core (csc_Sign ob)"
    unfolding csc_Sign_def jobDigests_def take_signature_def by (intro keeps_intros; simp add: core_def doc_core_def)
  ultimately show ?thesis by (cases fl) (simp_all add: tx_Sign_def keeps_core_signServerBatch)
qed

section \<open>The CSC flow signs once and only what was confirmed\<close>

definition csc_request :: "Job \<Rightarrow> bytes list \<Rightarrow> SignHashRequest" where
  "csc_request j digests = \<lparr>sh_CredentialID = j_CredentialID j, sh_Hashes = digests,
     sh_HashAlgorithmOID = j_HashAlgorithmOID j, sh_SignAlgo = j_SignAlgo j\<rparr>"

text \<open>Document \<open>i\<close> carries a signature of the answer that the credential's certificate verifies.\<close>

definition verified :: "'u csc \<Rightarrow> Job \<Rightarrow> bytes \<Rightarrow> json \<Rightarrow> bytes list \<Rightarrow> nat \<Rightarrow> Document \<Rightarrow> bool" where
  "verified c j cert out digests i d \<longleftrightarrow>
     (\<exists>sig. cs_Signature c out i = Inr sig \<and> d_SignatureValue d = b64_encode sig \<and>
        cs_VerifySignature c cert (j_SignAlgo j) (j_HashAlgorithmOID j) (digests ! i) sig = None)"

definition signing_with :: "Job \<Rightarrow> (string \<times> SignHashRequest) list \<Rightarrow> ('r, 'u) sys \<Rightarrow> bool" where
  "signing_with j calls s \<longleftrightarrow> s_signhash s = calls \<and> j_SigningToken (s_job s) = [] \<and> j_SignAlgo (s_job s) = j_SignAlgo j \<and>
     j_HashAlgorithmOID (s_job s) = j_HashAlgorithmOID j \<and> length (j_Documents (s_job s)) = length (j_Documents j)"

lemma take_signature_spec:
  assumes "signing_with j calls s" and "i < length (j_Documents j)"
    and "\<And>k. k < i \<Longrightarrow> verified (o_csc ob) j cert out digests k (j_Documents (s_job s) ! k)"
  shows "wp (take_signature ob cert out digests i)
     (\<lambda>_ s'. signing_with j calls s' \<and> (\<forall>k < Suc i. verified (o_csc ob) j cert out digests k (j_Documents (s_job s') ! k)))
     (\<lambda>_. signing_with j calls) s"
  using assms
  by (auto simp: take_signature_def wp_rules optE_def verified_def signing_with_def update_doc_def nth_list_update less_Suc_eq
      split: sum.split option.split)

lemma csc_Sign_spec:
  "wp (csc_Sign ob)
     (\<lambda>_ s'. \<exists>digests cert out. Digests (s_job s) = Inr digests \<and> csc_certificate (o_env ob) (j_SigningCert (s_job s)) = Inr cert \<and>
        signing_with (s_job s) (s_signhash s @ [(j_SigningToken (s_job s), csc_request (s_job s) digests)]) s' \<and>
        (\<forall>i < length (j_Documents (s_job s)). verified (o_csc ob) (s_job s) cert out digests i (j_Documents (s_job s') ! i)))
     (\<lambda>e s'. s_signhash s' = s_signhash s \<and> s_job s' = s_job s \<or>
        (\<exists>digests. Digests (s_job s) = Inr digests \<and>
           signing_with (s_job s) (s_signhash s @ [(j_SigningToken (s_job s), csc_request (s_job s) digests)]) s')) s"
proof (cases "Digests (s_job s)")
  case (Inl e)
  then show ?thesis by (simp add: csc_Sign_def jobDigests_def wp_rules)
next
  case dg: (Inr digests)
  show ?thesis
  proof (cases "csc_certificate (o_env ob) (j_SigningCert (s_job s))")
    case (Inl e)
    with dg show ?thesis by (simp add: csc_Sign_def jobDigests_def wp_rules)
  next
    case cert: (Inr cert)
    let ?calls = "s_signhash s @ [(j_SigningToken (s_job s), csc_request (s_job s) digests)]"
    have loop: "wp (forE [0..<length (j_Documents (s_job s))] (take_signature ob cert out digests))
        (\<lambda>_ s'. signing_with (s_job s) ?calls s' \<and>
           (\<forall>i < length (j_Documents (s_job s)). verified (o_csc ob) (s_job s) cert out digests i (j_Documents (s_job s') ! i)))
        (\<lambda>_. signing_with (s_job s) ?calls) s1"
      if "signing_with (s_job s) ?calls s1" for out s1
      by (rule wp_forE_upt [where I = "\<lambda>k s'. signing_with (s_job s) ?calls s' \<and>
             (\<forall>i < k. verified (o_csc ob) (s_job s) cert out digests i (j_Documents (s_job s') ! i))"])
         (auto simp: that intro!: take_signature_spec)
    have start: "signing_with (s_job s) ?calls (s\<lparr>s_signhash := ?calls, s_net := n, s_job := (s_job s)\<lparr>j_SigningToken := []\<rparr>\<rparr>)" for n
      by (simp add: signing_with_def)
    show ?thesis
      unfolding csc_Sign_def jobDigests_def signHash_def
      by (simp add: wp_rules dg cert csc_request_def [symmetric], rule wp_mono [OF wp_true])
         (auto simp: wp_rules dg start intro!: wp_mono [OF loop [OF start]])
  qed
qed

text \<open>\<open>returns P m\<close>: every result of \<open>m\<close> satisfies \<open>P\<close>, whatever happens before.\<close>

definition returns :: "('a \<Rightarrow> bool) \<Rightarrow> ('s, 'e, 'a) prog \<Rightarrow> bool" where
  "returns P m \<longleftrightarrow> (\<forall>s. wp m (\<lambda>x _. P x) (\<lambda>_ _. True) s)"

lemma returns_ret: "P x \<Longrightarrow> returns P (retE x)" and returns_fail: "returns P (failE e)"
  by (simp_all add: returns_def wp_rules)

lemma returns_bind: "(\<And>x. returns P (f x)) \<Longrightarrow> returns P (bindE m f)"
  unfolding returns_def wp_bindE by (auto intro: wp_mono [OF wp_true])

lemma returns_if: "(b \<Longrightarrow> returns P m) \<Longrightarrow> (\<not> b \<Longrightarrow> returns P n) \<Longrightarrow> returns P (if b then m else n)"
  by simp

lemma returns_Let: "returns P (f a) \<Longrightarrow> returns P (let x = a in f x)"
  by simp

lemmas returns_intros = returns_ret returns_bind returns_fail returns_if returns_Let

lemma advanceCredential_more: "returns (\<lambda>r. \<not> snd r) (advanceCredential ob eid tok)"
  unfolding advanceCredential_def by (intro returns_intros) simp

lemma advanceCredential_token: "keeps (\<lambda>s. j_SigningToken (s_job s)) (advanceCredential ob eid tok)"
proof -
  have "keeps (\<lambda>s. j_SigningToken (s_job s)) (calculateDigests ob cert)" for cert
    by (rule keeps_calculateDigests) (auto simp: apply_digests_def split: prod.splits)
  then show ?thesis
    unfolding advanceCredential_def csc_newRequest_def csc_push_def newState_def jobDigests_def time_def
    by (intro keeps_intros) simp_all
qed

lemma csc_Advance_spec:
  "wp (csc_AdvanceCallback ob eid code)
     (\<lambda>(url, done) s'. done \<longrightarrow> (\<exists>tok ds digests. cs_Signing (o_csc ob) tok = Inr ds \<and> Digests (s_job s') = Inr digests \<and>
        cs_Bound (o_csc ob) ds (j_CredentialID (s_job s')) digests = None \<and> j_SigningToken (s_job s') = tk_AccessToken tok \<and>
        j_PendingLeg (s_job s) = LegSign \<and> j_PKCEVerifier (s_job s') = [] \<and> j_Documents (s_job s') = j_Documents (s_job s)))
     (\<lambda>_ s'. j_SigningToken (s_job s') = j_SigningToken (s_job s)) s"
proof -
  have cred: "wp (advanceCredential ob eid tok) (\<lambda>(url, done) s'. \<not> done)
      (\<lambda>_ s'. j_SigningToken (s_job s') = j_SigningToken (s_job s)) s1"
    if "j_SigningToken (s_job s1) = j_SigningToken (s_job s)" for tok s1
    using wp_conj [OF keepsD [OF advanceCredential_token] advanceCredential_more [unfolded returns_def, rule_format], of ob eid tok s1]
    by (rule wp_mono) (use that in auto)
  show ?thesis
    unfolding csc_AdvanceCallback_def
    by (simp add: wp_rules, rule wp_mono [OF wp_true])
       (auto simp: wp_rules optE_def jobDigests_def Digests_def split: OAuthLeg.split option.split sum.split intro!: cred)
qed

section \<open>The device flow\<close>

definition is_delete :: "'u EntrustClient \<Rightarrow> string \<Rightarrow> exchange \<Rightarrow> bool" where
  "is_delete c sid x \<longleftrightarrow> rq_method (fst x) = ''DELETE'' \<and> rq_url (fst x) = delete_url c sid"

definition is_poll :: "'u EntrustClient \<Rightarrow> string \<Rightarrow> exchange \<Rightarrow> bool" where
  "is_poll c sid x \<longleftrightarrow> rq_method (fst x) = ''GET'' \<and>
     rq_url (fst x) = x_BaseURL (x_cfg c) @ pathSignaturesRes @ PathEscape sid @ ''/result''"

text \<open>An environment whose requests are all well formed.\<close>

definition urls_ok :: "'u env \<Rightarrow> bool" where
  "urls_ok e \<longleftrightarrow> (\<forall>m u. e_new_request e m u = None)"

lemma DeleteSignature_log:
  "urls_ok (x_env c) \<Longrightarrow>
     wp (DeleteSignature c tok sid) (\<lambda>_ w'. \<exists>x. n_log w' = n_log w @ [x] \<and> is_delete c sid x)
       (\<lambda>_ w'. \<exists>x. n_log w' = n_log w @ [x] \<and> is_delete c sid x) w"
  unfolding DeleteSignature_def new_request_def urls_ok_def
  by (auto simp: wp_rules is_delete_def intro!: wp_mono [OF transmit_log])

lemma PollDeviceResult_log:
  "urls_ok (x_env c) \<Longrightarrow>
     wp (PollDeviceResult c tok sid) (\<lambda>_ w'. \<exists>x. n_log w' = n_log w @ [x] \<and> is_poll c sid x)
       (\<lambda>_ w'. \<exists>x. n_log w' = n_log w @ [x] \<and> is_poll c sid x) w"
  unfolding PollDeviceResult_def getJSON_def new_request_def urls_ok_def
  by (auto simp: wp_rules is_poll_def intro!: wp_mono [OF doJSON_log])

lemma DeviceRaw_log:
  "wp (DeviceRaw c tok i d da code msg dl) (\<lambda>_ w'. \<exists>x. n_log w' = n_log w @ [x] \<and> rq_method (fst x) = ''POST'')
     (\<lambda>_ w'. n_log w' = n_log w \<or> (\<exists>x. n_log w' = n_log w @ [x] \<and> rq_method (fst x) = ''POST'')) w"
  unfolding DeviceRaw_def postJSONBearer_def new_request_def
  by (auto simp: wp_rules split: option.split intro!: wp_mono [OF doJSON_log])

definition polled :: "'u EntrustClient \<Rightarrow> string \<Rightarrow> exchange list \<Rightarrow> ('r, 'u) sys \<Rightarrow> bool" where
  "polled c sid L s \<longleftrightarrow> (\<exists>ps. n_log (s_net s) = L @ ps \<and> list_all (is_poll c sid) ps)"

lemma polled_time: "polled c sid L s \<Longrightarrow> (\<And>t s'. polled c sid L s' \<Longrightarrow> Q t s') \<Longrightarrow> wp (time ob) Q E s"
  by (rule wp_time) (auto simp: polled_def)

lemma poll_device_log:
  fixes ob :: "('r, 'u) Orchestrator"
  assumes "urls_ok (x_env (o_entrust ob))"
  shows "polled (o_entrust ob) sid L s \<Longrightarrow>
    wp (poll_device ob tok sid g n) (\<lambda>_. polled (o_entrust ob) sid L) (\<lambda>_. polled (o_entrust ob) sid L) s"
proof (induction n arbitrary: s)
  case (Suc n)
  have wait: "wp (onNet (onEnv m)) (\<lambda>_. wp (poll_device ob tok sid g n) (\<lambda>_. polled (o_entrust ob) sid L) (\<lambda>_. polled (o_entrust ob) sid L))
      (\<lambda>_. polled (o_entrust ob) sid L) s1" if "polled (o_entrust ob) sid L s1" for m :: "('u, err, unit) prog" and s1 :: "('r, 'u) sys"
    unfolding wp_rules by (rule wp_mono [OF wp_true]) (use that in \<open>auto simp: polled_def intro!: Suc.IH\<close>)
  have poll: "wp (onNet (PollDeviceResult (o_entrust ob) tok sid)) (\<lambda>_. polled (o_entrust ob) sid L) (\<lambda>_. polled (o_entrust ob) sid L) s"
    unfolding wp_onNet
    by (rule wp_mono [OF PollDeviceResult_log [OF assms]]; use Suc.prems in \<open>fastforce simp: polled_def\<close>)
  have again: "wp (bindE (time ob) (\<lambda>t. if t > g then failE (ErrOther ''signing:device_timeout'')
       else bindE (onNet (onEnv (e_wait (o_env ob) (cf_EIDScanPollInterval (o_cfg ob))))) (\<lambda>_. poll_device ob tok sid g n)))
     (\<lambda>_. polled (o_entrust ob) sid L) (\<lambda>_. polled (o_entrust ob) sid L) s1" if "polled (o_entrust ob) sid L s1" for s1
    unfolding wp_bindE using that by (rule polled_time) (auto simp: wp_if wp_failE wp_bindE intro: wait)
  show ?case
    unfolding poll_device.simps Let_def wp_bindE wp_tryE
    by (rule wp_mono [OF poll])
       (auto simp: wp_case_sum wp_case_prod wp_if wp_retE wp_failE intro: again [unfolded wp_bindE] again split: prod.split)
qed (simp add: wp_rules)

text \<open>
  The requests of a device signature: the push, then polls of one signature, and, whatever
  came of them, its deletion as the last.
\<close>

definition posts :: "exchange list \<Rightarrow> bool" where
  "posts xs \<longleftrightarrow> list_all (\<lambda>x. rq_method (fst x) = ''POST'') xs"

definition deleted_after :: "'u EntrustClient \<Rightarrow> exchange list \<Rightarrow> exchange list \<Rightarrow> bool" where
  "deleted_after c L L' \<longleftrightarrow> (\<exists>pre sid ps x. L' = L @ pre @ ps @ [x] \<and> posts pre \<and> list_all (is_poll c sid) ps \<and> is_delete c sid x)"

lemma signDevice_log:
  fixes ob :: "('r, 'u) Orchestrator"
  assumes "urls_ok (x_env (o_entrust ob))"
  shows "wp (signDevice ob)
     (\<lambda>_ s'. deleted_after (o_entrust ob) (n_log (s_net s)) (n_log (s_net s')))
     (\<lambda>_ s'. (\<exists>pre. n_log (s_net s') = n_log (s_net s) @ pre \<and> posts pre) \<or>
        deleted_after (o_entrust ob) (n_log (s_net s)) (n_log (s_net s'))) s"
proof -
  let ?L = "n_log (s_net s)" and ?c = "o_entrust ob"
  have del: "wp (onNet (DeleteSignature ?c tok sid)) (\<lambda>_ s'. deleted_after ?c ?L (n_log (s_net s')))
      (\<lambda>_ s'. deleted_after ?c ?L (n_log (s_net s'))) s2"
    if "polled ?c sid (?L @ pre) s2" "posts pre" for tok sid pre and s2 :: "('r, 'u) sys"
    unfolding wp_onNet
    by (rule wp_mono [OF DeleteSignature_log [OF assms]]; use that in \<open>auto simp: polled_def deleted_after_def; metis append.assoc\<close>)
  have body: "wp (finallyE (bindE (poll_device ob tok sid g n) (\<lambda>val. setJob (update_doc 0 (h val)))) (onNet (DeleteSignature ?c tok sid)))
      (\<lambda>_ s'. deleted_after ?c ?L (n_log (s_net s'))) (\<lambda>_ s'. deleted_after ?c ?L (n_log (s_net s'))) s1"
    if "n_log (s_net s1) = ?L @ pre" "posts pre" for tok sid g n h pre and s1 :: "('r, 'u) sys"
  proof -
    have "polled ?c sid (?L @ pre) s1" using that by (simp add: polled_def)
    then show ?thesis
      unfolding wp_finallyE wp_bindE wp_setJob
      by (intro wp_mono [OF poll_device_log [OF assms]] del [where pre = pre] that) (auto simp: polled_def)
  qed
  have push: "wp (onNet (DeviceRaw ?c tok i d da code msg dl))
      (\<lambda>sid. wp (finallyE (bindE (poll_device ob tok sid g n) (\<lambda>val. setJob (update_doc 0 (h val)))) (onNet (DeleteSignature ?c tok sid)))
         (\<lambda>_ s'. deleted_after ?c ?L (n_log (s_net s')))
         (\<lambda>_ s'. (\<exists>pre. n_log (s_net s') = ?L @ pre \<and> posts pre) \<or> deleted_after ?c ?L (n_log (s_net s'))))
      (\<lambda>_ s'. (\<exists>pre. n_log (s_net s') = ?L @ pre \<and> posts pre) \<or> deleted_after ?c ?L (n_log (s_net s'))) s1"
    if "n_log (s_net s1) = ?L" for tok i d da code msg dl g n h and s1 :: "('r, 'u) sys"
    unfolding wp_onNet
  proof (rule wp_mono [OF DeviceRaw_log], goal_cases)
    case (1 sid w)
    then obtain x where "n_log w = n_log (s_net s1) @ [x]" and "rq_method (fst x) = ''POST''" by blast
    with that have x: "n_log w = ?L @ [x]" "posts [x]" by (simp_all add: posts_def)
    show ?case by (rule wp_mono [OF body [of _ "[x]"]]) (use x in auto)
  qed (use that in \<open>auto simp: posts_def\<close>)
  have none: "posts []" by (simp add: posts_def)
  have save: "wp (onRedis m) (\<lambda>_ s'. n_log (s_net s') = ?L) (\<lambda>_ s'. n_log (s_net s') = ?L) s1"
    if "n_log (s_net s1) = ?L" for m :: "('r, err, unit) prog" and s1 :: "('r, 'u) sys"
    unfolding wp_onRedis by (rule wp_mono [OF wp_true]) (simp_all add: that)
  show ?thesis
    unfolding signDevice_def saveJob_def Let_def
    by (simp only: wp_bindE wp_job wp_if wp_failE wp_ofsumE wp_setJob split: if_split sum.split)
       (auto simp: none intro!: wp_time wp_mono [OF save] push)
qed

text \<open>The clock: a reading is the time, time does not run backwards, a timer takes its time.\<close>

locale clocked =
  fixes e :: "'u env" and clock :: "'u \<Rightarrow> int"
  assumes now_law: "e_now e u = (t, u') \<Longrightarrow> clock u \<le> t \<and> t \<le> clock u'"
  and wait_law: "wp (e_wait e d) (\<lambda>_ u'. clock u + d \<le> clock u') (\<lambda>x _. x \<noteq> out_of_rounds) u"
  and do_law: "wp (e_do e rq) (\<lambda>_ u'. clock u \<le> clock u') (\<lambda>_ u'. clock u \<le> clock u') u"
begin

lemma time_clock:
  "wp (now e) (\<lambda>t w'. clock (n_env w) \<le> t \<and> t \<le> clock (n_env w')) (\<lambda>_ _. False) w"
  using now_law [of "n_env w"] by (auto simp: now_def wp_onEnv wp_def split: prod.split)

lemma transmit_clock:
  "wp (transmit e rq) (\<lambda>_ w'. clock (n_env w) \<le> clock (n_env w')) (\<lambda>_ w'. clock (n_env w) \<le> clock (n_env w')) w"
  unfolding transmit_def wp_rules by (rule wp_mono [OF do_law]) auto

lemma getJSON_clock:
  assumes c: "x_env c = e"
  shows "wp (getJSON c u b out) (\<lambda>_ w'. clock (n_env w) \<le> clock (n_env w')) (\<lambda>_ w'. clock (n_env w) \<le> clock (n_env w')) w"
  unfolding getJSON_def new_request_def doJSON_def c
  by (auto simp: wp_rules Let_def split: option.split sum.split intro!: wp_mono [OF transmit_clock])

lemma device_errors:
  "ErrOther ''signing:device_timeout'' \<noteq> out_of_rounds" "ErrOther ''signing:device_failed'' \<noteq> out_of_rounds"
  "ErrOther ''signing:device_canceled'' \<noteq> out_of_rounds"
  by (simp_all add: out_of_rounds_def)

text \<open>One round: it ends the poll, or the deadline is not over and a whole interval went by.\<close>

lemma poll_round:
  fixes ob :: "('r, 'u) Orchestrator"
  assumes env: "o_env ob = e" "x_env (o_entrust ob) = e"
    and again: "\<And>s1. clock (n_env (s_net s)) \<le> g \<Longrightarrow>
      clock (n_env (s_net s)) + cf_EIDScanPollInterval (o_cfg ob) \<le> clock (n_env (s_net s1)) \<Longrightarrow>
      wp (poll_device ob tok sid g n) (\<lambda>_ _. True) (\<lambda>x _. x \<noteq> out_of_rounds) s1"
  shows "wp (poll_device ob tok sid g (Suc n)) (\<lambda>_ _. True) (\<lambda>x _. x \<noteq> out_of_rounds) s"
proof -
  let ?C = "\<lambda>s :: ('r, 'u) sys. clock (n_env (s_net s))"
  have wait: "wp (onNet (onEnv (e_wait e (cf_EIDScanPollInterval (o_cfg ob)))))
      (\<lambda>_. wp (poll_device ob tok sid g n) (\<lambda>_ _. True) (\<lambda>x _. x \<noteq> out_of_rounds)) (\<lambda>x _. x \<noteq> out_of_rounds) s2"
    if "?C s \<le> ?C s2" "?C s \<le> g" for s2
    unfolding wp_onNet wp_onEnv by (rule wp_mono [OF wait_law]) (use that in \<open>auto intro: again\<close>)
  have over: "wp (bindE (time ob) (\<lambda>t. if t > g then failE (ErrOther ''signing:device_timeout'')
       else bindE (onNet (onEnv (e_wait (o_env ob) (cf_EIDScanPollInterval (o_cfg ob))))) (\<lambda>_. poll_device ob tok sid g n)))
     (\<lambda>_ _. True) (\<lambda>x _. x \<noteq> out_of_rounds) s1" if "?C s \<le> ?C s1" for s1
    unfolding wp_bindE time_def wp_onNet env
    by (rule wp_mono [OF time_clock])
       (use that in \<open>auto simp: wp_if wp_failE wp_bindE device_errors intro!: wait\<close>)
  have poll: "wp (onNet (PollDeviceResult (o_entrust ob) tok sid)) (\<lambda>_ s1. ?C s \<le> ?C s1) (\<lambda>_ s1. ?C s \<le> ?C s1) s"
    unfolding wp_onNet PollDeviceResult_def
    by (auto simp: wp_rules intro!: wp_mono [OF getJSON_clock [OF env(2)]])
  show ?thesis
    unfolding poll_device.simps Let_def wp_bindE wp_tryE
    by (rule wp_mono [OF poll])
       (auto simp: wp_case_sum wp_case_prod wp_if wp_retE wp_failE device_errors intro: over split: prod.split)
qed

lemma poll_ends:
  fixes ob :: "('r, 'u) Orchestrator"
  assumes env: "o_env ob = e" "x_env (o_entrust ob) = e"
  shows "g < clock (n_env (s_net s)) + int n * cf_EIDScanPollInterval (o_cfg ob) \<Longrightarrow>
    wp (poll_device ob tok sid g (Suc n)) (\<lambda>_ _. True) (\<lambda>x _. x \<noteq> out_of_rounds) s"
proof (induction n arbitrary: s)
  case 0
  then show ?case by (intro poll_round [OF env]) simp
next
  case (Suc n)
  show ?case by (rule poll_round [OF env], rule Suc.IH) (use Suc.prems in \<open>simp add: algebra_simps\<close>)
qed

end

text \<open>A poll that did not run out of rounds is the same with any more of them.\<close>

lemma poll_more_rounds:
  "wp (poll_device ob tok sid g n) (\<lambda>_ _. True) (\<lambda>x _. x \<noteq> out_of_rounds) s \<Longrightarrow>
     poll_device ob tok sid g (n + k) s = poll_device ob tok sid g n s"
proof (induction n arbitrary: s)
  case (Suc n)
  then show ?case
    by (auto simp: Let_def wp_def run_defs split: prod.splits sum.splits if_splits)
qed (simp add: wp_rules)

interpretation scripted: clocked script_env sc_clock
  by unfold_locales (auto simp: script_env_def wp_def split: list.splits sum.split)

section \<open>The server's batch\<close>

text \<open>The one request of a batch and its answer: the digests in document order, the signatures in that order.\<close>

definition batch_answer :: "'u EntrustClient \<Rightarrow> Job \<Rightarrow> string list \<Rightarrow> exchange \<Rightarrow> bool" where
  "batch_answer c j sigs x \<longleftrightarrow>
     rq_method (fst x) = ''POST'' \<and> rq_url (fst x) = x_BaseURL (x_cfg c) @ pathServerRawBat \<and>
     rq_body (fst x) = JsonBody (serverRawBatchRequest (j_SignIdentityID j) (j_SignAlgo j)
       (map (\<lambda>d. (d_Digest d, j_SignAlgo j)) (j_Documents j))) \<and>
     (\<exists>resp b. snd x = Inr resp \<and> rs_status resp div 100 = 2 \<and> rs_body resp = Inr b \<and>
        decode serverRawBatchResponse [] (limit_body (2 ^ 22) b) = Inr sigs)"

lemma ServerRawBatch_log:
  "wp (ServerRawBatch c (j_SigningToken j) (j_SignIdentityID j) (j_SignAlgo j) (map (\<lambda>d. (d_Digest d, j_SignAlgo j)) (j_Documents j)))
     (\<lambda>sigs w'. \<exists>x. n_log w' = n_log w @ [x] \<and> batch_answer c j sigs x)
     (\<lambda>_ w'. n_log w' = n_log w \<or> (\<exists>x. n_log w' = n_log w @ [x])) w"
  unfolding ServerRawBatch_def postJSONBearer_def new_request_def doJSON_def Let_def
  by (cases "e_new_request (x_env c) ''POST'' (x_BaseURL (x_cfg c) @ pathServerRawBat)")
     (auto simp: wp_rules batch_answer_def split: sum.split intro!: wp_mono [OF transmit_log])

section \<open>Properties\<close>

definition csc_signed :: "('r, 'u) Orchestrator \<Rightarrow> ('r, 'u) sys \<Rightarrow> ('r, 'u) sys \<Rightarrow> bool" where
  "csc_signed ob s s' \<longleftrightarrow>
     (\<exists>digests cert out. Digests (s_job s) = Inr digests \<and> csc_certificate (o_env ob) (j_SigningCert (s_job s)) = Inr cert \<and>
        signing_with (s_job s) (s_signhash s @ [(j_SigningToken (s_job s), csc_request (s_job s) digests)]) s' \<and>
        (\<forall>i < length (j_Documents (s_job s)). verified (o_csc ob) (s_job s) cert out digests i (j_Documents (s_job s') ! i)))"

definition csc_not_signed :: "('r, 'u) sys \<Rightarrow> ('r, 'u) sys \<Rightarrow> bool" where
  "csc_not_signed s s' \<longleftrightarrow> s_signhash s' = s_signhash s \<and> s_job s' = s_job s \<or>
     (\<exists>digests. Digests (s_job s) = Inr digests \<and>
        signing_with (s_job s) (s_signhash s @ [(j_SigningToken (s_job s), csc_request (s_job s) digests)]) s')"

text \<open>
  C13: The CSC flow signs in one call and keeps only what verifies. When \<open>csc_Sign\<close> succeeds
  it has called signHash exactly once, with the job's token, credential and the digests of all
  its documents in order, and every document carries the signature of the answer at its own
  position, which verified under the credential's certificate against that document's digest.
  However it ends, the token is gone from the job once the call was made, and no second call is.
\<close>

theorem csc_signs_once: "wp (csc_Sign ob) (\<lambda>_. csc_signed ob s) (\<lambda>_. csc_not_signed s) s"
  unfolding csc_signed_def csc_not_signed_def by (rule csc_Sign_spec)

text \<open>
  C14: A CSC job reaches signing only bound to its own digests. When the callback says that the
  authorization is complete, the leg was the signing one, the token names signing details that
  bind exactly the job's credential and the digests of its documents, the token is kept for the
  one call and the PKCE verifier is gone; the documents are the ones that were there. When the
  callback fails no token is stored.
\<close>

theorem csc_authorization_bound:
  "wp (csc_AdvanceCallback ob eid code)
     (\<lambda>(url, done) s'. done \<longrightarrow> (\<exists>tok ds digests. cs_Signing (o_csc ob) tok = Inr ds \<and> Digests (s_job s') = Inr digests \<and>
        cs_Bound (o_csc ob) ds (j_CredentialID (s_job s')) digests = None \<and> j_SigningToken (s_job s') = tk_AccessToken tok \<and>
        j_PendingLeg (s_job s) = LegSign \<and> j_PKCEVerifier (s_job s') = [] \<and> j_Documents (s_job s') = j_Documents (s_job s)))
     (\<lambda>_ s'. j_SigningToken (s_job s') = j_SigningToken (s_job s)) s"
  by (rule csc_Advance_spec)

definition csc_demo_job :: Job where
  "csc_demo_job = demo_job\<lparr>j_Flow := FlowCSCEidScan, j_State := StateAwaitingAuthorization, j_PendingLeg := LegSign,
     j_CredentialID := ''cred'', j_PKCEVerifier := ''v'', j_Documents := [demo_doc\<lparr>d_Digest := ''ZGln''\<rparr>]\<rparr>"

theorem csc_authorization_bound_witness:
  "let s = demo_sys mem_empty [] csc_demo_job in
   wp (csc_AdvanceCallback demo EIDScan ''code'')
     (\<lambda>(url, done) s'. done \<and> j_SigningToken (s_job s') = ''sad'' \<and> (\<exists>tok ds digests. cs_Signing demo_csc tok = Inr ds \<and>
        Digests (s_job s') = Inr digests \<and> cs_Bound demo_csc ds (j_CredentialID (s_job s')) digests = None)) (\<lambda>_ _. False) s"
proof -
  let ?s = "demo_sys mem_empty [] csc_demo_job"
  have "wp (csc_AdvanceCallback demo EIDScan ''code'') (\<lambda>(url, done) s'. done \<and> j_SigningToken (s_job s') = ''sad'') (\<lambda>_ _. False) ?s"
    by code_simp
  from wp_conj [OF this csc_authorization_bound [of demo EIDScan "''code''" ?s]]
  show ?thesis unfolding Let_def by (rule wp_mono) (auto simp: demo_def)
qed


definition device_demo_answers :: "(err + response) list" where
  "device_demo_answers = [Inr (json_response 200 (JObj [(''signature'', JObj [(''id'', JStr ''sig'')])])),
     Inl (ErrOther ''timeout''), Inr (json_response 200 (JObj [(''status'', JStr ''finished''), (''value'', JStr ''c2ln'')])),
     Inr (json_response 204 JNull)]"

definition device_demo_job :: Job where
  "device_demo_job = demo_job\<lparr>j_Flow := FlowEIDScan, j_State := StateSigning, j_Documents := [demo_doc\<lparr>d_Digest := ''ZGln''\<rparr>]\<rparr>"




text \<open>
  The server's batch is signed in order. When \<open>signServerBatch\<close> succeeds, one request carried
  the digests of the documents in order, its answer had one signature for each, and document
  \<open>i\<close> now has the \<open>i\<close>-th, nothing else of the job having changed. When it fails the job is as it
  was: no document gets a signature of an answer with a wrong number of them.
\<close>

theorem server_batch_in_order:
  "wp (signServerBatch ob)
     (\<lambda>_ s'. \<exists>sigs x. n_log (s_net s') = n_log (s_net s) @ [x] \<and> batch_answer (o_entrust ob) (s_job s) sigs x \<and>
        length sigs = length (j_Documents (s_job s)) \<and>
        s_job s' = (s_job s)\<lparr>j_Documents := map2 (\<lambda>d sig. d\<lparr>d_SignatureValue := sig\<rparr>) (j_Documents (s_job s)) sigs\<rparr>)
     (\<lambda>_ s'. s_job s' = s_job s \<and>
        (n_log (s_net s') = n_log (s_net s) \<or> (\<exists>x. n_log (s_net s') = n_log (s_net s) @ [x]))) s"
  unfolding signServerBatch_def Let_def
  by (simp add: wp_rules, rule wp_mono [OF ServerRawBatch_log]) auto

definition sha2_oids :: "'u csc \<Rightarrow> string list" where
  "sha2_oids c = [cs_OIDSHA256 c, cs_OIDSHA384 c, cs_OIDSHA512 c]"

definition sha2_lengths :: "'u csc \<Rightarrow> bool" where
  "sha2_lengths c \<longleftrightarrow> distinct (map (cs_DigestLength c) (sha2_oids c)) \<and> [] \<notin> set (sha2_oids c)"

lemma oid_of_length_iff:
  assumes "sha2_lengths c" and "oid \<noteq> []"
  shows "oid_of_length c n = oid \<longleftrightarrow> oid \<in> set (sha2_oids c) \<and> cs_DigestLength c oid = n"
  using assms by (auto simp: oid_of_length_def sha2_lengths_def sha2_oids_def)

lemma digest_oid_from_iff:
  assumes "sha2_lengths c"
  shows "oid \<noteq> [] \<Longrightarrow> digest_oid_from c k ds = Inr oid \<longleftrightarrow>
    (if ds = [] then k = oid else k \<in> {[], oid} \<and> (\<forall>d \<in> set ds. oid_of_length c (length d) = oid))"
  by (induction c k ds rule: digest_oid_from.induct) (auto simp: Let_def)

text \<open>
  C32: The digest algorithm of a CSC batch is named by the digests themselves. For a library whose
  three SHA-2 lengths differ, \<open>digestAlgorithmOID\<close> names an algorithm exactly when there is a
  digest and all of them have that algorithm's length; any mix, any other length and the empty
  batch are refused.
\<close>

theorem digest_algorithm_exact:
  assumes "sha2_lengths c"
  shows "digestAlgorithmOID c digests = Inr oid \<longleftrightarrow>
    digests \<noteq> [] \<and> oid \<in> set (sha2_oids c) \<and> (\<forall>d \<in> set digests. length d = cs_DigestLength c oid)"
proof (cases "oid = []")
  case True
  have "digest_oid_from c k digests \<noteq> Inr []" if "k \<noteq> [] \<or> digests \<noteq> []" for k
    using that by (induction c k digests rule: digest_oid_from.induct) (auto simp: Let_def)
  with True assms show ?thesis by (auto simp: digestAlgorithmOID_def sha2_lengths_def)
next
  case False
  with assms show ?thesis
    by (auto simp: digestAlgorithmOID_def digest_oid_from_iff oid_of_length_iff neq_Nil_conv)
qed

theorem digest_algorithm_exact_witness:
  "digestAlgorithmOID demo_csc [replicate 48 0, replicate 48 1] = Inr ''sha384'' \<and>
   digestAlgorithmOID demo_csc [replicate 48 0, replicate 32 1] \<noteq> Inr ''sha384''"
proof -
  have "sha2_lengths demo_csc" by (simp add: sha2_lengths_def sha2_oids_def demo_csc_def)
  from digest_algorithm_exact [OF this, of "[replicate 48 0, replicate 48 1]" "''sha384''"]
    digest_algorithm_exact [OF this, of "[replicate 48 0, replicate 32 1]" "''sha384''"]
  show ?thesis by (simp add: sha2_oids_def demo_csc_def)
qed

end
