(* ===== verification/Orchestrator.thy ===== *)
theory Orchestrator
  imports Flows
begin

text \<open>
  \<^verbatim>\<open>signing/orchestrator.go\<close> and \<^verbatim>\<open>signing/worker.go\<close>: what the handlers and the background
  worker call. Each operation is the whole method, with every save, every queueing and every
  close it does, in the order of the code. The result of an operation is its value or its
  error; the job it returns is the job left in hand.
\<close>

section \<open>Configuration and offered flows\<close>

definition NewOrchestrator ::
    "'r Store \<Rightarrow> 'u Client \<Rightarrow> 'u EntrustClient \<Rightarrow> 'u csc \<Rightarrow> 'u env \<Rightarrow> Config \<Rightarrow> nat \<Rightarrow> ('r, 'u) Orchestrator" where
  "NewOrchestrator jobs sa ent c e cfg polls = \<lparr>o_jobs = jobs, o_signapi = sa, o_entrust = ent, o_csc = c, o_env = e,
     o_cfg = cfg\<lparr>
       cf_EIDScanPollInterval := (if cf_EIDScanPollInterval cfg \<le> 0 then secs 2 else cf_EIDScanPollInterval cfg),
       cf_EIDScanDeadline := (if cf_EIDScanDeadline cfg \<le> 0 then secs 120 else cf_EIDScanDeadline cfg)\<rparr>,
     o_polls = polls\<rparr>"

text \<open>The platform client is always configured (\<^verbatim>\<open>app.go\<close> builds one), so its nil check is not here.\<close>

definition Offered :: "('r, 'u) Orchestrator \<Rightarrow> Flow \<Rightarrow> bool" where
  "Offered ob f =
     (if flows f = None then False
      else if IsCSC f then CSCEnabled (o_entrust ob)
      else if f = FlowLegacyEID then cf_LegacyEIDEnabled (o_cfg ob)
      else True)"

definition OfferedFlows :: "('r, 'u) Orchestrator \<Rightarrow> Flow list" where
  "OfferedFlows ob = filter (Offered ob) Flows"

section \<open>Prepare\<close>

text \<open>What is refused before anything is created.\<close>

definition prepare_refusal :: "('r, 'u) Orchestrator \<Rightarrow> PrepareInput \<Rightarrow> err option" where
  "prepare_refusal ob inp =
     (case flows (pi_Flow inp) of
        None \<Rightarrow> Some ErrUnknownFlow
      | Some flow \<Rightarrow>
          (case validateBatch inp (flow_Capabilities flow) of
             Some e \<Rightarrow> Some e
           | None \<Rightarrow>
               if \<not> Offered ob (pi_Flow inp) then
                 (if IsCSC (pi_Flow inp) then Some ErrCSCNotEnabled else Some ErrFlowNotOffered)
               else if IsCSC (pi_Flow inp) \<and>
                 \<not> snd (snd (authCertFor (o_cfg ob) (emptyJob\<lparr>j_Flow := pi_Flow inp, j_AuthCert := pi_AuthCert inp\<rparr>)))
               then Some ErrNoTimestampCert
               else None))"

definition new_document :: "InputDocument \<Rightarrow> Document" where
  "new_document d = emptyDocument\<lparr>d_DocumentID := i_DocumentID d, d_FileName := i_FileName d, d_MimeType := i_MimeType d,
     d_Format := i_Format d, d_Operation := i_Operation d, d_HashOnly := (i_Bytes d = []),
     d_DigestAlgorithm := i_DigestAlgorithm d, d_State := DocPending\<rparr>"

definition new_job :: "('r, 'u) Orchestrator \<Rightarrow> PrepareInput \<Rightarrow> string \<Rightarrow> int \<Rightarrow> int \<Rightarrow> Job" where
  "new_job ob inp jobID created updated = emptyJob\<lparr>j_JobID := jobID, j_Flow := pi_Flow inp, j_State := StatePreparing,
     j_CreatedAt := created, j_UpdatedAt := updated, j_Caller := pi_Caller inp, j_Locale := pi_Locale inp,
     j_PostAuthRedirect := pi_PostAuthRedirect inp, j_AuthErrorRedirect := pi_AuthErrorRedirect inp,
     j_SignatureQualifier := orDefault (pi_SignatureQualifier inp) (cf_DefaultSignatureQualifier (o_cfg ob)),
     j_SealID := pi_SealID inp, j_Documents := map new_document (pi_Documents inp)\<rparr>"

text \<open>\<open>orFail code m\<close>: an error of \<open>m\<close> fails the job, which is saved, and is returned.\<close>

definition orFail :: "('r, 'u) Orchestrator \<Rightarrow> string \<Rightarrow> (('r, 'u) sys, err, 'a) prog \<Rightarrow> (('r, 'u) sys, err, 'a) prog" where
  "orFail ob code m =
     catchE m (\<lambda>e. bindE (failJob ob code (err_text e)) (\<lambda>_. bindE (ignE (saveJob ob)) (\<lambda>_. failE e)))"

definition digests_out :: "Job \<Rightarrow> DigestOut list" where
  "digests_out j = map (\<lambda>d. DigestOut (d_DocumentID d) (d_Digest d) (d_DigestAlgorithm d)) (j_Documents j)"

definition prepare_client :: "('r, 'u) Orchestrator \<Rightarrow> PrepareInput \<Rightarrow> (('r, 'u) sys, err, string \<times> DigestOut list \<times> string) prog" where
  "prepare_client ob inp =
     bindE (setJob (\<lambda>j. j\<lparr>j_SigningCert := pi_SigningCert inp, j_AuthCert := pi_AuthCert inp,
              j_SubjectRef := certSubject (o_env ob) (pi_SigningCert inp)\<rparr>)) (\<lambda>_.
     bindE (orFail ob ''signapi:calculate_digest_failed'' (calculateDigests ob (pi_SigningCert inp))) (\<lambda>_.
     bindE (transitionJob ob StateAwaitingClientSig) (\<lambda>_.
     bindE job (\<lambda>j. retE ([], digests_out j, signAlgoName (j_SignAlgo j))))))"

definition supply_identity :: "PrepareInput \<Rightarrow> Job \<Rightarrow> Job" where
  "supply_identity inp j =
     (if IsCSC (pi_Flow inp) then j\<lparr>j_AuthCert := pi_AuthCert inp\<rparr>
      else if pi_SignIdentityID inp \<noteq> [] \<and> pi_SigningCert inp \<noteq> [] \<and> pi_AuthCert inp \<noteq> [] then
        j\<lparr>j_SignIdentityID := pi_SignIdentityID inp, j_SigningCert := pi_SigningCert inp, j_AuthCert := pi_AuthCert inp\<rparr>
      else j)"

definition prepare_remote :: "('r, 'u) Orchestrator \<Rightarrow> FlowImpl \<Rightarrow> PrepareInput \<Rightarrow> (('r, 'u) sys, err, string \<times> DigestOut list \<times> string) prog" where
  "prepare_remote ob flow inp =
     bindE (setJob (supply_identity inp)) (\<lambda>_.
     bindE (orFail ob ''signing:begin_authorization_failed'' (BeginAuthorization ob flow)) (\<lambda>url.
     bindE (transitionJob ob StateAwaitingAuthorization) (\<lambda>_. retE (url, [], []))))"

definition makeULID :: "('r, 'u) Orchestrator \<Rightarrow> (('r, 'u) sys, err, string) prog" where
  "makeULID ob = onNet (onEnv (\<lambda>u. case e_ulid (o_env ob) u of (i, u') \<Rightarrow> (Inr i, u')))"

definition Prepare :: "('r, 'u) Orchestrator \<Rightarrow> PrepareInput \<Rightarrow> (('r, 'u) sys, err, PrepareResult) prog" where
  "Prepare ob inp =
     (case prepare_refusal ob inp of
        Some e \<Rightarrow> failE e
      | None \<Rightarrow>
          let flow = the (flows (pi_Flow inp)) in
          bindE (makeULID ob) (\<lambda>jobID.
          bindE (time ob) (\<lambda>t1.
          bindE (time ob) (\<lambda>t2.
          bindE (setJob (\<lambda>_. new_job ob inp jobID t1 t2)) (\<lambda>_.
          bindE (orFail ob ''signapi:upload_failed'' (createSessionsAndUpload ob (pi_Documents inp))) (\<lambda>_.
          bindE (if ca_ClientSide (flow_Capabilities flow) then prepare_client ob inp else prepare_remote ob flow inp)
            (\<lambda>(url, digests, algo).
          bindE (saveJob ob) (\<lambda>_.
          bindE job (\<lambda>j.
          retE \<lparr>pr_Job = j, pr_AuthorizeURL = url, pr_Digests = digests, pr_SignAlgo = algo\<rparr>)))))))))"

section \<open>Callback\<close>

text \<open>A failed callback: the job fails, is saved, and the browser goes to the error page.\<close>

definition fail_callback :: "('r, 'u) Orchestrator \<Rightarrow> string \<Rightarrow> string \<Rightarrow> (('r, 'u) sys, err, string) prog" where
  "fail_callback ob code message =
     bindE (failJob ob code message) (\<lambda>_.
     bindE (ignE (saveJob ob)) (\<lambda>_.
     bindE job (\<lambda>j. retE (substituteJobID (j_AuthErrorRedirect j) (j_JobID j)))))"

definition Callback :: "('r, 'u) Orchestrator \<Rightarrow> string \<Rightarrow> string \<Rightarrow> bool \<Rightarrow> (('r, 'u) sys, err, string) prog" where
  "Callback ob state code declined =
     bindE (onRedis (LoadByState (o_jobs ob) state)) (\<lambda>j0.
     bindE (setJob (\<lambda>_. j0)) (\<lambda>_.
     bindE (onRedis (ClearState (o_jobs ob) state)) (\<lambda>_.
     if declined then fail_callback ob ''signing:declined'' ''user declined authorization''
     else
       case flows (j_Flow j0) of
         None \<Rightarrow> fail_callback ob ''signing:unknown_flow'' (j_Flow j0)
       | Some flow \<Rightarrow>
           bindE (tryE (AdvanceCallback ob flow code)) (\<lambda>r.
           case r of
             Inl e \<Rightarrow> fail_callback ob ''signing:callback_failed'' (err_text e)
           | Inr (nextURL, done) \<Rightarrow>
               if \<not> done then bindE (saveJob ob) (\<lambda>_. retE nextURL)
               else
                 bindE (transitionJob ob StateSigning) (\<lambda>_.
                 bindE (saveJob ob) (\<lambda>_.
                 bindE job (\<lambda>j.
                 bindE (ignE (onRedis (EnqueueWork (o_jobs ob) (j_JobID j)))) (\<lambda>_.
                 retE (substituteJobID (j_PostAuthRedirect j) (j_JobID j))))))))))"

section \<open>Client signatures\<close>

text \<open>\<open>want\<close> is the set of document ids that have no signature yet.\<close>

fun attach_signatures :: "SubmittedSignature list \<Rightarrow> string list \<Rightarrow> Job \<Rightarrow> err + string list \<times> Job" where
  "attach_signatures [] want j = Inr (want, j)"
| "attach_signatures (sg # sgs) want j =
     (case Doc j (ss_DocumentID sg) of
        None \<Rightarrow> Inl (ErrOther (''signing: unknown document '' @ quoted (ss_DocumentID sg)))
      | Some i \<Rightarrow> attach_signatures sgs (removeAll (ss_DocumentID sg) want)
          (update_doc i (\<lambda>d. d\<lparr>d_SignatureValue := ss_SignatureValue sg\<rparr>) j))"

definition SubmitSignatures :: "('r, 'u) Orchestrator \<Rightarrow> string \<Rightarrow> SubmittedSignature list \<Rightarrow> (('r, 'u) sys, err, Job) prog" where
  "SubmitSignatures ob jobID sigs =
     bindE (onRedis (Load (o_jobs ob) jobID)) (\<lambda>j.
     if \<not> (case flows (j_Flow j) of None \<Rightarrow> False | Some fl \<Rightarrow> ca_ClientSide (flow_Capabilities fl)) then failE ErrNotClientFlow
     else if \<not> Offered ob (j_Flow j) then failE ErrFlowNotOffered
     else if j_State j \<noteq> StateAwaitingClientSig then failE ErrWrongState
     else
       bindE (ofsumE (attach_signatures sigs (remdups (map d_DocumentID (j_Documents j))) j)) (\<lambda>(want, j').
       if length want \<noteq> 0 then
         failE (ErrOther (''signing: missing signatures for '' @ show_nat (length want) @ '' document(s)''))
       else
         bindE (setJob (\<lambda>_. j')) (\<lambda>_.
         bindE (transitionJob ob StateFinalizing) (\<lambda>_.
         bindE (saveJob ob) (\<lambda>_.
         bindE job (\<lambda>j''.
         bindE (ignE (onRedis (EnqueueWork (o_jobs ob) (j_JobID j'')))) (\<lambda>_. retE j'')))))))"

section \<open>The worker\<close>

definition finalize_step :: "('r, 'u) Orchestrator \<Rightarrow> (('r, 'u) sys, err, unit) prog" where
  "finalize_step ob =
     bindE (tryE (finalize ob)) (\<lambda>r.
     case r of
       Inl e \<Rightarrow> bindE (failJob ob ''signapi:finalize_failed'' (err_text e)) (\<lambda>_.
                bindE (ignE (saveJob ob)) (\<lambda>_. closeSessions))
     | Inr _ \<Rightarrow> ignE (saveJob ob))"

definition sign_step :: "('r, 'u) Orchestrator \<Rightarrow> FlowImpl \<Rightarrow> (('r, 'u) sys, err, unit) prog" where
  "sign_step ob flow =
     bindE (tryE (Sign ob flow)) (\<lambda>r.
     case r of
       Inl e \<Rightarrow> bindE (failJob ob ''signing:sign_failed'' (err_text e)) (\<lambda>_.
                bindE (ignE (saveJob ob)) (\<lambda>_. closeSessions))
     | Inr _ \<Rightarrow> bindE (transitionJob ob StateFinalizing) (\<lambda>_.
                bindE (ignE (saveJob ob)) (\<lambda>_. finalize_step ob)))"

definition RunJob :: "('r, 'u) Orchestrator \<Rightarrow> string \<Rightarrow> (('r, 'u) sys, err, unit) prog" where
  "RunJob ob jobID =
     bindE (tryE (onRedis (Load (o_jobs ob) jobID))) (\<lambda>r.
     case r of
       Inl e \<Rightarrow> retE ()
     | Inr j \<Rightarrow>
         bindE (setJob (\<lambda>_. j)) (\<lambda>_.
         case j_State j of
           StateSigning \<Rightarrow>
             (case flows (j_Flow j) of
                None \<Rightarrow> bindE (failJob ob ''signing:unknown_flow'' (j_Flow j)) (\<lambda>_. ignE (saveJob ob))
              | Some flow \<Rightarrow> sign_step ob flow)
         | StateFinalizing \<Rightarrow> finalize_step ob
         | _ \<Rightarrow> retE ()))"

text \<open>One round of the worker's loop, and \<open>n\<close> rounds; \<open>stopped\<close> is the signal to end.\<close>

definition worker_round :: "('r, 'u) Orchestrator \<Rightarrow> (('r, 'u) sys, err, unit) prog" where
  "worker_round ob =
     bindE (tryE (onRedis (DequeueWork (o_jobs ob) (secs 5)))) (\<lambda>r.
     case r of
       Inl e \<Rightarrow> if err_is e ErrNotFound then retE () else ignE (onNet (onEnv (e_wait (o_env ob) (secs 1))))
     | Inr jobID \<Rightarrow> RunJob ob jobID)"

fun worker_run :: "('r, 'u) Orchestrator \<Rightarrow> (nat \<Rightarrow> bool) \<Rightarrow> nat \<Rightarrow> nat \<Rightarrow> (('r, 'u) sys, err, unit) prog" where
  "worker_run ob stopped k 0 = retE ()"
| "worker_run ob stopped k (Suc n) =
     (if stopped k then retE () else bindE (worker_round ob) (\<lambda>_. worker_run ob stopped (Suc k) n))"

section \<open>Status, download, delete\<close>

definition Status :: "('r, 'u) Orchestrator \<Rightarrow> string \<Rightarrow> (('r, 'u) sys, err, Job) prog" where
  "Status ob jobID = onRedis (Load (o_jobs ob) jobID)"

definition Download :: "('r, 'u) Orchestrator \<Rightarrow> string \<Rightarrow> string \<Rightarrow> bool \<Rightarrow> (('r, 'u) sys, err, string \<times> string \<times> string) prog" where
  "Download ob jobID documentID asice =
     bindE (onRedis (Load (o_jobs ob) jobID)) (\<lambda>j.
     case Doc j documentID of
       None \<Rightarrow> failE ErrNotFound
     | Some i \<Rightarrow>
         (let d = j_Documents j ! i in
          if d_State d \<noteq> DocReady then failE ErrWrongState
          else
            bindE (onNet (List (o_signapi ob) jobID (d_SessionID d))) (\<lambda>files.
            if length files = 0 then failE (ErrOther (''signing: no signed file for document '' @ quoted documentID))
            else
              bindE (onNet (api_Download (o_signapi ob) jobID (d_SessionID d) (fi_ID (last files)) asice)) (\<lambda>data.
              case containerType (d_Format d) asice of (contentType, ext) \<Rightarrow>
              retE (data, contentType, trim_suffix (d_FileName d) (fileExt (d_FileName d)) @ ''-signed'' @ ext)))))"

definition DeleteJob :: "('r, 'u) Orchestrator \<Rightarrow> string \<Rightarrow> (('r, 'u) sys, err, unit) prog" where
  "DeleteJob ob jobID =
     bindE (onRedis (Load (o_jobs ob) jobID)) (\<lambda>j.
     bindE (onRedis (Delete (o_jobs ob) j)) (\<lambda>_.
     bindE (setJob (\<lambda>_. j)) (\<lambda>_. closeSessions)))"

section \<open>Library\<close>

text \<open>A signing step and a save in it, for any predicate that a save and the environment keep.\<close>

lemma Sign_frame:
  assumes inv: "\<And>s s'. P s \<Longrightarrow> core s' = core s \<Longrightarrow> s_redis s' = s_redis s \<Longrightarrow> s_closing s' = s_closing s \<Longrightarrow> P s'"
    and save: "pres P (saveJob ob)"
  shows "pres P (Sign ob fl)"
proof -
  let ?f = "\<lambda>s. (core s, s_redis s, s_closing s)"
  have same: "keeps ?f m \<Longrightarrow> pres P m" for m
    by (rule pres_keeps) (use inv in auto)
  have net: "pres P (onNet m)" for m
    by (rule same, rule keeps_onNet) simp
  have doc: "pres P (setJob (update_doc i (\<lambda>d. d\<lparr>d_SignatureValue := v\<rparr>)))" for i v
    by (rule same, rule keeps_setJob) (simp add: core_update_doc doc_core_def)
  have "pres P (poll_device ob tok sid g n)" for tok sid g n
    by (induction n) (simp_all add: Let_def time_def, (intro pres_intros net; simp)+)
  moreover have "pres P (setJob (\<lambda>j. j\<lparr>j_VerificationCode := c, j_VerificationMessage := m, j_SigningDeadline := t\<rparr>))" for c m t
    by (rule same, rule keeps_setJob) (simp add: core_def)
  ultimately have "pres P (signDevice ob)"
    unfolding signDevice_def job_def time_def by (intro pres_intros net save doc)
  moreover have "keeps ?f (signServerBatch ob)"
    using keeps_core_signServerBatch [of ob]
    by (auto simp: keeps_def signServerBatch_def job_def setJob_def onNet_def run_defs split: prod.split sum.split)
  moreover have "keeps (\<lambda>s. (s_redis s, s_closing s)) (csc_Sign ob)"
    unfolding csc_Sign_def jobDigests_def take_signature_def by (intro keeps_intros) simp_all
  then have "keeps ?f (csc_Sign ob)"
    using Sign_core [of ob "cscFlow [] EIDScan"] by (simp add: keeps_def)
  ultimately show ?thesis by (cases fl) (simp_all add: tx_Sign_def same)
qed

text \<open>What \<open>closeSessions\<close> starts for a job: one close of all its sessions, if it has any.\<close>

definition closes :: "Job \<Rightarrow> (string \<times> string list) list" where
  "closes j = (let sids = filter (\<lambda>sid. sid \<noteq> []) (map d_SessionID (j_Documents j)) in
     if sids = [] then [] else [(j_JobID j, sids)])"

lemma wp_closeSessions [wp_rules]:
  "wp closeSessions Q E = (\<lambda>s. Q () (s\<lparr>s_closing := s_closing s @ closes (s_job s)\<rparr>))"
  by (auto simp: closeSessions_def closeLater_def closes_def wp_rules Let_def fun_eq_iff)

lemma closes_cong:
  "j_JobID j' = j_JobID j \<Longrightarrow> map d_SessionID (j_Documents j') = map d_SessionID (j_Documents j) \<Longrightarrow> closes j' = closes j"
  by (simp add: closes_def Let_def)

lemma closes_Fail [simp]: "closes (Fail c m t j) = closes j"
  by (rule closes_cong) (simp_all add: fail_document_def)

lemma closes_Transition [simp]: "closes (snd (Transition st t j)) = closes j"
  by (rule closes_cong) simp_all

lemma core_documents:
  assumes "core s' = core s"
  shows "map d_SessionID (j_Documents (s_job s')) = map d_SessionID (j_Documents (s_job s))"
    and "map d_State (j_Documents (s_job s')) = map d_State (j_Documents (s_job s))"
    and "map d_DocumentID (j_Documents (s_job s')) = map d_DocumentID (j_Documents (s_job s))"
proof -
  let ?ds = "j_Documents (s_job s)" and ?ds' = "j_Documents (s_job s')"
  have "map doc_core ?ds' = map doc_core ?ds" using assms by (simp add: core_def)
  then have f: "map (f \<circ> doc_core) ?ds' = map (f \<circ> doc_core) ?ds" for f :: "string \<times> string \<times> DocState \<Rightarrow> 'z"
    by (simp only: map_map [symmetric])
  show "map d_SessionID ?ds' = map d_SessionID ?ds" using f [of "fst \<circ> snd"] by (simp add: doc_core_def comp_def)
  show "map d_State ?ds' = map d_State ?ds" using f [of "snd \<circ> snd"] by (simp add: doc_core_def comp_def)
  show "map d_DocumentID ?ds' = map d_DocumentID ?ds" using f [of fst] by (simp add: doc_core_def comp_def)
qed

lemma closes_core: "core s' = core s \<Longrightarrow> closes (s_job s') = closes (s_job s)"
  by (rule closes_cong, simp add: core_def, rule core_documents(1))

subsection \<open>An orchestrator on a Redis that is up\<close>

locale running = reliable_store R content items S up
  for R :: "'r redis" and content items S up +
  fixes ob :: "('r, 'u) Orchestrator"
  assumes jobs_S: "o_jobs ob = S"
begin

lemma wp_saveJob:
  assumes "up (s_redis s)"
    and "\<And>r. up r \<Longrightarrow> jobsR r = (jobsR (s_redis s))(j_JobID (s_job s) \<mapsto> s_job s) \<Longrightarrow> workR r = workR (s_redis s) \<Longrightarrow>
      indexR r = (if j_OAuthState (s_job s) = [] then indexR (s_redis s)
        else (indexR (s_redis s))(j_OAuthState (s_job s) \<mapsto> j_JobID (s_job s))) \<Longrightarrow> Q () (s\<lparr>s_redis := r\<rparr>)"
  shows "wp (saveJob ob) Q E s"
  unfolding saveJob_def wp_rules jobs_S by (rule wp_mono [OF Save_up [OF assms(1)]]) (use assms(2) in auto)

lemma wp_Load:
  assumes "up (s_redis s)" and "jobsR (s_redis s) i = Some j"
    and "\<And>r. up r \<Longrightarrow> jobsR r = jobsR (s_redis s) \<Longrightarrow> indexR r = indexR (s_redis s) \<Longrightarrow> workR r = workR (s_redis s) \<Longrightarrow>
      Q j (s\<lparr>s_redis := r\<rparr>)"
  shows "wp (onRedis (Load S i)) Q E s"
  unfolding wp_onRedis by (rule wp_mono [OF Load_up [OF assms(1,2)]]) (use assms(3) in auto)

text \<open>The job is stored under \<open>i\<close>, everything else is as in \<open>r0\<close>.\<close>

definition settled :: "'r \<Rightarrow> string \<Rightarrow> ('r, 'u) sys \<Rightarrow> bool" where
  "settled r0 i s \<longleftrightarrow> up (s_redis s) \<and> workR (s_redis s) = workR r0 \<and>
     (\<forall>k. k \<noteq> i \<longrightarrow> jobsR (s_redis s) k = jobsR r0 k) \<and> j_JobID (s_job s) = i"

lemma settled_net [simp]: "settled r0 i (s\<lparr>s_net := n\<rparr>) = settled r0 i s"
  by (simp add: settled_def)

lemma save_settled: "pres (settled r0 i) (saveJob ob)"
  by (rule presI, rule wp_saveJob) (auto simp: settled_def)

text \<open>The last save of a run, whose job is the one in hand.\<close>

lemma save_last:
  assumes "settled r0 i s"
    and "\<And>r. up r \<Longrightarrow> jobsR r = (jobsR r0)(i \<mapsto> s_job s) \<Longrightarrow> workR r = workR r0 \<Longrightarrow> Q () (s\<lparr>s_redis := r\<rparr>)"
  shows "wp (saveJob ob) Q E s"
  by (rule wp_saveJob) (use assms in \<open>auto simp: settled_def fun_eq_iff\<close>)

end

lemma wp_makeULID:
  "(\<And>n. n_log n = n_log (s_net s) \<Longrightarrow> Q (fst (e_ulid (o_env ob) (n_env (s_net s)))) (s\<lparr>s_net := n\<rparr>)) \<Longrightarrow> wp (makeULID ob) Q E s"
  by (cases "e_ulid (o_env ob) (n_env (s_net s))") (simp add: makeULID_def wp_rules wp_def)

lemma flows_listed: "flows f \<noteq> None \<longleftrightarrow> f \<in> set Flows"
  by (auto simp: flows_def Flows_def flow_names)

lemma offered_listed: "f \<in> set (OfferedFlows ob) \<longleftrightarrow> Offered ob f"
  using flows_listed [of f] by (auto simp: OfferedFlows_def Offered_def)

text \<open>The flows that sign one document at a time.\<close>

lemma single_only:
  "flows f = Some fl \<Longrightarrow> \<not> ca_SupportsBatch (flow_Capabilities fl) \<or> ca_SingleSessionOnly (flow_Capabilities fl) \<longleftrightarrow> f = FlowEIDScan"
  by (auto simp: flows_def flow_names no_capabilities_def split: if_splits)

definition one_batch :: "PrepareInput \<Rightarrow> bool" where
  "one_batch inp \<longleftrightarrow> (\<exists>d ds. pi_Documents inp = d # ds \<and> list_all (\<lambda>d'. i_Format d' = i_Format d) ds \<and>
     (ds = [] \<or> pi_Flow inp \<noteq> FlowEIDScan))"

lemma validateBatch_iff:
  "flows (pi_Flow inp) = Some fl \<Longrightarrow> validateBatch inp (flow_Capabilities fl) = None \<longleftrightarrow> one_batch inp"
  using single_only [of "pi_Flow inp" fl]
  by (auto simp: validateBatch_def one_batch_def list_ex_iff list_all_iff split: list.split)

lemma prepare_refusal_iff:
  "prepare_refusal ob inp = None \<longleftrightarrow> Offered ob (pi_Flow inp) \<and> one_batch inp \<and>
     (IsCSC (pi_Flow inp) \<longrightarrow> snd (snd (authCertFor (o_cfg ob) (emptyJob\<lparr>j_Flow := pi_Flow inp, j_AuthCert := pi_AuthCert inp\<rparr>))))"
proof (cases "flows (pi_Flow inp)")
  case (Some fl)
  then show ?thesis
    using validateBatch_iff [OF Some] by (auto simp: prepare_refusal_def split: option.split)
qed (simp add: prepare_refusal_def Offered_def)

text \<open>What the steps of \<open>Prepare\<close> leave alone until the job's first transition.\<close>

definition shell :: "Job \<Rightarrow> string \<times> Flow \<times> JobState \<times> string list \<times> DocState list" where
  "shell j = (j_JobID j, j_Flow j, j_State j, map d_DocumentID (j_Documents j), map d_State (j_Documents j))"

lemma shell_core:
  assumes c: "core s' = core s"
  shows "shell (s_job s') = shell (s_job s)"
  using core_documents(2,3) [OF c] c by (simp add: shell_def core_def)

lemma keeps_shell: "keeps core m \<Longrightarrow> keeps s_redis m \<Longrightarrow> keeps (\<lambda>s. (shell (s_job s), s_redis s)) m"
  unfolding keeps_def using shell_core by fastforce

lemma shell_update_doc: "(\<And>d. (d_DocumentID (f d), d_State (f d)) = (d_DocumentID d, d_State d)) \<Longrightarrow> shell (update_doc i f j) = shell j"
  by (cases "i < length (j_Documents j)")
     (auto simp: shell_def update_doc_def map_update list_update_beyond intro!: nth_equalityI simp: nth_list_update)

lemma createSessions_keeps: "keeps (\<lambda>s. (shell (s_job s), s_redis s)) (createSessionsAndUpload ob ins)"
  unfolding createSessionsAndUpload_def upload_document_def
  by (intro keeps_intros) (simp_all add: shell_update_doc)

lemma calculateDigests_shell: "keeps (\<lambda>s. (shell (s_job s), s_redis s)) (calculateDigests ob cert)"
  by (rule keeps_shell [OF keeps_core_digests keeps_redis_digests])

lemma BeginAuthorization_shell: "keeps (\<lambda>s. (shell (s_job s), s_redis s)) (BeginAuthorization ob fl)"
  by (rule keeps_shell [OF BeginAuthorization_keeps])

text \<open>How a worker leaves a job: ready with nothing left to sign, or failed as a whole.\<close>

definition ready_job :: "Job \<Rightarrow> bool" where
  "ready_job j \<longleftrightarrow> j_State j = StateReady \<and> list_all (\<lambda>d. d_State d = DocReady \<and> d_SignatureValue d = []) (j_Documents j)"

definition failed_job :: "Job \<Rightarrow> bool" where
  "failed_job j \<longleftrightarrow> j_State j = StateFailed \<and> j_Err j \<noteq> None \<and> list_all (\<lambda>d. d_State d \<in> {DocReady, DocFailed}) (j_Documents j)"

lemma failed_Fail [simp]: "failed_job (Fail c m t j)"
  by (auto simp: failed_job_def list_all_iff fail_document_def)

lemma ready_marked: "j_State (snd (Transition StateReady t (j\<lparr>j_Documents := map mark_ready ds\<rparr>))) = StateReady \<Longrightarrow>
    ready_job (snd (Transition StateReady t (j\<lparr>j_Documents := map mark_ready ds\<rparr>)))"
  by (simp add: ready_job_def list_all_iff mark_ready_def)

lemma finalize_keeps: "keeps (\<lambda>s. (s_redis s, s_closing s, j_JobID (s_job s))) (finalize ob)"
  unfolding finalize_def transitionJob_def time_def by (intro keeps_intros) (simp_all add: Transition_def)

lemma finalize_outcome:
  assumes "signapi_client (o_signapi ob)" and "j_State (s_job s) = StateFinalizing"
  shows "wp (finalize ob)
     (\<lambda>_ s'. ready_job (s_job s') \<and> s_redis s' = s_redis s \<and> s_closing s' = s_closing s \<and> j_JobID (s_job s') = j_JobID (s_job s))
     (\<lambda>_ s'. s_job s' = s_job s \<and> s_redis s' = s_redis s \<and> s_closing s' = s_closing s) s"
proof (rule wp_mono [OF wp_conj [OF finalize_spec [OF assms(1)] keepsD [OF finalize_keeps]]], goal_cases)
  case (1 x s')
  then have "j_State (s_job s') = StateReady"
    using finalized_documents [of ob s s'] assms(2) by (simp add: CanTransition_def)
  with 1 show ?case by (auto simp: finalized_def intro: ready_marked simp del: split_paired_Ex)
qed (auto simp: not_finalized_def)

text \<open>
  How a callback leaves the job \<open>j'\<close> of the job \<open>j\<close> and the queue \<open>w'\<close> of \<open>w\<close>, and where it sends
  the browser: failed, and to the error page; waiting for a further leg; or authorized, queued
  for the worker once, and to the page after.
\<close>

definition called_back :: "Job \<Rightarrow> string list \<Rightarrow> Job \<Rightarrow> string list \<Rightarrow> string \<Rightarrow> bool" where
  "called_back j w j' w' url \<longleftrightarrow>
     failed_job j' \<and> w' = w \<and> url = substituteJobID (j_AuthErrorRedirect j') (j_JobID j') \<or>
     j_State j' = j_State j \<and> w' = w \<or>
     j_State j' = (if CanTransition (j_State j) StateSigning then StateSigning else j_State j) \<and> w' = j_JobID j # w \<and>
       url = substituteJobID (j_PostAuthRedirect j') (j_JobID j')"

lemma client_side_iff:
  "(case flows f of None \<Rightarrow> False | Some fl \<Rightarrow> ca_ClientSide (flow_Capabilities fl)) \<longleftrightarrow> IsClientSide f"
  by (auto simp: flows_def IsClientSide_def flow_names no_capabilities_def)

text \<open>The value submitted last for a document id, and the documents that carry the values.\<close>

definition submitted :: "SubmittedSignature list \<Rightarrow> string \<Rightarrow> string option" where
  "submitted sigs = map_of (rev (map (\<lambda>sg. (ss_DocumentID sg, ss_SignatureValue sg)) sigs))"

definition with_submitted :: "SubmittedSignature list \<Rightarrow> Document \<Rightarrow> Document" where
  "with_submitted sigs d = (case submitted sigs (d_DocumentID d) of None \<Rightarrow> d | Some v \<Rightarrow> d\<lparr>d_SignatureValue := v\<rparr>)"

lemma with_submitted_id [simp]: "d_DocumentID (with_submitted sigs d) = d_DocumentID d"
  by (simp add: with_submitted_def split: option.split)

lemma with_submitted_nil [simp]: "with_submitted [] = id"
  by (simp add: with_submitted_def submitted_def fun_eq_iff)

lemma with_submitted_snoc:
  "with_submitted (sigs @ [sg]) d = (if ss_DocumentID sg = d_DocumentID d
     then (with_submitted sigs d)\<lparr>d_SignatureValue := ss_SignatureValue sg\<rparr> else with_submitted sigs d)"
  by (simp add: with_submitted_def submitted_def split: option.split)

lemma update_submitted:
  assumes "distinct (map d_DocumentID ds)" and "doc_index (map (with_submitted done) ds) (ss_DocumentID sg) = Some i"
  shows "(map (with_submitted done) ds)[i := (map (with_submitted done) ds ! i)\<lparr>d_SignatureValue := ss_SignatureValue sg\<rparr>] =
    map (with_submitted (done @ [sg])) ds"
proof -
  from doc_index_Some [OF assms(2)] have i: "i < length ds" "d_DocumentID (ds ! i) = ss_DocumentID sg" by auto
  have other: "ss_DocumentID sg \<noteq> d_DocumentID (ds ! k)" if "k < length ds" "k \<noteq> i" for k
    using assms(1) that i by (metis length_map nth_eq_iff_index_eq nth_map)
  show ?thesis
  proof (rule nth_equalityI)
    fix k assume "k < length ((map (with_submitted done) ds)[i := (map (with_submitted done) ds ! i)\<lparr>d_SignatureValue := ss_SignatureValue sg\<rparr>])"
    then show "(map (with_submitted done) ds)[i := (map (with_submitted done) ds ! i)\<lparr>d_SignatureValue := ss_SignatureValue sg\<rparr>] ! k =
        map (with_submitted (done @ [sg])) ds ! k"
      using i other [of k] by (cases "k = i") (simp_all add: with_submitted_snoc)
  qed simp
qed

lemma attach_signatures_ok:
  assumes "distinct (map d_DocumentID (j_Documents j0))"
  shows "attach_signatures sgs want (j0\<lparr>j_Documents := map (with_submitted seen) (j_Documents j0)\<rparr>) = Inr (want', j') \<Longrightarrow>
    want' = filter (\<lambda>w. w \<notin> ss_DocumentID ` set sgs) want \<and> ss_DocumentID ` set sgs \<subseteq> d_DocumentID ` set (j_Documents j0) \<and>
    j' = j0\<lparr>j_Documents := map (with_submitted (seen @ sgs)) (j_Documents j0)\<rparr>"
proof (induction sgs arbitrary: want seen)
  case (Cons sg sgs)
  from Cons.prems obtain i where i: "doc_index (map (with_submitted seen) (j_Documents j0)) (ss_DocumentID sg) = Some i"
    by (auto simp: Doc_def split: option.splits)
  have upd: "update_doc i (\<lambda>d. d\<lparr>d_SignatureValue := ss_SignatureValue sg\<rparr>) (j0\<lparr>j_Documents := map (with_submitted seen) (j_Documents j0)\<rparr>) =
      j0\<lparr>j_Documents := map (with_submitted (seen @ [sg])) (j_Documents j0)\<rparr>"
    using update_submitted [OF assms i] by (simp add: update_doc_def)
  from Cons.prems i have "attach_signatures sgs (removeAll (ss_DocumentID sg) want)
      (j0\<lparr>j_Documents := map (with_submitted (seen @ [sg])) (j_Documents j0)\<rparr>) = Inr (want', j')"
    by (simp add: Doc_def upd)
  moreover have "ss_DocumentID sg \<in> d_DocumentID ` set (j_Documents j0)"
    using doc_index_Some [OF i] by (auto intro: image_eqI [where x = "j_Documents j0 ! i"])
  ultimately show ?case using Cons.IH [of "removeAll (ss_DocumentID sg) want" "seen @ [sg]"]
    by (simp add: removeAll_filter_not_eq eq_commute [of "ss_DocumentID sg"])
qed simp

lemma attach_signatures_frame:
  "attach_signatures sgs want j = Inr (want', j') \<Longrightarrow> j_JobID j' = j_JobID j \<and> j_State j' = j_State j \<and> j_OAuthState j' = j_OAuthState j \<and>
     j_Flow j' = j_Flow j \<and> map doc_core (j_Documents j') = map doc_core (j_Documents j)"
proof (induction sgs arbitrary: want j)
  case (Cons sg sgs)
  have "map doc_core (j_Documents (update_doc i (\<lambda>d. d\<lparr>d_SignatureValue := v\<rparr>) j)) = map doc_core (j_Documents j)" for i v
    by (cases "i < length (j_Documents j)")
       (auto simp: update_doc_def map_update list_update_beyond doc_core_def intro!: nth_equalityI simp: nth_list_update)
  then show ?case using Cons by (fastforce simp: update_doc_def split: option.splits)
qed simp

context running
begin

text \<open>The end of a run: the job in hand is stored under \<open>i\<close>, and the closes are those of a failure.\<close>

definition run_ended :: "'r \<Rightarrow> string \<Rightarrow> (string \<times> string list) list \<Rightarrow> (string \<times> string list) list \<Rightarrow> ('r, 'u) sys \<Rightarrow> bool" where
  "run_ended r0 i cl cs s \<longleftrightarrow> up (s_redis s) \<and> workR (s_redis s) = workR r0 \<and> jobsR (s_redis s) = (jobsR r0)(i \<mapsto> s_job s) \<and>
     (ready_job (s_job s) \<and> s_closing s = cl \<or> failed_job (s_job s) \<and> s_closing s = cl @ cs)"

lemma fail_and_close:
  assumes "settled r0 i s"
  shows "wp (bindE (failJob ob c m) (\<lambda>_. bindE (ignE (saveJob ob)) (\<lambda>_. closeSessions)))
     (\<lambda>_. run_ended r0 i (s_closing s) (closes (s_job s))) E s"
  unfolding wp_rules
  by (rule wp_failJob, rule save_last [where i = i and ?r0.0 = r0])
     (use assms in \<open>auto simp: settled_def run_ended_def\<close>)

lemma finalize_step_ends:
  assumes sa: "signapi_client (o_signapi ob)" and st: "settled r0 i s" and "j_State (s_job s) = StateFinalizing"
  shows "wp (finalize_step ob) (\<lambda>_. run_ended r0 i (s_closing s) (closes (s_job s))) (\<lambda>_ _. False) s"
  unfolding finalize_step_def wp_bindE wp_tryE
proof (rule wp_mono [OF finalize_outcome [OF sa assms(3)]], goal_cases)
  case (1 x s')
  then have "settled r0 i s'" using st by (simp add: settled_def)
  then show ?case
    unfolding sum.case wp_ignE by (rule save_last) (use 1 in \<open>simp add: run_ended_def\<close>)
next
  case (2 e s')
  then have "settled r0 i s'" using st by (simp add: settled_def)
  from fail_and_close [OF this] 2 show ?case by (simp add: wp_bindE)
qed

lemma sign_step_ends:
  assumes sa: "signapi_client (o_signapi ob)" and st: "settled r0 i s" and "j_State (s_job s) = StateSigning"
  shows "wp (sign_step ob fl) (\<lambda>_. run_ended r0 i (s_closing s) (closes (s_job s))) (\<lambda>_ _. False) s"
proof -
  let ?P = "\<lambda>s'. settled r0 i s' \<and> core s' = core s \<and> s_closing s' = s_closing s"
  have "pres ?P (saveJob ob)"
    by (rule presI, rule wp_saveJob) (auto simp: settled_def)
  then have "pres ?P (Sign ob fl)"
    by (rule Sign_frame [rotated]) (auto simp: settled_def core_def)
  then have sign: "wp (Sign ob fl) (\<lambda>_. ?P) (\<lambda>_. ?P) s"
    by (rule presD) (use st in simp)
  have fin: "wp (finalize_step ob) (\<lambda>_. run_ended r0 i (s_closing s) (closes (s_job s))) (\<lambda>_ _. False) s2"
    if "settled r0 i s2" "closes (s_job s2) = closes (s_job s)" "s_closing s2 = s_closing s" "j_State (s_job s2) = StateFinalizing" for s2
    using finalize_step_ends [OF sa that(1,4)] by (simp add: that)
  show ?thesis
    unfolding sign_step_def wp_bindE wp_tryE
  proof (rule wp_mono [OF sign], goal_cases)
    case (1 x s')
    then have c: "closes (s_job s') = closes (s_job s)" by (blast intro: closes_core)
    have j: "j_State (s_job s') = StateSigning" "j_JobID (s_job s') = i" using 1 assms(3) st by (auto simp: core_def settled_def)
    then show ?case
      unfolding sum.case wp_bindE wp_ignE
      by (intro wp_transitionJob wp_saveJob fin)
         (use 1 c in \<open>auto simp: settled_def Transition_state CanTransition_def\<close>)
  next
    case (2 e s')
    then have "closes (s_job s') = closes (s_job s)" by (blast intro: closes_core)
    with fail_and_close [of r0 i s'] 2 show ?case by (simp add: wp_bindE)
  qed
qed

lemma RunJob_outcome:
  assumes sa: "signapi_client (o_signapi ob)" and redis: "up (s_redis s)" and stored: "jobsR (s_redis s) i = Some j" "j_JobID j = i"
    and work: "j_State j \<in> {StateSigning, StateFinalizing}"
  shows "wp (RunJob ob i) (\<lambda>_. run_ended (s_redis s) i (s_closing s) (if j_State j = StateSigning \<and> flows (j_Flow j) = None then [] else closes j))
    (\<lambda>_ _. False) s"
proof -
  have run: "wp (case j_State j of StateSigning \<Rightarrow> (case flows (j_Flow j) of
          None \<Rightarrow> bindE (failJob ob ''signing:unknown_flow'' (j_Flow j)) (\<lambda>_. ignE (saveJob ob)) | Some flow \<Rightarrow> sign_step ob flow)
        | StateFinalizing \<Rightarrow> finalize_step ob | _ \<Rightarrow> retE ())
      (\<lambda>_. run_ended (s_redis s) i (s_closing s) (if j_State j = StateSigning \<and> flows (j_Flow j) = None then [] else closes j)) (\<lambda>_ _. False) s1"
    if s1: "settled (s_redis s) i s1" "s_job s1 = j" "s_closing s1 = s_closing s" for s1
  proof (cases "j_State j = StateSigning")
    case True
    show ?thesis
    proof (cases "flows (j_Flow j)")
      case None
      with True show ?thesis
        by (auto simp: wp_rules intro!: wp_failJob save_last [where i = i and ?r0.0 = "s_redis s"])
           (use s1 in \<open>simp_all add: run_ended_def settled_def\<close>)
    next
      case (Some fl)
      with True sign_step_ends [OF sa s1(1), of fl] s1 show ?thesis by simp
    qed
  next
    case False
    with work finalize_step_ends [OF sa s1(1)] s1 show ?thesis by simp
  qed
  show ?thesis
    unfolding RunJob_def wp_bindE wp_tryE jobs_S
    by (rule wp_Load [OF redis stored(1)], simp only: sum.case wp_bindE wp_setJob, rule run)
       (use stored redis in \<open>simp_all add: settled_def\<close>)
qed

subsubsection \<open>Callback\<close>

lemma wp_fail_callback:
  assumes "up (s_redis s)"
    and "\<And>s'. up (s_redis s') \<Longrightarrow> failed_job (s_job s') \<Longrightarrow> j_JobID (s_job s') = j_JobID (s_job s) \<Longrightarrow>
      j_OAuthState (s_job s') = j_OAuthState (s_job s) \<Longrightarrow> j_Err (s_job s') = Some (JobError c m) \<Longrightarrow>
      jobsR (s_redis s') = (jobsR (s_redis s))(j_JobID (s_job s') \<mapsto> s_job s') \<Longrightarrow> workR (s_redis s') = workR (s_redis s) \<Longrightarrow>
      indexR (s_redis s') = (if j_OAuthState (s_job s') = [] then indexR (s_redis s)
        else (indexR (s_redis s))(j_OAuthState (s_job s') \<mapsto> j_JobID (s_job s'))) \<Longrightarrow>
      Q (substituteJobID (j_AuthErrorRedirect (s_job s')) (j_JobID (s_job s'))) s'"
  shows "wp (fail_callback ob c m) Q E s"
  unfolding fail_callback_def wp_rules
  by (rule wp_failJob, rule wp_saveJob, simp add: assms(1), rule assms(2)) simp_all

text \<open>The index after a save of the job in hand, when the state \<open>st\<close> was cleared before.\<close>

definition index_moved :: "'r \<Rightarrow> string \<Rightarrow> ('r, 'u) sys \<Rightarrow> bool" where
  "index_moved r0 st s \<longleftrightarrow> indexR (s_redis s) =
     (let ix = (if st = [] then indexR r0 else (indexR r0)(st := None)) in
      if j_OAuthState (s_job s) = [] then ix else ix(j_OAuthState (s_job s) \<mapsto> j_JobID (s_job s)))"

definition called_back_to :: "('r, 'u) sys \<Rightarrow> string \<Rightarrow> Job \<Rightarrow> bool \<Rightarrow> string \<Rightarrow> ('r, 'u) sys \<Rightarrow> bool" where
  "called_back_to s st j declined url s' \<longleftrightarrow> up (s_redis s') \<and> j_JobID (s_job s') = j_JobID j \<and>
     jobsR (s_redis s') = (jobsR (s_redis s))(j_JobID j \<mapsto> s_job s') \<and> index_moved (s_redis s) st s' \<and>
     called_back j (workR (s_redis s)) (s_job s') (workR (s_redis s')) url \<and>
     (declined \<longrightarrow> failed_job (s_job s') \<and> j_OAuthState (s_job s') = j_OAuthState j \<and> workR (s_redis s') = workR (s_redis s))"

definition calling_back :: "('r, 'u) sys \<Rightarrow> string \<Rightarrow> Job \<Rightarrow> ('r, 'u) sys \<Rightarrow> bool" where
  "calling_back s st j s1 \<longleftrightarrow> up (s_redis s1) \<and> jobsR (s_redis s1) = jobsR (s_redis s) \<and> workR (s_redis s1) = workR (s_redis s) \<and>
     indexR (s_redis s1) = (if st = [] then indexR (s_redis s) else (indexR (s_redis s))(st := None)) \<and>
     j_JobID (s_job s1) = j_JobID j \<and> j_State (s_job s1) = j_State j"

lemmas callback_defs = called_back_to_def calling_back_def index_moved_def called_back_def Let_def

lemma callback_fails:
  assumes "calling_back s st j s1" and "declined \<longrightarrow> j_OAuthState (s_job s1) = j_OAuthState j"
  shows "wp (fail_callback ob c m) (called_back_to s st j declined) E s1"
  by (rule wp_fail_callback) (use assms in \<open>auto simp: callback_defs\<close>)

lemma callback_goes_on:
  assumes "calling_back s st j s1" and "\<not> declined"
  shows "wp (saveJob ob) (\<lambda>_. called_back_to s st j declined url) E s1"
  by (rule wp_saveJob) (use assms in \<open>auto simp: callback_defs\<close>)

lemma callback_finishes:
  assumes "calling_back s st j s1" and "\<not> declined"
  shows "wp (bindE (transitionJob ob StateSigning) (\<lambda>_. bindE (saveJob ob) (\<lambda>_. bindE job (\<lambda>j.
        bindE (ignE (onRedis (EnqueueWork (o_jobs ob) (j_JobID j)))) (\<lambda>_. retE (substituteJobID (j_PostAuthRedirect j) (j_JobID j)))))))
      (called_back_to s st j declined) E s1"
  unfolding wp_rules jobs_S
  by (intro wp_transitionJob wp_saveJob wp_mono [OF EnqueueWork_up])
     (use assms in \<open>auto simp: callback_defs Transition_state\<close>)

lemma callback_advances:
  assumes "calling_back s st j s1"
  shows "wp (AdvanceCallback ob fl code) (\<lambda>_. calling_back s st j) (\<lambda>_. calling_back s st j) s1"
  by (rule wp_mono [OF wp_conj [OF keepsD [OF AdvanceCallback_keeps(1)] keepsD [OF AdvanceCallback_keeps(2)]]])
     (use assms in \<open>auto simp: core_def calling_back_def\<close>)

lemma Callback_outcome:
  assumes redis: "up (s_redis s)" and stored: "indexR (s_redis s) st = Some (j_JobID j)" "jobsR (s_redis s) (j_JobID j) = Some j"
  shows "wp (Callback ob st code declined) (called_back_to s st j declined) (\<lambda>_ _. False) s"
proof -
  have body: "wp (if declined then fail_callback ob ''signing:declined'' ''user declined authorization'' else
       case flows f of None \<Rightarrow> fail_callback ob ''signing:unknown_flow'' f
       | Some flow \<Rightarrow> bindE (tryE (AdvanceCallback ob flow code)) (\<lambda>r. case r of
             Inl e \<Rightarrow> fail_callback ob ''signing:callback_failed'' (err_text e)
           | Inr (nextURL, complete) \<Rightarrow>
               if \<not> complete then bindE (saveJob ob) (\<lambda>_. retE nextURL)
               else bindE (transitionJob ob StateSigning) (\<lambda>_. bindE (saveJob ob) (\<lambda>_. bindE job (\<lambda>j.
                 bindE (ignE (onRedis (EnqueueWork (o_jobs ob) (j_JobID j)))) (\<lambda>_.
                 retE (substituteJobID (j_PostAuthRedirect j) (j_JobID j))))))))
      (called_back_to s st j declined) (\<lambda>_ _. False) s1"
    if s1: "calling_back s st j s1" "j_OAuthState (s_job s1) = j_OAuthState j" for f s1
  proof (cases declined)
    case False
    have adv: "wp (AdvanceCallback ob fl code) (\<lambda>x. wp (case x of (nextURL, complete) \<Rightarrow>
               if \<not> complete then bindE (saveJob ob) (\<lambda>_. retE nextURL)
               else bindE (transitionJob ob StateSigning) (\<lambda>_. bindE (saveJob ob) (\<lambda>_. bindE job (\<lambda>j.
                 bindE (ignE (onRedis (EnqueueWork (o_jobs ob) (j_JobID j)))) (\<lambda>_.
                 retE (substituteJobID (j_PostAuthRedirect j) (j_JobID j))))))) (called_back_to s st j declined) (\<lambda>_ _. False))
        (\<lambda>e. wp (fail_callback ob ''signing:callback_failed'' (err_text e)) (called_back_to s st j declined) (\<lambda>_ _. False)) s1" for fl
      by (rule wp_mono [OF callback_advances [OF s1(1)]])
         (use False in \<open>auto simp: wp_bindE [of "saveJob ob" "\<lambda>_. retE _"] wp_retE split: prod.split
            intro!: callback_goes_on callback_finishes callback_fails\<close>)
    show ?thesis
      using False adv callback_fails [OF s1(1)] by (auto simp: wp_bindE [of "tryE _"] wp_tryE split: option.split)
  qed (use callback_fails s1 in simp)
  show ?thesis
    unfolding Callback_def wp_bindE [of "onRedis _"] wp_bindE [of "setJob _"] jobs_S wp_onRedis wp_setJob
  proof (intro wp_mono [OF LoadByState_up [OF redis stored]] wp_mono [OF ClearState_up], goal_cases)
    case (2 j1 r1 x r2)
    then show ?case by (intro body [unfolded jobs_S]) (auto simp: calling_back_def)
  qed auto
qed

subsubsection \<open>Client signatures\<close>

lemma SubmitSignatures_outcome:
  assumes redis: "up (s_redis s)" and stored: "jobsR (s_redis s) i = Some j" "j_JobID j = i"
    and ids: "distinct (map d_DocumentID (j_Documents j))"
  shows "wp (SubmitSignatures ob i sigs)
     (\<lambda>j' s'. IsClientSide (j_Flow j) \<and> Offered ob (j_Flow j) \<and> j_State j = StateAwaitingClientSig \<and> j_State j' = StateFinalizing \<and>
        ss_DocumentID ` set sigs = d_DocumentID ` set (j_Documents j) \<and>
        j_Documents j' = map (with_submitted sigs) (j_Documents j) \<and>
        jobsR (s_redis s') = (jobsR (s_redis s))(i \<mapsto> j') \<and> workR (s_redis s') = i # workR (s_redis s))
     (\<lambda>e s'. jobsR (s_redis s') = jobsR (s_redis s) \<and> indexR (s_redis s') = indexR (s_redis s) \<and>
        workR (s_redis s') = workR (s_redis s) \<and> s_net s' = s_net s) s"
  unfolding SubmitSignatures_def wp_bindE [of "onRedis _"] jobs_S
proof (rule wp_Load [OF redis stored(1)], goal_cases)
  case (1 r)
  let ?want = "remdups (map d_DocumentID (j_Documents j))"
  show ?case
  proof (cases "IsClientSide (j_Flow j) \<and> Offered ob (j_Flow j) \<and> j_State j = StateAwaitingClientSig")
    case False
    with 1 show ?thesis unfolding client_side_iff by (auto simp: wp_if wp_failE)
  next
    case True
    show ?thesis
    proof (cases "attach_signatures sigs ?want j")
      case (Inl e)
      with 1 True show ?thesis unfolding client_side_iff by (simp add: wp_rules)
    next
      case (Inr p)
      then obtain want j' where at: "attach_signatures sigs ?want j = Inr (want, j')" by (cases p) auto
      with attach_signatures_ok [OF ids, of sigs ?want "[]" want j']
      have ok: "want = filter (\<lambda>w. w \<notin> ss_DocumentID ` set sigs) ?want" "ss_DocumentID ` set sigs \<subseteq> d_DocumentID ` set (j_Documents j)"
        "j' = j\<lparr>j_Documents := map (with_submitted sigs) (j_Documents j)\<rparr>"
        by simp_all
      have all: "want = [] \<Longrightarrow> ss_DocumentID ` set sigs = d_DocumentID ` set (j_Documents j)"
        using ok(1,2) by (auto simp: filter_empty_conv)
      show ?thesis
        unfolding client_side_iff
        by (simp add: True at wp_rules 1, intro impI conjI wp_transitionJob wp_saveJob wp_mono [OF EnqueueWork_up])
           (use 1 stored True all in \<open>auto simp: ok(3) Transition_state CanTransition_def\<close>)
    qed
  qed
qed

subsubsection \<open>Prepare\<close>

definition preparing :: "'r \<Rightarrow> PrepareInput \<Rightarrow> ('r, 'u) sys \<Rightarrow> bool" where
  "preparing r0 inp s \<longleftrightarrow> s_redis s = r0 \<and> (\<exists>i. shell (s_job s) = (i, pi_Flow inp, StatePreparing,
     map i_DocumentID (pi_Documents inp), map (\<lambda>_. DocPending) (pi_Documents inp)))"

definition not_prepared :: "'r \<Rightarrow> ('r, 'u) sys \<Rightarrow> bool" where
  "not_prepared r0 s \<longleftrightarrow> (\<exists>j. failed_job j \<and> list_all (\<lambda>d. d_State d = DocFailed) (j_Documents j) \<and>
     jobsR (s_redis s) = (jobsR r0)(j_JobID j \<mapsto> j) \<and> workR (s_redis s) = workR r0)"

lemma preparing_frame: "shell (s_job s') = shell (s_job s) \<and> s_redis s' = s_redis s \<Longrightarrow> preparing r0 inp s \<Longrightarrow> preparing r0 inp s'"
  by (simp add: preparing_def)

lemma pending_docs: "preparing r0 inp s \<Longrightarrow> list_all (\<lambda>d. d_State d = DocPending) (j_Documents (s_job s))"
proof -
  assume "preparing r0 inp s"
  then have "map d_State (j_Documents (s_job s)) = map (\<lambda>_. DocPending) (pi_Documents inp)" by (auto simp: preparing_def shell_def)
  then have "set (map d_State (j_Documents (s_job s))) \<subseteq> {DocPending}" by (metis image_subsetI insertI1 set_map)
  then show ?thesis by (auto simp: list_all_iff)
qed

lemma wp_orFail:
  assumes "up r0" and "keeps (\<lambda>s. (shell (s_job s), s_redis s)) m" and "preparing r0 inp s"
  shows "wp (orFail ob c m) (\<lambda>_. preparing r0 inp) (\<lambda>_. not_prepared r0) s"
  unfolding orFail_def wp_catchE
proof (rule wp_mono [OF keepsD [OF assms(2)]], goal_cases)
  case (1 x s')
  with assms(3) show ?case by (auto intro: preparing_frame)
next
  case (2 e s')
  with assms(3) have p: "preparing r0 inp s'" by (auto intro: preparing_frame)
  then have r: "s_redis s' = r0" by (simp add: preparing_def)
  have np: "not_prepared r0 (s'\<lparr>s_net := n, s_job := Fail c m' t (s_job s'), s_redis := r\<rparr>)"
    if "jobsR r = (jobsR r0)(j_JobID (s_job s') \<mapsto> Fail c m' t (s_job s'))" "workR r = workR r0" for n m' t r
    unfolding not_prepared_def
    by (rule exI [of _ "Fail c m' t (s_job s')"])
       (use that pending_docs [OF p] in \<open>auto simp: list_all_iff fail_document_def\<close>)
  show ?case
    unfolding wp_rules by (rule wp_failJob, rule wp_saveJob) (simp_all add: r assms(1) np)
qed

definition prepared :: "'r \<Rightarrow> PrepareInput \<Rightarrow> PrepareResult \<Rightarrow> ('r, 'u) sys \<Rightarrow> bool" where
  "prepared r0 inp res s \<longleftrightarrow> s_job s = pr_Job res \<and> jobsR (s_redis s) = (jobsR r0)(j_JobID (pr_Job res) \<mapsto> pr_Job res) \<and>
     workR (s_redis s) = workR r0 \<and>
     shell (pr_Job res) = (j_JobID (pr_Job res), pi_Flow inp,
        (if IsClientSide (pi_Flow inp) then StateAwaitingClientSig else StateAwaitingAuthorization),
        map i_DocumentID (pi_Documents inp), map (\<lambda>_. DocPending) (pi_Documents inp)) \<and>
     pr_Digests res = (if IsClientSide (pi_Flow inp) then digests_out (pr_Job res) else [])"

lemma preparing_setJob: "(\<And>j. shell (f j) = shell j) \<Longrightarrow> preparing r0 inp s \<Longrightarrow> preparing r0 inp (s\<lparr>s_job := f (s_job s)\<rparr>)"
  by (simp add: preparing_def)

lemma transition_prepared:
  assumes "up r0" and "preparing r0 inp s" and "st = (if IsClientSide (pi_Flow inp) then StateAwaitingClientSig else StateAwaitingAuthorization)"
    and dg: "\<And>j. dg j = (if IsClientSide (pi_Flow inp) then digests_out j else [])"
  shows "wp (transitionJob ob st) (\<lambda>_ s1. wp (saveJob ob)
     (\<lambda>_ s2. prepared r0 inp \<lparr>pr_Job = s_job s2, pr_AuthorizeURL = url, pr_Digests = dg (s_job s1), pr_SignAlgo = algo (s_job s1)\<rparr> s2)
     (\<lambda>_ _. False) s1) (\<lambda>_ _. False) s"
proof -
  have "CanTransition StatePreparing st" using assms(3) by (simp add: CanTransition_def)
  moreover have "s_redis s = r0" "j_State (s_job s) = StatePreparing" "j_Flow (s_job s) = pi_Flow inp"
    "map d_DocumentID (j_Documents (s_job s)) = map i_DocumentID (pi_Documents inp)"
    "map d_State (j_Documents (s_job s)) = map (\<lambda>_. DocPending) (pi_Documents inp)"
    using assms(2) by (auto simp: preparing_def shell_def)
  ultimately show ?thesis
    by (intro wp_transitionJob wp_saveJob) (use assms(1,3) in \<open>auto simp: prepared_def shell_def Transition_state dg\<close>)
qed

text \<open>The two ways from an uploaded batch to the stored job.\<close>

definition prepares :: "'r \<Rightarrow> PrepareInput \<Rightarrow> (('r, 'u) sys, err, string \<times> DigestOut list \<times> string) prog \<Rightarrow> bool" where
  "prepares r0 inp m \<longleftrightarrow> (\<forall>s. preparing r0 inp s \<longrightarrow> wp m (\<lambda>(url, digests, algo). wp (saveJob ob)
     (\<lambda>_ s2. prepared r0 inp \<lparr>pr_Job = s_job s2, pr_AuthorizeURL = url, pr_Digests = digests, pr_SignAlgo = algo\<rparr> s2)
     (\<lambda>_ _. False)) (\<lambda>_. not_prepared r0) s)"

lemma prepare_client_prepares:
  assumes "up r0" and "IsClientSide (pi_Flow inp)"
  shows "prepares r0 inp (prepare_client ob inp)"
  unfolding prepares_def prepare_client_def wp_bindE wp_setJob wp_job wp_retE prod.case
proof (intro allI impI)
  fix s assume "preparing r0 inp s"
  then have p: "preparing r0 inp (s\<lparr>s_job := (s_job s)\<lparr>j_SigningCert := pi_SigningCert inp, j_AuthCert := pi_AuthCert inp,
      j_SubjectRef := certSubject (o_env ob) (pi_SigningCert inp)\<rparr>\<rparr>)" (is "preparing _ _ ?s")
    by (simp add: preparing_def shell_def)
  have "wp (transitionJob ob StateAwaitingClientSig) (\<lambda>_ s1. wp (saveJob ob)
      (\<lambda>_ s2. prepared r0 inp \<lparr>pr_Job = s_job s2, pr_AuthorizeURL = [], pr_Digests = digests_out (s_job s1),
        pr_SignAlgo = signAlgoName (j_SignAlgo (s_job s1))\<rparr> s2) (\<lambda>_ _. False) s1) (\<lambda>_. not_prepared r0) s'"
    if "preparing r0 inp s'" for s'
    by (rule wp_mono [OF transition_prepared [OF assms(1) that, of _ digests_out "[]" "\<lambda>j. signAlgoName (j_SignAlgo j)"]])
       (use assms(2) in simp_all)
  then show "wp (orFail ob ''signapi:calculate_digest_failed'' (calculateDigests ob (pi_SigningCert inp)))
      (\<lambda>_. wp (transitionJob ob StateAwaitingClientSig) (\<lambda>_ s1. wp (saveJob ob)
      (\<lambda>_ s2. prepared r0 inp \<lparr>pr_Job = s_job s2, pr_AuthorizeURL = [], pr_Digests = digests_out (s_job s1),
        pr_SignAlgo = signAlgoName (j_SignAlgo (s_job s1))\<rparr> s2) (\<lambda>_ _. False) s1) (\<lambda>_. not_prepared r0)) (\<lambda>_. not_prepared r0) ?s"
    by (rule wp_mono [OF wp_orFail [OF assms(1) calculateDigests_shell p]])
qed

lemma prepare_remote_prepares:
  assumes "up r0" and "\<not> IsClientSide (pi_Flow inp)"
  shows "prepares r0 inp (prepare_remote ob fl inp)"
  unfolding prepares_def prepare_remote_def wp_bindE wp_setJob wp_job wp_retE prod.case
proof (intro allI impI)
  fix s assume "preparing r0 inp s"
  then have p: "preparing r0 inp (s\<lparr>s_job := supply_identity inp (s_job s)\<rparr>)"
    by (simp add: preparing_def shell_def supply_identity_def)
  have "wp (transitionJob ob StateAwaitingAuthorization) (\<lambda>_ s1. wp (saveJob ob)
      (\<lambda>_ s2. prepared r0 inp \<lparr>pr_Job = s_job s2, pr_AuthorizeURL = url, pr_Digests = [], pr_SignAlgo = []\<rparr> s2) (\<lambda>_ _. False) s1)
      (\<lambda>_. not_prepared r0) s'"
    if "preparing r0 inp s'" for s' url
    by (rule wp_mono [OF transition_prepared [OF assms(1) that, of _ "\<lambda>_. []" url "\<lambda>_. []"]]) (use assms(2) in simp_all)
  then show "wp (orFail ob ''signing:begin_authorization_failed'' (BeginAuthorization ob fl))
      (\<lambda>url. wp (transitionJob ob StateAwaitingAuthorization) (\<lambda>_ s1. wp (saveJob ob)
      (\<lambda>_ s2. prepared r0 inp \<lparr>pr_Job = s_job s2, pr_AuthorizeURL = url, pr_Digests = [], pr_SignAlgo = []\<rparr> s2) (\<lambda>_ _. False) s1)
      (\<lambda>_. not_prepared r0)) (\<lambda>_. not_prepared r0) (s\<lparr>s_job := supply_identity inp (s_job s)\<rparr>)"
    by (rule wp_mono [OF wp_orFail [OF assms(1) BeginAuthorization_shell p]])
qed

lemma Prepare_outcome:
  assumes "up (s_redis s)"
  shows "wp (Prepare ob inp) (\<lambda>res s'. prepare_refusal ob inp = None \<and> prepared (s_redis s) inp res s')
    (\<lambda>e s'. if prepare_refusal ob inp = None then not_prepared (s_redis s) s' else prepare_refusal ob inp = Some e \<and> s' = s) s"
proof (cases "prepare_refusal ob inp")
  case (Some e)
  then show ?thesis by (simp add: Prepare_def wp_failE)
next
  case None
  then obtain fl where fl: "flows (pi_Flow inp) = Some fl"
    by (auto simp: prepare_refusal_def split: option.splits)
  have side: "ca_ClientSide (flow_Capabilities fl) \<longleftrightarrow> IsClientSide (pi_Flow inp)"
    using client_side_iff [of "pi_Flow inp"] fl by simp
  let ?m = "if ca_ClientSide (flow_Capabilities fl) then prepare_client ob inp else prepare_remote ob fl inp"
  have rest: "wp ?m (\<lambda>x. wp (case x of (url, digests, algo) \<Rightarrow> bindE (saveJob ob) (\<lambda>_. bindE job (\<lambda>j.
        retE \<lparr>pr_Job = j, pr_AuthorizeURL = url, pr_Digests = digests, pr_SignAlgo = algo\<rparr>)))
       (prepared (s_redis s) inp) (\<lambda>_. not_prepared (s_redis s))) (\<lambda>_. not_prepared (s_redis s)) s1"
    if "preparing (s_redis s) inp s1" for s1
  proof -
    have "prepares (s_redis s) inp ?m"
      using prepare_client_prepares [OF assms, of inp] prepare_remote_prepares [OF assms, of inp fl] side by simp
    from this [unfolded prepares_def, rule_format, OF that] show ?thesis
      by (rule wp_mono) (auto simp: wp_bindE wp_job wp_retE elim!: wp_mono)
  qed
  have start: "preparing (s_redis s) inp (s1\<lparr>s_job := new_job ob inp i t1 t2\<rparr>)" if "s_redis s1 = s_redis s" for s1 i t1 t2
    using that by (simp add: preparing_def shell_def new_job_def new_document_def emptyJob_def emptyDocument_def comp_def)
  show ?thesis
    unfolding Prepare_def None option.case fl option.sel Let_def if_True simp_thms
      wp_bindE [of "makeULID ob"] wp_bindE [of "time ob"] wp_bindE [of "setJob _"] wp_bindE [of "orFail _ _ _"] wp_bindE [of ?m] wp_setJob
    by (intro wp_makeULID wp_time wp_mono [OF wp_orFail [OF assms createSessions_keeps start]] rest) simp_all
qed

subsubsection \<open>Delete\<close>

lemma DeleteJob_outcome:
  assumes "up (s_redis s)" and "jobsR (s_redis s) i = Some j" "j_JobID j = i"
  shows "wp (DeleteJob ob i) (\<lambda>_ s'. jobsR (s_redis s') = (jobsR (s_redis s))(i := None) \<and> s_closing s' = s_closing s @ closes j \<and>
      s_net s' = s_net s) (\<lambda>_ _. False) s"
  unfolding DeleteJob_def jobs_S wp_bindE wp_setJob wp_closeSessions
  by (rule wp_Load [OF assms(1,2)], unfold wp_onRedis, rule wp_mono [OF Delete_up]) (use assms in simp_all)

end

text \<open>A job that is not there or not waiting for the worker is left alone, faults or not.\<close>

lemma RunJob_idle:
  assumes "store_on_redis R content items (o_jobs ob)"
    and "\<And>j. jobs_in content (s_redis s) i = Some j \<Longrightarrow> j_State j \<notin> {StateSigning, StateFinalizing}"
  shows "wp (RunJob ob i) (\<lambda>_ s'. s_net s' = s_net s \<and> s_closing s' = s_closing s \<and> s_signhash s' = s_signhash s \<and>
      jobs_in content (s_redis s') = jobs_in content (s_redis s) \<and> index_in content (s_redis s') = index_in content (s_redis s) \<and>
      work_in items (s_redis s') = work_in items (s_redis s)) (\<lambda>_ _. False) s"
  unfolding RunJob_def wp_bindE wp_tryE wp_onRedis
  by (rule wp_mono [OF store_on_redis.Load_view [OF assms(1)]])
     (auto simp: wp_rules split: JobState.split dest: assms(2))

interpretation demo: running mem_redis m_content m_items "New mem_redis 0" "\<lambda>s. m_faults s = []" demo
  by unfold_locales (simp add: demo_def)

section \<open>Properties\<close>

text \<open>
  C4: The worker always brings a job to an end. For a job that waits for it, on a Redis that is
  up, \<open>RunJob\<close> returns with that job stored, ready or failed: ready with every document ready
  and every signature value cleared and nothing to close, or failed as a whole with an error and
  the close of all its sessions started (but for a job of an unknown flow, whose sessions stay
  open). No other job and nothing of the queue changes.
\<close>

theorem RunJob_ends:
  assumes "running R content items S up ob" and "signapi_client (o_signapi ob)" and "up (s_redis s)"
    and "jobs_in content (s_redis s) i = Some j" and "j_JobID j = i" and "j_State j \<in> {StateSigning, StateFinalizing}"
  shows "wp (RunJob ob i)
    (\<lambda>_ s'. jobs_in content (s_redis s') = (jobs_in content (s_redis s))(i \<mapsto> s_job s') \<and>
       work_in items (s_redis s') = work_in items (s_redis s) \<and>
       (ready_job (s_job s') \<and> s_closing s' = s_closing s \<or>
        failed_job (s_job s') \<and>
          s_closing s' = s_closing s @ (if j_State j = StateSigning \<and> flows (j_Flow j) = None then [] else closes j)))
    (\<lambda>_ _. False) s"
  by (rule wp_mono [OF running.RunJob_outcome [OF assms]]) (auto simp: running.run_ended_def [OF assms(1)])

definition demo_stored :: "Job \<Rightarrow> mem_state" where
  "demo_stored j = mem_empty\<lparr>m_content := [keyJob @ j_JobID j \<mapsto> RJson (job_json j), keyState @ j_OAuthState j \<mapsto> RText (j_JobID j)]\<rparr>"

lemma demo_stored_views [simp]:
  "jobs_in m_content (demo_stored j) = [j_JobID j \<mapsto> j]" "work_in m_items (demo_stored j) = []" "m_faults (demo_stored j) = []"
  "index_in m_content (demo_stored j) (j_OAuthState j) = Some (j_JobID j)"
  by (auto simp: demo_stored_def jobs_in_def index_in_def work_in_def text_of_def mem_empty_def fun_eq_iff)

theorem RunJob_ends_witness:
  "wp (RunJob demo ''J'') (\<lambda>_ s'. j_State (s_job s') = StateReady \<and> jobs_in m_content (s_redis s') = [''J'' \<mapsto> s_job s'])
     (\<lambda>_ _. False) (demo_sys (demo_stored demo_job) [Inr (json_response 200 JNull)] demo_job)"
proof -
  let ?s = "demo_sys (demo_stored demo_job) [Inr (json_response 200 JNull)] demo_job"
  have run: "wp (RunJob demo ''J'') (\<lambda>_ s'. j_State (s_job s') = StateReady) (\<lambda>_ _. False) ?s" by code_simp
  have "s_redis ?s = demo_stored demo_job" "j_JobID demo_job = ''J''" "j_State demo_job = StateFinalizing" by (simp_all add: demo_defs)
  then show ?thesis
    by (intro wp_mono [OF wp_conj [OF run RunJob_ends [OF demo.running_axioms demo_signapi, of ?s "''J''" demo_job]]]) simp_all
qed

text \<open>
  C5: A job id that the queue hands out twice does no harm. After a run that ended the job, a
  second run of the same id sends no request, signs nothing, closes nothing and changes no
  stored job; so does any run of an id whose job is gone or waits for somebody else.
\<close>

theorem RunJob_redelivered:
  assumes "running R content items S up ob" and "signapi_client (o_signapi ob)" and "up (s_redis s)"
    and "jobs_in content (s_redis s) i = Some j" and "j_JobID j = i" and "j_State j \<in> {StateSigning, StateFinalizing}"
  shows "wp (RunJob ob i) (\<lambda>_ s1. wp (RunJob ob i) (\<lambda>_ s2. s_net s2 = s_net s1 \<and> s_closing s2 = s_closing s1 \<and>
      s_signhash s2 = s_signhash s1 \<and> jobs_in content (s_redis s2) = jobs_in content (s_redis s1)) (\<lambda>_ _. False) s1) (\<lambda>_ _. False) s"
proof (rule wp_mono [OF running.RunJob_outcome [OF assms]], goal_cases)
  case (1 x s1)
  have st: "store_on_redis R content items (o_jobs ob)"
    using assms(1) by (simp add: running_def running_axioms_def reliable_store_def)
  show ?case
    by (rule wp_mono [OF RunJob_idle [OF st]])
       (use 1 in \<open>auto simp: running.run_ended_def [OF assms(1)] ready_job_def failed_job_def\<close>)
qed simp

theorem RunJob_redelivered_witness:
  "wp (RunJob demo ''J'') (\<lambda>_ s1. wp (RunJob demo ''J'') (\<lambda>_ s2. n_log (s_net s2) = n_log (s_net s1)) (\<lambda>_ _. False) s1)
     (\<lambda>_ _. False) (demo_sys (demo_stored demo_job) [Inl (ErrOther ''timeout'')] demo_job)"
proof -
  let ?s = "demo_sys (demo_stored demo_job) [Inl (ErrOther ''timeout'')] demo_job"
  have "j_JobID demo_job = ''J''" "j_State demo_job = StateFinalizing" "s_redis ?s = demo_stored demo_job"
    by (simp_all add: demo_defs)
  then show ?thesis
    using RunJob_redelivered [OF demo.running_axioms demo_signapi, of ?s "''J''" demo_job] by (auto elim!: wp_mono)
qed



text \<open>
  C27: A consumed state resolves again. A declined callback takes its state out of the index, but
  the job it fails and saves still carries that state, so the save puts it back: the same state
  leads to the same job a second time. The job fails whatever its state was, so a callback that
  comes again fails even a job that is ready.
\<close>

theorem Callback_state_reusable:
  assumes "running R content items S up ob" and "up (s_redis s)"
    and "index_in content (s_redis s) (j_OAuthState j) = Some (j_JobID j)" and "jobs_in content (s_redis s) (j_JobID j) = Some j"
    and "j_OAuthState j \<noteq> []"
  shows "wp (Callback ob (j_OAuthState j) code True)
    (\<lambda>_ s'. index_in content (s_redis s') (j_OAuthState j) = Some (j_JobID j) \<and>
       jobs_in content (s_redis s') (j_JobID j) = Some (s_job s') \<and> j_State (s_job s') = StateFailed)
    (\<lambda>_ _. False) s"
  by (rule wp_mono [OF running.Callback_outcome [OF assms(1-4)]])
     (use assms(5) in \<open>simp_all add: running.called_back_to_def [OF assms(1)] running.index_moved_def [OF assms(1)] failed_job_def\<close>)

theorem Callback_state_reusable_witness:
  "let j = demo_job\<lparr>j_State := StateReady, j_Documents := [demo_doc\<lparr>d_State := DocReady\<rparr>]\<rparr> in
   wp (Callback demo ''st'' [] True) (\<lambda>_ s'. index_in m_content (s_redis s') ''st'' = Some ''J'' \<and> j_State (s_job s') = StateFailed)
     (\<lambda>_ _. False) (demo_sys (demo_stored j) [] j)"
proof -
  let ?j = "demo_job\<lparr>j_State := StateReady, j_Documents := [demo_doc\<lparr>d_State := DocReady\<rparr>]\<rparr>"
  have j: "s_redis (demo_sys (demo_stored ?j) [] ?j) = demo_stored ?j" "j_JobID ?j = ''J''" "j_OAuthState ?j = ''st''" by (simp_all add: demo_defs)
  then have "index_in m_content (demo_stored ?j) ''st'' = Some ''J''" using demo_stored_views(4) [of ?j] by simp
  with j show ?thesis
    unfolding Let_def
    by (intro wp_mono [OF Callback_state_reusable [OF demo.running_axioms, of "demo_sys (demo_stored ?j) [] ?j" ?j, unfolded j(3)]]) simp_all
qed

text \<open>
  C8: Client signatures are all or nothing. For a stored job whose documents have distinct ids, on
  a Redis that is up, \<open>SubmitSignatures\<close> succeeds only for an offered client-side flow, a job that
  waits for them and values for exactly its documents; then every document carries the value
  submitted last for it, the job waits for finalize, is stored and is queued once. Whatever it
  refuses leaves the stored jobs, the index and the queue as they were and sends no request.
\<close>

theorem SubmitSignatures_exact:
  assumes "running R content items S up ob" and "up (s_redis s)" and "jobs_in content (s_redis s) i = Some j" and "j_JobID j = i"
    and "distinct (map d_DocumentID (j_Documents j))"
  shows "wp (SubmitSignatures ob i sigs)
     (\<lambda>j' s'. IsClientSide (j_Flow j) \<and> Offered ob (j_Flow j) \<and> j_State j = StateAwaitingClientSig \<and> j_State j' = StateFinalizing \<and>
        ss_DocumentID ` set sigs = d_DocumentID ` set (j_Documents j) \<and>
        j_Documents j' = map (with_submitted sigs) (j_Documents j) \<and>
        jobs_in content (s_redis s') = (jobs_in content (s_redis s))(i \<mapsto> j') \<and> work_in items (s_redis s') = i # work_in items (s_redis s))
     (\<lambda>e s'. jobs_in content (s_redis s') = jobs_in content (s_redis s) \<and> index_in content (s_redis s') = index_in content (s_redis s) \<and>
        work_in items (s_redis s') = work_in items (s_redis s) \<and> s_net s' = s_net s) s"
  by (rule running.SubmitSignatures_outcome [OF assms])

theorem SubmitSignatures_exact_witness:
  "let j = demo_job\<lparr>j_State := StateAwaitingClientSig\<rparr> in
   wp (SubmitSignatures demo ''J'' [SubmittedSignature ''doc'' ''old'', SubmittedSignature ''doc'' ''c2ln''])
     (\<lambda>j' s'. map d_SignatureValue (j_Documents j') = [''c2ln''] \<and> jobs_in m_content (s_redis s') = [''J'' \<mapsto> j'] \<and>
        work_in m_items (s_redis s') = [''J'']) (\<lambda>_ _. False) (demo_sys (demo_stored j) [] j)"
proof -
  let ?j = "demo_job\<lparr>j_State := StateAwaitingClientSig\<rparr>"
  let ?sigs = "[SubmittedSignature ''doc'' ''old'', SubmittedSignature ''doc'' ''c2ln'']"
  let ?s = "demo_sys (demo_stored ?j) [] ?j"
  have j: "s_redis ?s = demo_stored ?j" "j_JobID ?j = ''J''" "j_Documents ?j = [demo_doc]" "d_DocumentID demo_doc = ''doc''"
    "j_Flow ?j = FlowWebEID" "o_jobs demo = New mem_redis 0"
    by (simp_all add: demo_defs)
  have guards: "IsClientSide (j_Flow ?j)" "Offered demo (j_Flow ?j)"
    by (simp_all only: j(5)) (simp_all add: IsClientSide_def Offered_def flows_def IsCSC_def flow_names)
  obtain j1 where j1: "attach_signatures ?sigs (remdups (map d_DocumentID (j_Documents ?j))) ?j = Inr ([], j1)"
    by (simp add: j Doc_def update_doc_def)
  have run: "wp (SubmitSignatures demo ''J'' ?sigs) (\<lambda>_ _. True) (\<lambda>_ _. False) ?s"
    unfolding SubmitSignatures_def wp_bindE [of "onRedis _"] j(6) client_side_iff
    by (rule demo.wp_Load [of _ _ ?j], simp add: j, simp add: j)
       (simp add: guards [simplified] j1 [simplified] wp_rules, intro wp_transitionJob demo.wp_saveJob wp_mono [OF wp_true], simp_all)
  have docs: "map d_SignatureValue (map (with_submitted ?sigs) [demo_doc]) = [''c2ln'']"
    by (simp add: with_submitted_def submitted_def j)
  have "wp (SubmitSignatures demo ''J'' ?sigs) (\<lambda>j' s'. map d_SignatureValue (j_Documents j') = [''c2ln''] \<and>
        jobs_in m_content (s_redis s') = [''J'' \<mapsto> j'] \<and> work_in m_items (s_redis s') = [''J'']) (\<lambda>_ _. True) ?s"
    by (intro wp_mono [OF SubmitSignatures_exact [OF demo.running_axioms, of ?s "''J''" ?j ?sigs]]) (use j docs in simp_all)
  from wp_conj [OF run this] show ?thesis unfolding Let_def by (rule wp_mono) simp_all
qed

text \<open>
  C6: \<open>Prepare\<close> refuses without a trace or leaves a job. It accepts exactly a batch of one format
  for an offered flow, of one document only for the card read by phone, and for a CSC flow only
  with a certificate to ask for the timestamp with; anything else changes nothing at all. An
  accepted request ends, on a Redis that is up, with one new stored job: for the caller's flow and
  documents, all pending, waiting for the client's signatures (and with the digests to sign, one
  for each document in order) or for the authorization; or, with an error, a failed job all of
  whose documents have failed. Nothing is queued.
\<close>

theorem Prepare_exact:
  assumes "running R content items S up ob" and "up (s_redis s)"
    and "accepted = (Offered ob (pi_Flow inp) \<and> one_batch inp \<and>
     (IsCSC (pi_Flow inp) \<longrightarrow> snd (snd (authCertFor (o_cfg ob) (emptyJob\<lparr>j_Flow := pi_Flow inp, j_AuthCert := pi_AuthCert inp\<rparr>)))))"
  shows "wp (Prepare ob inp)
    (\<lambda>res s'. let j = pr_Job res in accepted \<and>
       jobs_in content (s_redis s') = (jobs_in content (s_redis s))(j_JobID j \<mapsto> j) \<and> work_in items (s_redis s') = work_in items (s_redis s) \<and>
       j_Flow j = pi_Flow inp \<and> map d_DocumentID (j_Documents j) = map i_DocumentID (pi_Documents inp) \<and>
       map d_State (j_Documents j) = map (\<lambda>_. DocPending) (pi_Documents inp) \<and>
       j_State j = (if IsClientSide (pi_Flow inp) then StateAwaitingClientSig else StateAwaitingAuthorization) \<and>
       pr_Digests res = (if IsClientSide (pi_Flow inp) then digests_out j else []))
    (\<lambda>e s'. if accepted then
         (\<exists>j. failed_job j \<and> list_all (\<lambda>d. d_State d = DocFailed) (j_Documents j) \<and>
            jobs_in content (s_redis s') = (jobs_in content (s_redis s))(j_JobID j \<mapsto> j) \<and> work_in items (s_redis s') = work_in items (s_redis s))
       else s' = s) s"
proof -
  have acc: "prepare_refusal ob inp = None \<longleftrightarrow> accepted" unfolding assms(3) by (rule prepare_refusal_iff)
  show ?thesis
    by (rule wp_mono [OF running.Prepare_outcome [OF assms(1,2)]])
       (auto simp: acc Let_def running.prepared_def [OF assms(1)] running.not_prepared_def [OF assms(1)] shell_def split: if_splits)
qed

definition demo_input :: PrepareInput where
  "demo_input = \<lparr>pi_Flow = FlowWebEID, pi_Caller = [], pi_Locale = ''lv'', pi_SignatureQualifier = [], pi_SigningCert = ''MAA='',
     pi_AuthCert = ''cert'', pi_SignIdentityID = [], pi_SealID = [], pi_PostAuthRedirect = [], pi_AuthErrorRedirect = [],
     pi_Documents = [\<lparr>i_DocumentID = ''doc'', i_FileName = ''a.pdf'', i_MimeType = ''application/pdf'', i_Format = FormatPAdES,
       i_Operation = OpCreate, i_Bytes = [1], i_Hash = [], i_DigestAlgorithm = [], i_Files = []\<rparr>]\<rparr>"

definition demo_prepare_answers :: "(err + response) list" where
  "demo_prepare_answers = [Inr (json_response 200 (JObj [(''data'', JObj [(''sessionId'', JStr ''sess'')])])),
     Inr (json_response 200 (JObj [(''data'', JObj [(''id'', JStr ''d1'')])])), Inr (json_response 200 demo_digests)]"

theorem Prepare_exact_witness:
  "wp (Prepare demo demo_input)
     (\<lambda>res s'. j_State (pr_Job res) = StateAwaitingClientSig \<and> pr_Digests res = [DigestOut ''doc'' ''ZGln'' ''SHA256''] \<and>
        jobs_in m_content (s_redis s') = [j_JobID (pr_Job res) \<mapsto> pr_Job res])
     (\<lambda>_ _. False) (demo_sys mem_empty demo_prepare_answers emptyJob)"
proof -
  let ?s = "demo_sys mem_empty demo_prepare_answers emptyJob"
  have run: "wp (Prepare demo demo_input) (\<lambda>res s'. j_State (pr_Job res) = StateAwaitingClientSig \<and>
      pr_Digests res = [DigestOut ''doc'' ''ZGln'' ''SHA256'']) (\<lambda>_ _. False) ?s" by code_simp
  have "m_faults (s_redis ?s) = []" "jobs_in m_content (s_redis ?s) = Map.empty"
    by (simp_all add: demo_sys_def mem_empty_def jobs_in_def fun_eq_iff)
  then have "wp (Prepare demo demo_input) (\<lambda>res s'. jobs_in m_content (s_redis s') = [j_JobID (pr_Job res) \<mapsto> pr_Job res]) (\<lambda>_ _. True) ?s"
    by (intro wp_mono [OF Prepare_exact [OF demo.running_axioms _ refl, of ?s demo_input]]) (simp_all add: Let_def)
  from wp_conj [OF run this] show ?thesis by (rule wp_mono) simp_all
qed

text \<open>
  C28: \<open>DeleteJob\<close> takes the stored job away and starts the close of all its sessions; no other job
  is touched and no request is sent before it returns.
\<close>

theorem DeleteJob_exact:
  assumes "running R content items S up ob" and "up (s_redis s)" and "jobs_in content (s_redis s) i = Some j" and "j_JobID j = i"
  shows "wp (DeleteJob ob i) (\<lambda>_ s'. jobs_in content (s_redis s') = (jobs_in content (s_redis s))(i := None) \<and>
      s_closing s' = s_closing s @ closes j \<and> s_net s' = s_net s) (\<lambda>_ _. False) s"
  by (rule running.DeleteJob_outcome [OF assms])

theorem DeleteJob_exact_witness:
  "wp (DeleteJob demo ''J'') (\<lambda>_ s'. s_closing s' = [(''J'', [''sess''])] \<and> jobs_in m_content (s_redis s') ''J'' = None)
     (\<lambda>_ _. False) (demo_sys (demo_stored demo_job) [] demo_job)"
proof -
  let ?s = "demo_sys (demo_stored demo_job) [] demo_job"
  have "s_redis ?s = demo_stored demo_job" "j_JobID demo_job = ''J''" "s_closing ?s = []" "closes demo_job = [(''J'', [''sess''])]"
    by (simp_all add: demo_defs closes_def)
  then show ?thesis
    by (intro wp_mono [OF DeleteJob_exact [OF demo.running_axioms, of ?s "''J''" demo_job]]) simp_all
qed

end
