(* ===== verification/Operations.thy ===== *)
theory Operations
  imports Orchestrator
begin

text \<open>
  \<^verbatim>\<open>signing/operations.go\<close>: validation and the archive timestamp, the operations that own no
  job. Both use a session of their own, which is closed in the background however they end.
\<close>

section \<open>Operations\<close>

text \<open>The session id is returned with an error too; \<open>Validate\<close> returns the error as a value.\<close>

definition Validate :: "('r, 'u) Orchestrator \<Rightarrow> string \<Rightarrow> string \<Rightarrow> string \<Rightarrow> bytes \<Rightarrow>
    (('r, 'u) sys, err, string \<times> (err + nat \<times> string)) prog" where
  "Validate ob correlationID fileName mimeType data =
     bindE (mapErrE (ErrPre ''start session: '') (onNet (StartSession (o_signapi ob) correlationID))) (\<lambda>sid.
     bindE (tryE (finallyE
       (bindE (mapErrE (ErrPre ''upload: '') (onNet (UploadFile (o_signapi ob) correlationID sid fileName mimeType data))) (\<lambda>up.
        if ur_DocumentID up = [] then failE (ErrOther ''validate: upload returned no document id'')
        else onNet (api_Validate (o_signapi ob) correlationID sid (ur_DocumentID up))))
       (closeLater correlationID [sid]))) (\<lambda>r. retE (sid, r)))"

definition isPDF :: "string \<Rightarrow> string \<Rightarrow> bool" where
  "isPDF fileName mimeType \<longleftrightarrow> contains (to_lower mimeType) ''pdf'' \<or> equal_fold (fileExt fileName) ''.pdf''"

definition archiveContainerType :: "bool \<Rightarrow> string \<times> string" where
  "archiveContainerType pdf = (if pdf then (''application/pdf'', ''.pdf'') else (asice_type, ''.edoc''))"

definition ArchiveUpload :: "('r, 'u) Orchestrator \<Rightarrow> string \<Rightarrow> string \<Rightarrow> string \<Rightarrow> string \<Rightarrow> bytes \<Rightarrow>
    (('r, 'u) sys, err, string \<times> string \<times> string) prog" where
  "ArchiveUpload ob correlationID fileName mimeType reqAuthCert data =
     (if trim_space reqAuthCert = [] then failE ErrNoAuthCert
      else
        bindE (mapErrE (ErrPre ''start session: '') (onNet (StartSession (o_signapi ob) correlationID))) (\<lambda>sid.
        finallyE
          (bindE (mapErrE (\<lambda>e. ErrPre ''upload: '' (classifyUpstream e))
                    (onNet (UploadFile (o_signapi ob) correlationID sid fileName mimeType data))) (\<lambda>up.
           if ur_DocumentID up = [] then failE (ErrOther ''archive: upload returned no document id'')
           else
             bindE (mapErrE classifyUpstream (onNet (AddArchiveTimestamp (o_signapi ob) correlationID sid reqAuthCert))) (\<lambda>_.
             bindE (onNet (api_Download (o_signapi ob) correlationID sid (ur_DocumentID up) False)) (\<lambda>archived.
             case archiveContainerType (isPDF fileName mimeType) of (contentType, ext) \<Rightarrow>
             retE (archived, contentType, trim_suffix fileName (fileExt fileName) @ ''-archived'' @ ext)))))
          (closeLater correlationID [sid])))"

definition ArchiveJobDocument :: "('r, 'u) Orchestrator \<Rightarrow> string \<Rightarrow> string \<Rightarrow> bool \<Rightarrow>
    (('r, 'u) sys, err, string \<times> string \<times> string) prog" where
  "ArchiveJobDocument ob jobID documentID asice =
     bindE (onRedis (Load (o_jobs ob) jobID)) (\<lambda>j.
     case Doc j documentID of
       None \<Rightarrow> failE ErrNotFound
     | Some i \<Rightarrow>
         (let d = j_Documents j ! i in
          if d_State d \<noteq> DocReady then failE ErrWrongState
          else
            case authCertFor (o_cfg ob) j of (authCert, certSource, ok) \<Rightarrow>
            if \<not> ok then bindE (metric (recordTimestampRefused j TsArchive)) (\<lambda>_. failE ErrNoTimestampCert)
            else
              bindE (metric (recordTimestampRequest j certSource TsArchive authCert)) (\<lambda>_.
              bindE (mapErrE classifyUpstream (onNet (AddArchiveTimestamp (o_signapi ob) jobID (d_SessionID d) authCert))) (\<lambda>_.
              bindE (Download ob jobID documentID asice) (\<lambda>(data, ct, name).
              case containerType (d_Format d) asice of (_, ext) \<Rightarrow>
              retE (data, ct, trim_suffix (d_FileName d) (fileExt (d_FileName d)) @ ''-archived'' @ ext))))))"

section \<open>Library\<close>

text \<open>What is closed in the background is appended; everything before the close leaves the list.\<close>

lemma closing_frame [keeps_intros]: "keeps s_closing (onNet m)" "keeps s_closing (onRedis m)"
  by (intro keeps_intros; simp)+

lemma wp_closeLater1 [wp_rules]:
  "sid \<noteq> [] \<Longrightarrow> wp (closeLater corr [sid]) Q E s = Q () (s\<lparr>s_closing := s_closing s @ [(corr, [sid])]\<rparr>)"
  by (simp add: closeLater_def wp_rules)

lemma finally_closes:
  assumes "keeps s_closing m" and "sid \<noteq> []"
  shows "s_closing (snd (finallyE m (closeLater corr [sid]) s)) = s_closing s @ [(corr, [sid])]"
proof -
  have "s_closing (snd (m s)) = s_closing s" using assms(1) by (simp add: keeps_def)
  with assms(2) show ?thesis by (cases "m s") (simp add: finallyE_def closeLater_def modE_def)
qed

lemma StartSession_names: "wp (StartSession c corr) (\<lambda>sid _. sid \<noteq> []) (\<lambda>_ _. True) w"
  unfolding StartSession_def wp_bindE by (rule wp_mono [OF wp_true]) (auto simp: wp_rules)

lemma with_session:
  assumes "\<And>sid. sid \<noteq> [] \<Longrightarrow> s_closing (snd (k sid (s\<lparr>s_net := snd (StartSession c corr (s_net s))\<rparr>))) = s_closing s @ [(corr, [sid])]"
  shows "s_closing (snd (bindE (mapErrE h (onNet (StartSession c corr))) k s)) =
    (case fst (StartSession c corr (s_net s)) of Inl _ \<Rightarrow> s_closing s | Inr sid \<Rightarrow> s_closing s @ [(corr, [sid])])"
  using assms StartSession_names [of c corr "s_net s"]
  by (auto simp: bindE_def mapErrE_def onNet_def liftE_def wp_def split: prod.splits sum.splits)

section \<open>Properties\<close>

text \<open>
  C29: An operation without a job leaves no session open. Whatever happens after the provider has
  opened a session for \<open>Validate\<close> or \<open>ArchiveUpload\<close>, that session's close is started, once,
  and nothing else is; when no session was opened, none is closed. An archive upload without a
  certificate opens none.
\<close>

theorem own_sessions_closed:
  "s_closing (snd (Validate ob corr name mime data s)) =
     (case fst (StartSession (o_signapi ob) corr (s_net s)) of Inl _ \<Rightarrow> s_closing s | Inr sid \<Rightarrow> s_closing s @ [(corr, [sid])]) \<and>
   s_closing (snd (ArchiveUpload ob corr name mime cert data s)) =
     (if trim_space cert = [] then s_closing s
      else case fst (StartSession (o_signapi ob) corr (s_net s)) of Inl _ \<Rightarrow> s_closing s | Inr sid \<Rightarrow> s_closing s @ [(corr, [sid])])"
proof
  have try_ret: "snd (bindE (tryE m) (\<lambda>r. retE (x, r)) s) = snd (m s)" for m :: "(('a, 'b) sys, err, 'c) prog" and x :: string and s
    by (simp add: run_defs split: prod.split)
  show "s_closing (snd (Validate ob corr name mime data s)) =
     (case fst (StartSession (o_signapi ob) corr (s_net s)) of Inl _ \<Rightarrow> s_closing s | Inr sid \<Rightarrow> s_closing s @ [(corr, [sid])])"
    unfolding Validate_def
    by (rule with_session, unfold try_ret, subst finally_closes) (auto intro!: keeps_intros)
  show "s_closing (snd (ArchiveUpload ob corr name mime cert data s)) =
     (if trim_space cert = [] then s_closing s
      else case fst (StartSession (o_signapi ob) corr (s_net s)) of Inl _ \<Rightarrow> s_closing s | Inr sid \<Rightarrow> s_closing s @ [(corr, [sid])])"
  proof (cases "trim_space cert = []")
    case False
    then show ?thesis
      unfolding ArchiveUpload_def
      by (simp, intro with_session, subst finally_closes) (auto intro!: keeps_intros)
  qed (simp add: ArchiveUpload_def failE_def)
qed

definition ready_document :: "Job option \<Rightarrow> string \<Rightarrow> bool" where
  "ready_document jo documentID \<longleftrightarrow>
     (case jo of None \<Rightarrow> False | Some j \<Rightarrow>
        (case Doc j documentID of None \<Rightarrow> False | Some i \<Rightarrow> d_State (j_Documents j ! i) = DocReady))"

text \<open>
  C30: Only a ready document is served. \<open>Download\<close> and \<open>ArchiveJobDocument\<close> return content only
  for a document of a stored job that is ready, the latter only with the certificate that
  \<open>authCertFor\<close> chooses; for an unknown job or document, one that is not ready, and an archive
  timestamp without a certificate, they fail without any request.
\<close>

theorem only_ready_served:
  assumes "store_on_redis R content items (o_jobs ob)"
  shows "wp (Download ob i doc asice) (\<lambda>_ _. ready_document (jobs_in content (s_redis s) i) doc)
      (\<lambda>_ s'. ready_document (jobs_in content (s_redis s) i) doc \<or> s_net s' = s_net s) s \<and>
    wp (ArchiveJobDocument ob i doc asice)
      (\<lambda>_ _. ready_document (jobs_in content (s_redis s) i) doc \<and>
         snd (snd (authCertFor (o_cfg ob) (the (jobs_in content (s_redis s) i)))))
      (\<lambda>_ s'. ready_document (jobs_in content (s_redis s) i) doc \<and>
         snd (snd (authCertFor (o_cfg ob) (the (jobs_in content (s_redis s) i)))) \<or> s_net s' = s_net s) s"
proof
  note load = wp_mono [OF store_on_redis.Load_view [OF assms]]
  show "wp (Download ob i doc asice) (\<lambda>_ _. ready_document (jobs_in content (s_redis s) i) doc)
      (\<lambda>_ s'. ready_document (jobs_in content (s_redis s) i) doc \<or> s_net s' = s_net s) s"
    unfolding Download_def wp_bindE [of "onRedis _"] wp_onRedis
    by (rule load) (auto simp: ready_document_def Let_def wp_failE wp_if split: option.split intro!: wp_mono [OF wp_true])
  show "wp (ArchiveJobDocument ob i doc asice)
      (\<lambda>_ _. ready_document (jobs_in content (s_redis s) i) doc \<and>
         snd (snd (authCertFor (o_cfg ob) (the (jobs_in content (s_redis s) i)))))
      (\<lambda>_ s'. ready_document (jobs_in content (s_redis s) i) doc \<and>
         snd (snd (authCertFor (o_cfg ob) (the (jobs_in content (s_redis s) i)))) \<or> s_net s' = s_net s) s"
    unfolding ArchiveJobDocument_def wp_bindE [of "onRedis _"] wp_onRedis
    by (rule load) (auto simp: ready_document_def Let_def wp_failE wp_if wp_bindE wp_metric split: option.split prod.split
        intro!: wp_mono [OF wp_true])
qed

theorem only_ready_served_witness:
  "wp (Download demo ''J'' ''doc'' False) (\<lambda>_ _. False) (\<lambda>_ s'. n_log (s_net s') = [])
     (demo_sys (demo_stored demo_job) [] demo_job)"
proof -
  let ?s = "demo_sys (demo_stored demo_job) [] demo_job"
  have j: "s_redis ?s = demo_stored demo_job" "j_JobID demo_job = ''J''" "n_log (s_net ?s) = []"
    "j_Documents demo_job = [demo_doc]" "d_DocumentID demo_doc = ''doc''" "d_State demo_doc = DocPending"
    by (simp_all add: demo_defs script_net_def)
  have "store_on_redis mem_redis m_content m_items (o_jobs demo)"
    using mem_store.store_on_redis_axioms by (simp add: demo_def)
  from conjunct1 [OF only_ready_served [OF this, of "''J''" "''doc''" False ?s]] show ?thesis
    by (rule wp_mono) (use j in \<open>auto simp: ready_document_def Doc_def\<close>)
qed

end
