(* ===== verification/Lifecycle.thy ===== *)
theory Lifecycle
  imports Operations
begin

text \<open>
  The whole signer as a transition system: every operation of the orchestrator, the worker's
  rounds, the background closes, the end of a key's life in Redis and whatever the outside world
  does, in any order and number, on a Redis whose commands may fail at any moment. A step is one
  operation run to its end; \<^theory_text>\<open>Overlap\<close> has operations that overlap.

  The invariant is about the stored jobs: each under its own id, a ready job with only ready
  documents, a ready document only in a job that has ended. The step theorem says how a stored
  job's state can change: along the declared transitions, or to failed; and in which states a job is
  stored first.
\<close>

section \<open>The invariant\<close>

definition job_ok :: "Job \<Rightarrow> bool" where
  "job_ok j \<longleftrightarrow> (j_State j = StateReady \<longrightarrow> list_all (\<lambda>d. d_State d = DocReady) (j_Documents j)) \<and>
     (list_ex (\<lambda>d. d_State d = DocReady) (j_Documents j) \<longrightarrow> Terminal (j_State j))"

definition store_ok :: "(string \<Rightarrow> Job option) \<Rightarrow> bool" where
  "store_ok J \<longleftrightarrow> (\<forall>i j. J i = Some j \<longrightarrow> j_JobID j = i \<and> job_ok j)"

text \<open>Along the declared transitions, or by \<open>Fail\<close>, which asks for none.\<close>

definition moves :: "JobState \<Rightarrow> JobState \<Rightarrow> bool" where
  "moves a b \<longleftrightarrow> transitions\<^sup>*\<^sup>* a b \<or> b = StateFailed"

text \<open>The states in which a job is stored for the first time; what may become of a job, from no job to one and back.\<close>

definition born :: "JobState \<Rightarrow> bool" where
  "born st \<longleftrightarrow> st \<notin> {StateSigning, StateFinalizing, StateReady}"

fun life :: "JobState option \<Rightarrow> JobState option \<Rightarrow> bool" where
  "life _ None = True"
| "life None (Some b) = born b"
| "life (Some a) (Some b) = moves a b"

text \<open>What a caller sees of the store: for each job id that exists, its state.\<close>

definition visible :: "(string \<Rightarrow> Job option) \<Rightarrow> string \<Rightarrow> JobState option" where
  "visible J i = map_option j_State (J i)"

definition moved :: "(string \<Rightarrow> Job option) \<Rightarrow> (string \<Rightarrow> Job option) \<Rightarrow> bool" where
  "moved J J' \<longleftrightarrow> (\<forall>i. life (visible J i) (visible J' i))"

lemma moves_refl [simp]: "moves a a"
  by (simp add: moves_def)

lemma moves_failed [simp]: "moves a StateFailed"
  by (simp add: moves_def)

lemma transitions_failed: "transitions\<^sup>*\<^sup>* StateFailed b \<Longrightarrow> b = StateFailed"
  by (induction rule: rtranclp_induct) auto

lemma moves_trans: "moves a b \<Longrightarrow> moves b c \<Longrightarrow> moves a c"
  by (auto simp: moves_def dest: transitions_failed)

lemma moves_can: "CanTransition a b \<Longrightarrow> moves a b"
  by (auto simp: moves_def CanTransition_def)

lemma moves_mono: "moves a b \<Longrightarrow> a \<le> b"
proof -
  have "transitions\<^sup>*\<^sup>* a b \<Longrightarrow> a \<le> b"
    by (induction rule: rtranclp_induct) (auto dest!: transitions_increase)
  then show "moves a b \<Longrightarrow> a \<le> b" by (cases a) (auto simp: moves_def less_eq_JobState_def)
qed

text \<open>A change of one job at most.\<close>

definition at_most :: "string \<Rightarrow> (string \<Rightarrow> Job option) \<Rightarrow> (string \<Rightarrow> Job option) \<Rightarrow> bool" where
  "at_most i J J' \<longleftrightarrow> (\<forall>k. k \<noteq> i \<longrightarrow> J' k = J k)"

lemma at_most_simps [simp]: "at_most i J J" "at_most i J (J(i := x))" "at_most i J J' \<Longrightarrow> at_most i J (J'(i := x))"
  by (simp_all add: at_most_def)

lemma at_most_ex [simp]: "\<exists>i. at_most i J (J(k := x))" "at_most k J J' \<Longrightarrow> \<exists>i. at_most i J (J'(k := x))"
  by (rule exI [of _ k], simp)+

lemma life_refl [simp]: "life x x"
  by (cases x) simp_all

lemma life_failed [simp]: "life x (Some StateFailed)"
  by (cases x) (simp_all add: born_def)

lemma life_moves: "life x (Some a) \<Longrightarrow> moves a b \<Longrightarrow> (x = None \<Longrightarrow> born b) \<Longrightarrow> life x (Some b)"
  by (cases x) (auto intro: moves_trans)

lemma born_simps [simp]: "born StateSigning = False" "born StateFinalizing = False" "born StateReady = False"
  by (simp_all add: born_def)

text \<open>A job that is past its first states was there before.\<close>

lemma life_late: "life x (Some a) \<Longrightarrow> \<not> born a \<Longrightarrow> moves a b \<Longrightarrow> life x (Some b)"
  by (cases x) (auto intro: moves_trans)

lemma moved_refl: "moved J J"
  by (simp add: moved_def)

lemma moved_upd: "moved J0 J \<Longrightarrow> life (visible J0 i) (Some (j_State j)) \<Longrightarrow> moved J0 (J(i \<mapsto> j))"
  by (simp add: moved_def visible_def)

lemma store_ok_upd: "store_ok J \<Longrightarrow> job_ok j \<Longrightarrow> store_ok (J(j_JobID j \<mapsto> j))"
  by (auto simp: store_ok_def)

lemma store_ok_del: "store_ok J \<Longrightarrow> store_ok (J(i := None))" "moved J0 J \<Longrightarrow> moved J0 (J(i := None))"
  by (auto simp: store_ok_def moved_def visible_def)

lemma job_ok_states:
  "job_ok j \<longleftrightarrow> (j_State j = StateReady \<longrightarrow> set (map d_State (j_Documents j)) \<subseteq> {DocReady}) \<and>
     (DocReady \<in> set (map d_State (j_Documents j)) \<longrightarrow> Terminal (j_State j))"
proof -
  have "set (map d_State ds) \<subseteq> {DocReady} \<longleftrightarrow> list_all (\<lambda>d. d_State d = DocReady) ds"
    "DocReady \<in> set (map d_State ds) \<longleftrightarrow> list_ex (\<lambda>d. d_State d = DocReady) ds" for ds :: "Document list"
    by (induction ds) auto
  then show ?thesis by (simp add: job_ok_def del: set_map)
qed

lemma job_ok_shell: "shell j' = shell j \<Longrightarrow> job_ok j \<Longrightarrow> job_ok j'"
  by (simp add: job_ok_states shell_def del: set_map)

lemma job_ok_Fail [simp]: "job_ok (Fail c m t j)"
  by (simp add: job_ok_def)

lemma job_ok_Transition: "job_ok j \<Longrightarrow> st \<noteq> StateReady \<Longrightarrow> job_ok (snd (Transition st t j))"
  by (auto simp: job_ok_def Transition_state CanTransition_terminal)

lemma life_Transition:
  "life x (Some (j_State j)) \<Longrightarrow> (x = None \<Longrightarrow> born st) \<Longrightarrow> life x (Some (j_State (snd (Transition st t j))))"
  by (auto simp: Transition_state intro: life_moves moves_can)

lemma ready_job_ok: "ready_job j \<Longrightarrow> job_ok j"
  by (auto simp: ready_job_def job_ok_def list_all_iff)

lemma attach_signatures_shell:
  assumes "attach_signatures sigs want j = Inr (w, j')"
  shows "shell j' = shell j"
proof -
  have docs: "map d_DocumentID ds = map fst (map doc_core ds)" "map d_State ds = map (snd \<circ> snd) (map doc_core ds)" for ds :: "Document list"
    by (simp_all add: doc_core_def comp_def)
  note f = attach_signatures_frame [OF assms]
  then have "map doc_core (j_Documents j') = map doc_core (j_Documents j)" by blast
  with f show ?thesis unfolding shell_def docs by simp
qed

section \<open>An operation on a job in hand\<close>

locale hosted = store_on_redis R content items S
  for R :: "'r redis" and content items S +
  fixes ob :: "('r, 'u) Orchestrator"
  assumes on_store: "o_jobs ob = S" and signapi: "signapi_client (o_signapi ob)"
begin

definition kept :: "(string \<Rightarrow> Job option) \<Rightarrow> ('r, 'u) sys \<Rightarrow> bool" where
  "kept J s \<longleftrightarrow> store_ok (jobsR (s_redis s)) \<and> moved J (jobsR (s_redis s)) \<and> (\<exists>i. at_most i J (jobsR (s_redis s)))"

text \<open>The job in hand was in the state \<open>x\<close> when the operation began, or is new.\<close>

definition hand :: "JobState option \<Rightarrow> (string \<Rightarrow> Job option) \<Rightarrow> ('r, 'u) sys \<Rightarrow> bool" where
  "hand x J s \<longleftrightarrow> kept J s \<and> job_ok (s_job s) \<and> at_most (j_JobID (s_job s)) J (jobsR (s_redis s)) \<and>
     visible J (j_JobID (s_job s)) = x \<and> life x (Some (j_State (s_job s)))"

lemma hand_kept: "hand x J s \<Longrightarrow> kept J s"
  by (simp add: hand_def)

lemma hand_frame: "hand x J s \<Longrightarrow> shell (s_job s') = shell (s_job s) \<Longrightarrow> s_redis s' = s_redis s \<Longrightarrow> hand x J s'"
  by (auto simp: hand_def kept_def shell_def intro: job_ok_shell)

lemma hand_pres: "keeps (\<lambda>s. (shell (s_job s), s_redis s)) m \<Longrightarrow> pres (hand x J) m"
  by (rule pres_keeps) (auto intro: hand_frame)

lemma hand_net [pres_intros]: "pres (hand x J) (onNet m)" "pres (hand x J) job"
  by (intro hand_pres keeps_intros; simp)+

lemma hand_save [pres_intros]: "pres (hand x J) (saveJob ob)"
proof (rule presI)
  fix s assume h: "hand x J s"
  then have "store_ok ((jobsR (s_redis s))(j_JobID (s_job s) \<mapsto> s_job s))" "moved J ((jobsR (s_redis s))(j_JobID (s_job s) \<mapsto> s_job s))"
    by (auto simp: hand_def kept_def intro: store_ok_upd moved_upd)
  with h show "wp (saveJob ob) (\<lambda>_. hand x J) (\<lambda>_. hand x J) s"
    unfolding saveJob_def wp_rules on_store by (intro wp_mono [OF Save_view]) (auto simp: hand_def kept_def)
qed

lemma hand_enqueue [pres_intros]: "pres (hand x J) (onRedis (EnqueueWork (o_jobs ob) i))"
  by (rule presI) (auto simp: wp_onRedis on_store hand_def kept_def intro!: wp_mono [OF EnqueueWork_view])

lemma hand_transition [pres_intros]: "st \<noteq> StateReady \<Longrightarrow> (x = None \<Longrightarrow> born st) \<Longrightarrow> pres (hand x J) (transitionJob ob st)"
  by (rule presI, rule wp_transitionJob) (auto simp: hand_def kept_def intro: job_ok_Transition life_Transition)

lemma hand_fail [pres_intros]: "pres (hand x J) (failJob ob c m)"
  by (rule presI, rule wp_failJob) (auto simp: hand_def kept_def)

lemma hand_close [pres_intros]: "pres (hand x J) closeSessions"
  by (rule presI) (simp add: wp_rules hand_def kept_def)

lemma hand_Sign [pres_intros]: "pres (hand x J) (Sign ob fl)"
  by (rule Sign_frame [OF _ hand_save]) (auto intro: hand_frame shell_core)

lemma hand_orFail [pres_intros]: "pres (hand x J) m \<Longrightarrow> pres (hand x J) (orFail ob c m)"
  unfolding orFail_def by (intro pres_intros)

lemma hand_finalize:
  "hand x J s \<Longrightarrow> j_State (s_job s) = StateFinalizing \<Longrightarrow> wp (finalize ob) (\<lambda>_. hand x J) (\<lambda>_. hand x J) s"
proof (rule wp_mono [OF finalize_outcome [OF signapi]], assumption, goal_cases)
  case (1 y s')
  have "life x (Some StateReady)" using 1 life_late [of x StateFinalizing StateReady] by (simp add: hand_def moves_can CanTransition_def)
  with 1 show ?case by (auto simp: hand_def kept_def ready_job_ok ready_job_def)
qed (auto simp: hand_def kept_def)

text \<open>A job that was loaded is a job in hand.\<close>

lemma load_hand:
  assumes "store_ok (jobsR r)" and "jobsR (s_redis s) = jobsR r" and "jobsR r i = Some j" and "s_job s = j"
  shows "hand (Some (j_State j)) (jobsR r) s"
  using assms by (auto simp: hand_def kept_def store_ok_def moved_refl visible_def)

text \<open>Each operation, from a store that is in order.\<close>

lemma finalize_step_hand: "hand x J s \<Longrightarrow> j_State (s_job s) = StateFinalizing \<Longrightarrow> wp (finalize_step ob) (\<lambda>_. hand x J) (\<lambda>_. hand x J) s"
  unfolding finalize_step_def wp_bindE [of "tryE _"] wp_tryE
  by (rule wp_mono [OF hand_finalize]) (auto intro!: presD pres_intros)

lemma sign_step_hand: 
  assumes "hand x J s" and "j_State (s_job s) = StateSigning"
  shows "wp (sign_step ob fl) (\<lambda>_. hand x J) (\<lambda>_. hand x J) s"
proof -
  have sign: "wp (Sign ob fl) (\<lambda>_ s'. hand x J s' \<and> j_State (s_job s') = StateSigning) (\<lambda>_ s'. hand x J s' \<and> j_State (s_job s') = StateSigning) s"
    by (rule wp_mono [OF wp_conj [OF presD [OF hand_Sign] keepsD [OF Sign_core]]]) (use assms in \<open>auto simp: core_def\<close>)
  have save: "wp (saveJob ob) (\<lambda>_. wp (finalize_step ob) (\<lambda>_. hand x J) (\<lambda>_. hand x J)) (\<lambda>_. wp (finalize_step ob) (\<lambda>_. hand x J) (\<lambda>_. hand x J)) s1"
    if "hand x J s1" "j_State (s_job s1) = StateFinalizing" for s1
  proof -
    have "keeps s_job (saveJob ob)" unfolding saveJob_def by (intro keeps_intros) simp
    from wp_conj [OF presD [OF hand_save that(1)] keepsD [OF this]] show ?thesis
      by (rule wp_mono) (use that in \<open>auto intro: finalize_step_hand\<close>)
  qed
  have "wp (transitionJob ob StateFinalizing) (\<lambda>_. wp (ignE (saveJob ob)) (\<lambda>_. wp (finalize_step ob) (\<lambda>_. hand x J) (\<lambda>_. hand x J)) (\<lambda>_. hand x J)) (\<lambda>_. hand x J) s1"
    if "hand x J s1" "j_State (s_job s1) = StateSigning" for s1
    unfolding wp_ignE
    by (rule wp_transitionJob, rule save)
       (use that in \<open>auto simp: hand_def kept_def Transition_state CanTransition_def intro: job_ok_Transition life_late [OF _ _ moves_can]\<close>)
  then show ?thesis
    unfolding sign_step_def wp_bindE [of "tryE _"] wp_tryE
    by (intro wp_mono [OF sign]) (auto simp: wp_bindE [of "transitionJob _ _"] wp_bindE [of "ignE _" "\<lambda>_. finalize_step ob"] intro!: presD pres_intros)
qed

lemma RunJob_kept:
  assumes "store_ok (jobsR (s_redis s))"
  shows "wp (RunJob ob i) (\<lambda>_. kept (jobsR (s_redis s))) (\<lambda>_. kept (jobsR (s_redis s))) s"
proof -
  have run: "wp (case j_State j of StateSigning \<Rightarrow> (case flows (j_Flow j) of
          None \<Rightarrow> bindE (failJob ob ''signing:unknown_flow'' (j_Flow j)) (\<lambda>_. ignE (saveJob ob)) | Some flow \<Rightarrow> sign_step ob flow)
        | StateFinalizing \<Rightarrow> finalize_step ob | _ \<Rightarrow> retE ()) (\<lambda>_. hand x (jobsR (s_redis s))) (\<lambda>_. hand x (jobsR (s_redis s))) s1"
    if "hand x (jobsR (s_redis s)) s1" "s_job s1 = j" for s1 j x
  proof -
    have "pres (hand x (jobsR (s_redis s))) (bindE (failJob ob c m) (\<lambda>_. ignE (saveJob ob)))" for c m
      by (intro pres_intros)
    with that show ?thesis
      by (cases "j_State j") (auto simp: wp_retE presD sign_step_hand finalize_step_hand split: option.split)
  qed
  show ?thesis
    unfolding RunJob_def wp_bindE [of "tryE _"] wp_bindE [of "setJob _"] wp_tryE wp_onRedis on_store
    by (rule wp_mono [OF Load_view])
       (use assms in \<open>auto simp: wp_setJob wp_bindE wp_retE kept_def moved_refl intro!: wp_mono [OF run] hand_kept load_hand\<close>)
qed

lemma worker_round_kept:
  assumes "store_ok (jobsR (s_redis s))"
  shows "wp (worker_round ob) (\<lambda>_. kept (jobsR (s_redis s))) (\<lambda>_. kept (jobsR (s_redis s))) s"
  unfolding worker_round_def wp_bindE [of "tryE _"] wp_tryE wp_onRedis on_store
proof (rule wp_mono [OF DequeueWork_view], goal_cases)
  case (1 i r)
  with RunJob_kept [of "s\<lparr>s_redis := r\<rparr>" i] assms show ?case by simp
next
  case (2 e r)
  then show ?case
    using assms by (auto simp: wp_rules kept_def moved_refl intro!: wp_mono [OF wp_true])
qed

lemma Callback_kept:
  assumes "store_ok (jobsR (s_redis s))"
  shows "wp (Callback ob st code declined) (\<lambda>_. kept (jobsR (s_redis s))) (\<lambda>_. kept (jobsR (s_redis s))) s"
proof -
  let ?J = "jobsR (s_redis s)"
  have fail: "pres (hand (Some x) ?J) (fail_callback ob c m)" for c m x
    unfolding fail_callback_def by (intro pres_intros hand_net)
  have adv: "pres (hand (Some x) ?J) (AdvanceCallback ob fl code)" for fl x
    by (intro hand_pres keeps_shell AdvanceCallback_keeps)
  have body: "pres (hand (Some x) ?J) (if declined then fail_callback ob ''signing:declined'' ''user declined authorization'' else
       case flows f of None \<Rightarrow> fail_callback ob ''signing:unknown_flow'' f
       | Some flow \<Rightarrow> bindE (tryE (AdvanceCallback ob flow code)) (\<lambda>r. case r of
             Inl e \<Rightarrow> fail_callback ob ''signing:callback_failed'' (err_text e)
           | Inr (nextURL, complete) \<Rightarrow>
               if \<not> complete then bindE (saveJob ob) (\<lambda>_. retE nextURL)
               else bindE (transitionJob ob StateSigning) (\<lambda>_. bindE (saveJob ob) (\<lambda>_. bindE job (\<lambda>j.
                 bindE (ignE (onRedis (EnqueueWork (o_jobs ob) (j_JobID j)))) (\<lambda>_.
                 retE (substituteJobID (j_PostAuthRedirect j) (j_JobID j))))))))" for f x
    by (intro pres_intros hand_net fail adv) simp_all
  show ?thesis
    unfolding Callback_def wp_bindE [of "onRedis _"] wp_bindE [of "setJob _"] wp_onRedis wp_setJob
  proof (rule wp_mono [OF LoadByState_view [folded on_store]], goal_cases)
    case load: (1 j r)
    then obtain i where i: "jobsR (s_redis s) i = Some j" by blast
    show ?case
    proof (rule wp_mono [OF ClearState_view [folded on_store]], goal_cases)
      case (1 x r')
      then have "hand (Some (j_State j)) ?J (s\<lparr>s_redis := r, s_job := j, s_redis := r'\<rparr>)"
        using load i assms by (intro load_hand [where i = i and j = j]) auto
      from presD [OF body this] show ?case by (rule wp_mono) (auto intro: hand_kept)
    qed simp
  qed (use assms in \<open>simp add: kept_def moved_refl\<close>)
qed

lemma SubmitSignatures_kept:
  assumes "store_ok (jobsR (s_redis s))"
  shows "wp (SubmitSignatures ob i sigs) (\<lambda>_. kept (jobsR (s_redis s))) (\<lambda>_. kept (jobsR (s_redis s))) s"
proof -
  let ?J = "jobsR (s_redis s)"
  have save: "pres (hand (Some x) ?J) (bindE (transitionJob ob StateFinalizing) (\<lambda>_. bindE (saveJob ob) (\<lambda>_. bindE job (\<lambda>j''.
         bindE (ignE (onRedis (EnqueueWork (o_jobs ob) (j_JobID j'')))) (\<lambda>_. retE j'')))))" for x
    by (intro pres_intros hand_net) simp_all
  show ?thesis
    unfolding SubmitSignatures_def wp_bindE [of "onRedis _"] wp_onRedis on_store
  proof (rule wp_mono [OF Load_view], goal_cases)
    case (1 j r)
    have k: "kept ?J (s\<lparr>s_redis := r\<rparr>)" using 1 assms by (simp add: kept_def moved_refl)
    have h: "hand (Some (j_State j)) ?J (s\<lparr>s_redis := r, s_job := j'\<rparr>)"
      if "attach_signatures sigs want j = Inr (w, j')" for want w j'
    proof -
      have "hand (Some (j_State j)) ?J (s\<lparr>s_redis := r, s_job := j\<rparr>)" using 1 assms by (intro load_hand) auto
      moreover have "shell j' = shell j" by (rule attach_signatures_shell [OF that])
      ultimately show ?thesis by - (rule hand_frame [of _ _ "s\<lparr>s_redis := r, s_job := j\<rparr>"], simp_all)
    qed
    show ?case
      using k
      by (auto simp: wp_if wp_failE wp_bindE [of "ofsumE _"] wp_ofsumE wp_bindE [of "setJob _"] wp_setJob split: sum.split prod.split
          intro!: wp_mono [OF presD [OF save [unfolded on_store] h]] hand_kept)
  qed (use assms in \<open>simp add: kept_def moved_refl\<close>)
qed

lemma DeleteJob_kept:
  assumes "store_ok (jobsR (s_redis s))"
  shows "wp (DeleteJob ob i) (\<lambda>_. kept (jobsR (s_redis s))) (\<lambda>_. kept (jobsR (s_redis s))) s"
  unfolding DeleteJob_def wp_bindE wp_onRedis wp_setJob wp_closeSessions on_store
  by (rule wp_mono [OF Load_view], rule wp_mono [OF Delete_view])
     (use assms in \<open>auto simp: kept_def moved_refl intro: store_ok_del(1) store_ok_del(2) [OF moved_refl]\<close>)

lemma Prepare_kept:
  assumes "store_ok (jobsR (s_redis s))" and fresh: "jobsR (s_redis s) (fst (e_ulid (o_env ob) (n_env (s_net s)))) = None"
  shows "wp (Prepare ob inp) (\<lambda>_. kept (jobsR (s_redis s))) (\<lambda>_. kept (jobsR (s_redis s))) s"
proof (cases "prepare_refusal ob inp")
  case (Some e)
  with assms show ?thesis by (simp add: Prepare_def wp_failE kept_def moved_refl)
next
  case None
  let ?J = "jobsR (s_redis s)" and ?i = "fst (e_ulid (o_env ob) (n_env (s_net s)))"
  have set1: "pres (hand None ?J) (setJob f)" if "\<And>j. shell (f j) = shell j" for f
    by (rule hand_pres) (simp add: keeps_setJob that)
  have cl: "pres (hand None ?J) (prepare_client ob inp)"
    unfolding prepare_client_def
    by (intro pres_intros hand_net set1 hand_pres calculateDigests_shell) (simp_all add: shell_def born_def)
  have re: "pres (hand None ?J) (prepare_remote ob fl inp)" for fl
    unfolding prepare_remote_def
    by (intro pres_intros hand_net set1 hand_pres BeginAuthorization_shell) (simp_all add: shell_def born_def supply_identity_def)
  have rest: "pres (hand None ?J) (bindE (orFail ob ''signapi:upload_failed'' (createSessionsAndUpload ob (pi_Documents inp))) (\<lambda>_.
          bindE (if ca_ClientSide (flow_Capabilities fl) then prepare_client ob inp else prepare_remote ob fl inp)
            (\<lambda>(url, digests, algo). bindE (saveJob ob) (\<lambda>_. bindE job (\<lambda>j.
          retE \<lparr>pr_Job = j, pr_AuthorizeURL = url, pr_Digests = digests, pr_SignAlgo = algo\<rparr>)))))" for fl
    by (intro pres_intros hand_net cl re hand_pres createSessions_keeps)
  have start: "hand None ?J (s\<lparr>s_net := n, s_job := new_job ob inp ?i t1 t2\<rparr>)" for n t1 t2
    using assms by (auto simp: hand_def visible_def born_def kept_def moved_refl job_ok_def new_job_def new_document_def emptyJob_def emptyDocument_def
        list_ex_iff)
  show ?thesis
    unfolding Prepare_def None option.case Let_def wp_bindE [of "makeULID ob"] wp_bindE [of "time ob"] wp_bindE [of "setJob _"] wp_setJob
    by (intro wp_makeULID wp_time wp_mono [OF presD [OF rest]]) (auto simp: start intro: hand_kept)
qed

text \<open>The operations that only read the store.\<close>

definition reads :: "(('r, 'u) sys, err, 'a) prog \<Rightarrow> bool" where
  "reads m \<longleftrightarrow> keeps (\<lambda>s. jobsR (s_redis s)) m"

lemma reads_load: "keeps (\<lambda>s. jobsR (s_redis s)) (onRedis (Load S i))"
  by (rule keepsI) (auto simp: wp_onRedis intro!: wp_mono [OF Load_view])

lemma reads_ops:
  "reads (Status ob i)" "reads (Download ob i doc asice)" "reads (ArchiveJobDocument ob i doc asice)"
  "reads (Validate ob corr name mime data)" "reads (ArchiveUpload ob corr name mime cert data)" "reads (WaitClosing ob)"
  unfolding reads_def Status_def Download_def ArchiveJobDocument_def Validate_def ArchiveUpload_def WaitClosing_def
    run_close_def closeSession_def closeLater_def on_store
  by (intro keeps_intros reads_load; simp)+

lemma reads_kept: "reads m \<Longrightarrow> store_ok (jobsR (s_redis s)) \<Longrightarrow> kept (jobsR (s_redis s)) (snd (m s))"
  by (simp add: reads_def keeps_def kept_def moved_refl)

end

section \<open>The system\<close>

text \<open>
  \<open>e_ulid\<close> makes an id that no stored job has: the premise of the rule for \<open>Prepare\<close>. The other
  rules have no premise but the last two, the end of a key's life and a change of the world.
\<close>

inductive signer_step :: "('r \<Rightarrow> string \<Rightarrow> rval option) \<Rightarrow> ('r, 'u) Orchestrator \<Rightarrow> ('r, 'u) sys \<Rightarrow> ('r, 'u) sys \<Rightarrow> bool"
  for content ob where
  prepare: "jobs_in content (s_redis s) (fst (e_ulid (o_env ob) (n_env (s_net s)))) = None \<Longrightarrow> signer_step content ob s (snd (Prepare ob inp s))"
| callback: "signer_step content ob s (snd (Callback ob state code declined s))"
| submit: "signer_step content ob s (snd (SubmitSignatures ob i sigs s))"
| run_job: "signer_step content ob s (snd (RunJob ob i s))"
| worker: "signer_step content ob s (snd (worker_round ob s))"
| status: "signer_step content ob s (snd (Status ob i s))"
| download: "signer_step content ob s (snd (Download ob i doc asice s))"
| delete: "signer_step content ob s (snd (DeleteJob ob i s))"
| validate: "signer_step content ob s (snd (Validate ob corr name mime data s))"
| archive_upload: "signer_step content ob s (snd (ArchiveUpload ob corr name mime cert data s))"
| archive_document: "signer_step content ob s (snd (ArchiveJobDocument ob i doc asice s))"
| close: "signer_step content ob s (snd (WaitClosing ob s))"
| expire: "content r = (content (s_redis s))(k := None) \<Longrightarrow> signer_step content ob s (s\<lparr>s_redis := r\<rparr>)"
| world: "signer_step content ob s (s\<lparr>s_net := w\<rparr>)"

inductive reachable :: "('r \<Rightarrow> string \<Rightarrow> rval option) \<Rightarrow> ('r, 'u) Orchestrator \<Rightarrow> ('r, 'u) sys \<Rightarrow> bool" for content ob where
  start: "jobs_in content (s_redis s) = Map.empty \<Longrightarrow> reachable content ob s"
| step: "reachable content ob s \<Longrightarrow> signer_step content ob s s' \<Longrightarrow> reachable content ob s'"

lemma jobs_in_expire:
  assumes "content r = (content r0)(k := None)"
  shows "(\<exists>i. jobs_in content r = (jobs_in content r0)(i := None)) \<or> jobs_in content r = jobs_in content r0"
proof (cases "\<exists>i. k = keyJob @ i")
  case True
  then obtain i where "k = keyJob @ i" by blast
  with assms show ?thesis by (auto simp: jobs_in_def fun_eq_iff intro!: exI [of _ i])
next
  case False
  with assms show ?thesis by (auto simp: jobs_in_def fun_eq_iff)
qed

context hosted
begin

lemmas kept_ops = Callback_kept [unfolded wp_same] SubmitSignatures_kept [unfolded wp_same] RunJob_kept [unfolded wp_same]
  worker_round_kept [unfolded wp_same] DeleteJob_kept [unfolded wp_same] reads_ops [THEN reads_kept]

lemma step_kept:
  assumes "signer_step content ob s s'" and ok: "store_ok (jobsR (s_redis s))"
  shows "kept (jobsR (s_redis s)) s'"
  using assms(1)
proof cases
  case (prepare inp)
  with Prepare_kept [OF ok, of inp] show ?thesis by (simp add: wp_same)
next
  case (expire r k)
  then obtain i where i: "jobsR r = (jobsR (s_redis s))(i := None) \<or> jobsR r = jobsR (s_redis s)"
    using jobs_in_expire [of content r "s_redis s" k] by blast
  then have "at_most i (jobsR (s_redis s)) (jobsR r)" by auto
  with i ok expire show ?thesis by (auto simp: kept_def moved_refl intro: store_ok_del(1) store_ok_del(2) [OF moved_refl])
next
  case (world w)
  with ok show ?thesis by (simp add: kept_def moved_refl)
qed (simp_all add: kept_ops ok)

lemma reachable_ok: "reachable content ob s \<Longrightarrow> store_ok (jobsR (s_redis s))"
proof (induction rule: reachable.induct)
  case (step s s')
  from step_kept [OF step(2,3)] show ?case by (simp add: kept_def)
qed (simp add: store_ok_def)

end

interpretation demo_system: hosted mem_redis m_content m_items "New mem_redis 0" demo
  by unfold_locales (simp_all add: demo_def fixed.token_frame)

section \<open>An abstract signer\<close>

text \<open>
  The life of the jobs as a caller may see it, one job at a time: a job appears in one of its first
  states, moves along the declared transitions, fails or disappears.
\<close>

inductive visible_step :: "(string \<Rightarrow> JobState option) \<Rightarrow> (string \<Rightarrow> JobState option) \<Rightarrow> bool" where
  unchanged: "visible_step v v"
| appears: "v i = None \<Longrightarrow> born st \<Longrightarrow> visible_step v (v(i \<mapsto> st))"
| transition: "v i = Some a \<Longrightarrow> transitions\<^sup>*\<^sup>* a b \<Longrightarrow> visible_step v (v(i \<mapsto> b))"
| fails: "v i = Some a \<Longrightarrow> visible_step v (v(i \<mapsto> StateFailed))"
| disappears: "visible_step v (v(i := None))"

inductive_cases visible_stepE: "visible_step v v'"

lemma life_visible: "life (v i) x \<Longrightarrow> visible_step v (v(i := x))"
  by (cases "v i"; cases x) (auto simp: moves_def intro: visible_step.intros)

lemma kept_visible:
  assumes "moved J J'" and "at_most i J J'"
  shows "visible_step (visible J) (visible J')"
proof -
  have "visible J' = (visible J)(i := visible J' i)" using assms(2) by (auto simp: at_most_def visible_def)
  moreover have "life (visible J i) (visible J' i)" using assms(1) by (simp add: moved_def)
  ultimately show ?thesis using life_visible [of "visible J" i "visible J' i"] by simp
qed

text \<open>A step never takes a job back.\<close>

lemma visible_mono: "visible_step v v' \<Longrightarrow> v i = Some a \<Longrightarrow> v' i = Some b \<Longrightarrow> moves a b"
  by (erule visible_stepE) (auto simp: moves_def split: if_splits)

section \<open>Properties\<close>

lemma demo_start: "reachable m_content demo (demo_sys mem_empty as j)"
  by (rule reachable.start) (simp add: demo_sys_def jobs_in_def mem_empty_def fun_eq_iff)

text \<open>
  The signer implements the life cycle it declares. Seen from outside, as the state of each
  existing job, every step of the running signer is one step of the abstract signer: nothing, or one
  job appears in one of its first states, moves along the declared transitions, fails, or disappears.
  All other jobs are untouched to the last field, and a stored job's state never goes back.
\<close>

theorem signer_refines_lifecycle:
  assumes "hosted R content items S ob" and "reachable content ob s" and "signer_step content ob s s'"
  shows "visible_step (visible (jobs_in content (s_redis s))) (visible (jobs_in content (s_redis s'))) \<and>
    (\<exists>i. at_most i (jobs_in content (s_redis s)) (jobs_in content (s_redis s'))) \<and>
    (\<forall>i j j'. jobs_in content (s_redis s) i = Some j \<longrightarrow> jobs_in content (s_redis s') i = Some j' \<longrightarrow> j_State j \<le> j_State j')"
proof -
  let ?J = "jobs_in content (s_redis s)" and ?J' = "jobs_in content (s_redis s')"
  from hosted.step_kept [OF assms(1,3) hosted.reachable_ok [OF assms(1,2)]]
  obtain i where m: "moved ?J ?J'" and i: "at_most i ?J ?J'" by (auto simp: hosted.kept_def [OF assms(1)])
  have "j_State j \<le> j_State j'" if "?J k = Some j" "?J' k = Some j'" for k j j'
    by (rule moves_mono, rule visible_mono [OF kept_visible [OF m i], of k]) (use that in \<open>simp_all add: visible_def\<close>)
  with kept_visible [OF m i] i show ?thesis by blast
qed

theorem signer_refines_lifecycle_witness:
  "let s = demo_sys mem_empty demo_prepare_answers emptyJob in
   visible_step (visible (jobs_in m_content (s_redis s))) (visible (jobs_in m_content (s_redis (snd (Prepare demo demo_input s)))))"
proof -
  let ?s = "demo_sys mem_empty demo_prepare_answers emptyJob"
  have "signer_step m_content demo ?s (snd (Prepare demo demo_input ?s))"
    by (rule signer_step.prepare) (simp add: demo_sys_def jobs_in_def mem_empty_def)
  from signer_refines_lifecycle [OF demo_system.hosted_axioms demo_start this] show ?thesis by (simp add: Let_def)
qed

end
