(* ===== verification/Commands.thy ===== *)
theory Commands
  imports Lifecycle
begin

text \<open>
  Overlapping operations. Requests and workers share nothing but Redis, and Redis runs one command at
  a time: what overlapping operations can do to each other is decided by the order of their commands.
  This theory has the commands and answers of the store's Redis client as data, a client that answers
  from a script and logs what it was asked, the histories of a Redis server that several operations
  use at once, and what is to be shown of one operation alone so that every history is in order.

  A history is a list of commands with their answers, each under the number of the operation that
  issued it, in the order the server ran them; keys may expire in between. An operation takes part in
  it as the code does: run on the answers it got there, it issues exactly its commands there.
\<close>

section \<open>Commands and answers\<close>

datatype command =
    CSet string rval int
  | CGet string
  | CDel string
  | CPush string string
  | CPop int string
  | CPing

datatype answer = AFail err | ADone | AValue "rval option" | APopped "string list option"

type_synonym exchange = "command \<times> answer option"

text \<open>A client that answers from a script and logs every command with its answer, \<open>None\<close> when the script has ended.\<close>

record scripted =
  x_answers :: "answer list"
  x_log :: "exchange list"

definition ask :: "command \<Rightarrow> (answer \<Rightarrow> 'a option) \<Rightarrow> (scripted, err, 'a) prog" where
  "ask c read x =
     (case x_answers x of
        [] \<Rightarrow> (Inl (ErrOther ''redis: no answer''), x\<lparr>x_log := x_log x @ [(c, None)]\<rparr>)
      | a # as \<Rightarrow>
          (case a of AFail e \<Rightarrow> Inl e | _ \<Rightarrow> (case read a of None \<Rightarrow> Inl (ErrOther ''redis: unexpected answer'') | Some y \<Rightarrow> Inr y),
           x\<lparr>x_answers := as, x_log := x_log x @ [(c, Some a)]\<rparr>))"

fun done_answer :: "answer \<Rightarrow> unit option" where
  "done_answer ADone = Some ()" | "done_answer _ = None"

fun value_answer :: "answer \<Rightarrow> rval option option" where
  "value_answer (AValue v) = Some v" | "value_answer _ = None"

fun popped_answer :: "answer \<Rightarrow> string list option option" where
  "popped_answer (APopped v) = Some v" | "popped_answer _ = None"

definition scripted_redis :: "scripted redis" where
  "scripted_redis = \<lparr>
     r_set = (\<lambda>k v ttl. ask (CSet k v ttl) done_answer),
     r_get = (\<lambda>k. ask (CGet k) value_answer),
     r_del = (\<lambda>k. ask (CDel k) done_answer),
     r_lpush = (\<lambda>q x. ask (CPush q x) done_answer),
     r_brpop = (\<lambda>t q. ask (CPop t q) popped_answer),
     r_ping = ask CPing done_answer\<rparr>"

text \<open>A command run by a server.\<close>

definition answered_as :: "('a \<Rightarrow> answer) \<Rightarrow> ('m, err, 'a) prog \<Rightarrow> 'm \<Rightarrow> answer \<times> 'm" where
  "answered_as f m s = (case m s of (Inl e, s') \<Rightarrow> (AFail e, s') | (Inr x, s') \<Rightarrow> (f x, s'))"

fun exec :: "'m redis \<Rightarrow> command \<Rightarrow> 'm \<Rightarrow> answer \<times> 'm" where
  "exec R (CSet k v ttl) = answered_as (\<lambda>_. ADone) (r_set R k v ttl)"
| "exec R (CGet k) = answered_as AValue (r_get R k)"
| "exec R (CDel k) = answered_as (\<lambda>_. ADone) (r_del R k)"
| "exec R (CPush q x) = answered_as (\<lambda>_. ADone) (r_lpush R q x)"
| "exec R (CPop t q) = answered_as APopped (r_brpop R t q)"
| "exec R CPing = answered_as (\<lambda>_. ADone) (r_ping R)"

section \<open>Histories\<close>

datatype event = Cmd nat command answer | Expire string

inductive happens :: "'m redis \<Rightarrow> ('m \<Rightarrow> string \<Rightarrow> rval option) \<Rightarrow> 'm \<Rightarrow> event \<Rightarrow> 'm \<Rightarrow> bool" for R content where
  cmd: "exec R c m = (a, m') \<Longrightarrow> happens R content m (Cmd t c a) m'"
| expire: "content m' = (content m)(k := None) \<Longrightarrow> happens R content m (Expire k) m'"

inductive_cases happensE: "happens R content m (Cmd t c a) m'" "happens R content m (Expire k) m'"

inductive history :: "'m redis \<Rightarrow> ('m \<Rightarrow> string \<Rightarrow> rval option) \<Rightarrow> 'm \<Rightarrow> event list \<Rightarrow> 'm \<Rightarrow> bool" for R content m where
  start: "history R content m [] m"
| step: "history R content m h m1 \<Longrightarrow> happens R content m1 e m2 \<Longrightarrow> history R content m (h @ [e]) m2"

text \<open>The part of an operation in a history.\<close>

fun part_of :: "nat \<Rightarrow> event \<Rightarrow> exchange list" where
  "part_of t (Cmd t' c a) = (if t' = t then [(c, Some a)] else [])"
| "part_of t (Expire k) = []"

definition part :: "nat \<Rightarrow> event list \<Rightarrow> exchange list" where
  "part t h = concat (map (part_of t) h)"

text \<open>An operation, as a function of what its Redis client is scripted to answer.\<close>

definition follows :: "(scripted \<Rightarrow> scripted) \<Rightarrow> exchange list \<Rightarrow> bool" where
  "follows body p \<longleftrightarrow> take (length p) (x_log (body \<lparr>x_answers = map (the \<circ> snd) p, x_log = []\<rparr>)) = p"

text \<open>
  A history made of a schedule: at each turn the operation runs again on the answers it has had, up to
  its next command, which the server answers. The result is the events with the states after them.
\<close>

fun nth_opt :: "'a list \<Rightarrow> nat \<Rightarrow> 'a option" where
  "nth_opt [] n = None"
| "nth_opt (x # xs) 0 = Some x"
| "nth_opt (x # xs) (Suc n) = nth_opt xs n"

definition next_command :: "(scripted \<Rightarrow> scripted) \<Rightarrow> exchange list \<Rightarrow> command option" where
  "next_command body p = map_option fst (nth_opt (x_log (body \<lparr>x_answers = map (the \<circ> snd) p, x_log = []\<rparr>)) (length p))"

fun play :: "'m redis \<Rightarrow> (nat \<Rightarrow> scripted \<Rightarrow> scripted) \<Rightarrow> event list \<Rightarrow> nat list \<Rightarrow> 'm \<Rightarrow> (event \<times> 'm) list" where
  "play R body h [] m = []"
| "play R body h (t # ts) m =
     (case next_command (body t) (part t h) of
        None \<Rightarrow> []
      | Some c \<Rightarrow> (case exec R c m of (a, m') \<Rightarrow> (Cmd t c a, m') # play R body (h @ [Cmd t c a]) ts m'))"

lemma play_history:
  assumes "history R content m0 h m" and "play R body h ts m = es @ (e, m') # es'"
  shows "history R content m0 (h @ map fst es @ [e]) m'"
  using assms
proof (induction R body h ts m arbitrary: es rule: play.induct)
  case (2 R body h t ts m)
  then obtain c where c: "next_command (body t) (part t h) = Some c" by (auto split: option.splits)
  obtain a m1 where x: "exec R c m = (a, m1)" by fastforce
  have h: "history R content m0 (h @ [Cmd t c a]) m1" by (rule history.step [OF "2.prems"(1) happens.cmd [OF x]])
  have p: "(Cmd t c a, m1) # play R body (h @ [Cmd t c a]) ts m1 = es @ (e, m') # es'" using "2.prems"(2) c x by simp
  show ?case
  proof (cases es)
    case Nil
    with p h show ?thesis by simp
  next
    case (Cons q es1)
    with p have "play R body (h @ [Cmd t c a]) ts m1 = es1 @ (e, m') # es'" "fst q = Cmd t c a" by auto
    with "2.IH" [OF c x [symmetric] h, of es1] Cons show ?thesis by simp
  qed
qed simp

lemma play_happens:
  assumes "play R body h ts m = es @ (e, m1) # (e', m2) # es'"
  shows "happens R content m1 e' m2"
  using assms
proof (induction R body h ts m arbitrary: es rule: play.induct)
  case (2 R body h t ts m)
  then obtain c where c: "next_command (body t) (part t h) = Some c" by (auto split: option.splits)
  obtain a m' where x: "exec R c m = (a, m')" by fastforce
  have p: "(Cmd t c a, m') # play R body (h @ [Cmd t c a]) ts m' = es @ (e, m1) # (e', m2) # es'" using "2.prems" c x by simp
  show ?case
  proof (cases es)
    case Nil
    with p have "play R body (h @ [Cmd t c a]) ts m1 = (e', m2) # es'" by auto
    then show ?thesis by (cases ts) (auto intro!: happens.cmd split: option.splits prod.splits)
  next
    case (Cons q es1)
    with p have "play R body (h @ [Cmd t c a]) ts m' = es1 @ (e, m1) # (e', m2) # es'" by simp
    then show ?thesis by (rule "2.IH" [OF c x [symmetric]])
  qed
qed simp

section \<open>What an operation knows and writes\<close>

text \<open>The job that a value under a key is, if the key is that of the job \<open>i\<close>; the state an exchange shows of it.\<close>

definition job_at :: "string \<Rightarrow> string \<Rightarrow> rval \<Rightarrow> Job option" where
  "job_at i k v = (if k = keyJob @ i then (case unmarshal_job v of Inl _ \<Rightarrow> None | Inr j \<Rightarrow> Some j) else None)"

fun learned :: "string \<Rightarrow> exchange \<Rightarrow> JobState option" where
  "learned i (CGet k, Some (AValue (Some v))) = map_option j_State (job_at i k v)"
| "learned i (CSet k v ttl, _) = map_option j_State (job_at i k v)"
| "learned i _ = None"

definition learn :: "string \<Rightarrow> exchange \<Rightarrow> JobState option \<Rightarrow> JobState option" where
  "learn i e known = (case learned i e of None \<Rightarrow> known | Some a \<Rightarrow> Some a)"

text \<open>The state of the job \<open>i\<close> as an operation saw it last, read or written by itself.\<close>

definition known :: "string \<Rightarrow> exchange list \<Rightarrow> JobState option" where
  "known i es = fold (learn i) es None"

text \<open>Whether an operation has read the job \<open>i\<close> from Redis.\<close>

fun shows_job :: "string \<Rightarrow> exchange \<Rightarrow> bool" where
  "shows_job i (CGet k, Some (AValue (Some v))) = (job_at i k v \<noteq> None)"
| "shows_job i _ = False"

definition shown :: "string \<Rightarrow> exchange list \<Rightarrow> bool" where
  "shown i es = list_ex (shows_job i) es"

text \<open>
  What is expected of the answers: a job that is read is in order. What an operation owes: a job that
  it writes is in order, its state lies onward from the state it saw last, and is one of the first
  states if the operation has not read the job.
\<close>

definition writable :: "exchange list \<Rightarrow> Job \<Rightarrow> bool" where
  "writable es j \<longleftrightarrow> job_ok j \<and> (shown (j_JobID j) es \<or> born (j_State j)) \<and>
     (case known (j_JobID j) es of None \<Rightarrow> True | Some a \<Rightarrow> moves a (j_State j))"

fun sound_answer :: "exchange \<Rightarrow> bool" where
  "sound_answer (CGet k, Some (AValue (Some v))) = (\<forall>i j. job_at i k v = Some j \<longrightarrow> j_JobID j = i \<and> job_ok j)"
| "sound_answer _ = True"

fun sound_command :: "exchange list \<Rightarrow> command \<Rightarrow> bool" where
  "sound_command es (CSet k v ttl) =
     (\<forall>i. k = keyJob @ i \<longrightarrow> (\<exists>j. v = RJson (job_json j) \<and> j_JobID j = i \<and> writable es j))"
| "sound_command es _ = True"

definition clean :: "exchange list \<Rightarrow> bool" where
  "clean es \<longleftrightarrow> list_all sound_answer es"

text \<open>The operation owes only as long as it is given what is expected.\<close>

definition fair :: "exchange list \<Rightarrow> bool" where
  "fair es \<longleftrightarrow> (\<forall>k < length es. clean (take k es) \<longrightarrow> sound_command (take k es) (fst (es ! k)))"

text \<open>
  A job that an operation has seen is disturbed when another operation writes it or it is removed,
  until the operation sees it again; so is, for all, a job that was stored before the history began. A
  history is free of conflicts when nobody writes a job that is disturbed for him.
\<close>

fun writes :: "string \<Rightarrow> command \<Rightarrow> bool" where
  "writes i (CSet k v ttl) = (k = keyJob @ i)"
| "writes i _ = False"

fun removes :: "string \<Rightarrow> command \<Rightarrow> bool" where
  "removes i (CDel k) = (k = keyJob @ i)"
| "removes i _ = False"

fun disturb :: "nat \<Rightarrow> string \<Rightarrow> event \<Rightarrow> bool \<Rightarrow> bool" where
  "disturb t i (Cmd t' c a) d =
     (removes i c \<or> (if t' = t then d \<and> learned i (c, Some a) = None else d \<or> writes i c))"
| "disturb t i (Expire k) d = (d \<or> k = keyJob @ i)"

definition disturbed :: "(string \<Rightarrow> bool) \<Rightarrow> nat \<Rightarrow> string \<Rightarrow> event list \<Rightarrow> bool" where
  "disturbed old t i h = fold (disturb t i) h (old i)"

fun written :: "event \<Rightarrow> (nat \<times> string) option" where
  "written (Cmd t (CSet k v ttl) a) = (if take (length keyJob) k = keyJob then Some (t, drop (length keyJob) k) else None)"
| "written _ = None"

fun free_after :: "(string \<Rightarrow> bool) \<Rightarrow> event list \<Rightarrow> event list \<Rightarrow> bool" where
  "free_after old h [] = True"
| "free_after old h (e # es) =
     ((case written e of None \<Rightarrow> True | Some (t, i) \<Rightarrow> \<not> disturbed old t i h) \<and> free_after old (h @ [e]) es)"

definition conflict_free :: "(string \<Rightarrow> bool) \<Rightarrow> event list \<Rightarrow> bool" where
  "conflict_free old h = free_after old [] h"

lemma disturbed_simps [simp]: "disturbed old t i [] = old i" "disturbed old t i (h @ [e]) = disturb t i e (disturbed old t i h)"
  by (simp_all add: disturbed_def)

lemma free_afterD:
  assumes "free_after old h (h1 @ Cmd t c a # h2)" and "writes i c"
  shows "\<not> disturbed old t i (h @ h1)"
  using assms
proof (induction h1 arbitrary: h)
  case Nil
  then show ?case by (cases c) auto
next
  case (Cons e h1)
  then show ?case using Cons.IH [of "h @ [e]"] by simp
qed

lemmas conflict_freeD = free_afterD [of _ "[]", unfolded append_Nil, folded conflict_free_def]

lemma known_nil [simp]: "known i [] = None"
  by (simp add: known_def)

lemma known_snoc [simp]: "known i (es @ [e]) = learn i e (known i es)"
  by (simp add: known_def)

lemma clean_simps [simp]: "clean []" "clean (es @ [e]) \<longleftrightarrow> clean es \<and> sound_answer e"
  by (simp_all add: clean_def)

lemma shown_simps [simp]: "shown i [] = False" "shown i (es @ [e]) \<longleftrightarrow> shown i es \<or> shows_job i e"
  by (auto simp: shown_def)

lemma fair_nil [simp]: "fair []"
  by (simp add: fair_def)

lemma fair_snoc [simp]: "fair (es @ [e]) \<longleftrightarrow> fair es \<and> (clean es \<longrightarrow> sound_command es (fst e))"
  by (auto simp: fair_def less_Suc_eq nth_append)

lemma job_at_saved [simp]: "job_at i (keyJob @ i') (RJson (job_json j)) = (if i' = i then Some j else None)"
  by (auto simp: job_at_def)

lemma job_at_state [simp]: "job_at i (keyState @ st) v = None"
  by (simp add: job_at_def)

lemma job_at_self: "job_at i (keyJob @ i) v = (case unmarshal_job v of Inl _ \<Rightarrow> None | Inr j \<Rightarrow> Some j)"
  by (simp add: job_at_def)

lemma learn_simps [simp]:
  "learn i (CDel k, a) st = st" "learn i (CPush q x, a) st = st" "learn i (CPop t q, a) st = st" "learn i (CPing, a) st = st"
  "learn i (c, None) st = (case c of CSet k v ttl \<Rightarrow> (case job_at i k v of None \<Rightarrow> st | Some j \<Rightarrow> Some (j_State j)) | _ \<Rightarrow> st)"
  by (auto simp: learn_def split: option.split command.split)

lemma no_job_answer:
  assumes "\<nexists>v. a = AValue (Some v)"
  shows "learned i (CGet k, Some a) = None" "sound_answer (CGet k, Some a)" "\<not> shows_job i (CGet k, Some a)"
proof -
  show "\<not> shows_job i (CGet k, Some a)"
  proof (cases a)
    case (AValue x)
    with assms show ?thesis by (cases x) auto
  qed auto
  show "learned i (CGet k, Some a) = None"
  proof (cases a)
    case (AValue x)
    with assms show ?thesis by (cases x) auto
  qed auto
  show "sound_answer (CGet k, Some a)"
  proof (cases a)
    case (AValue x)
    with assms show ?thesis by (cases x) auto
  qed auto
qed

lemma jobs_in_without: "content m' = (content m)(k := None) \<Longrightarrow> jobs_in content m' i = (if k = keyJob @ i then None else jobs_in content m i)"
  by (simp add: jobs_in_def)

lemma learned_no_value: "\<forall>v. a \<noteq> Some (AValue v) \<Longrightarrow> learned i (CGet k, a) = None \<and> \<not> shows_job i (CGet k, a)"
  by (cases a; cases "the a") auto

section \<open>A client whose exchanges are seen\<close>

text \<open>
  What an operation can rely on when others work on the same Redis: only that its exchanges are
  those it made, in order. Nothing is said of the content.
\<close>

locale logged_redis =
  fixes R :: "'r redis" and log :: "'r \<Rightarrow> exchange list"
  assumes set_logged: "wp (r_set R k v ttl) (\<lambda>_ s'. \<exists>a. log s' = log s @ [(CSet k v ttl, a)]) (\<lambda>_ s'. \<exists>a. log s' = log s @ [(CSet k v ttl, a)]) s"
    and get_logged: "wp (r_get R k) (\<lambda>v s'. log s' = log s @ [(CGet k, Some (AValue v))])
      (\<lambda>_ s'. \<exists>a. (\<forall>v. a \<noteq> Some (AValue v)) \<and> log s' = log s @ [(CGet k, a)]) s"
    and del_logged: "wp (r_del R k) (\<lambda>_ s'. \<exists>a. log s' = log s @ [(CDel k, a)]) (\<lambda>_ s'. \<exists>a. log s' = log s @ [(CDel k, a)]) s"
    and lpush_logged: "wp (r_lpush R q x) (\<lambda>_ s'. \<exists>a. log s' = log s @ [(CPush q x, a)]) (\<lambda>_ s'. \<exists>a. log s' = log s @ [(CPush q x, a)]) s"
    and brpop_logged: "wp (r_brpop R t q) (\<lambda>_ s'. \<exists>a. log s' = log s @ [(CPop t q, a)]) (\<lambda>_ s'. \<exists>a. log s' = log s @ [(CPop t q, a)]) s"
    and ping_logged: "wp (r_ping R) (\<lambda>_ s'. \<exists>a. log s' = log s @ [(CPing, a)]) (\<lambda>_ s'. \<exists>a. log s' = log s @ [(CPing, a)]) s"

interpretation scripted: logged_redis scripted_redis x_log
  by unfold_locales (auto simp: wp_def scripted_redis_def ask_def split: list.splits answer.splits)

text \<open>A store on such a client.\<close>

locale logged_store = logged_redis R log for R :: "'r redis" and log +
  fixes S :: "'r Store"
  assumes on_logged: "st_c S = R"
begin

text \<open>\<open>fine r\<close>: the operation has kept its word so far. \<open>owns r j\<close>: it may write the job \<open>j\<close> now.\<close>

definition fine :: "'r \<Rightarrow> bool" where
  "fine r \<longleftrightarrow> fair (log r)"

definition owns :: "'r \<Rightarrow> Job \<Rightarrow> bool" where
  "owns r j \<longleftrightarrow> (clean (log r) \<longrightarrow> writable (log r) j)"

definition has_read :: "'r \<Rightarrow> Job \<Rightarrow> bool" where
  "has_read r j \<longleftrightarrow> (clean (log r) \<longrightarrow> shown (j_JobID j) (log r))"

lemma fine_other [simp]:
  "log r' = log r @ [(CDel k, a)] \<Longrightarrow> fine r' = fine r" "log r' = log r @ [(CPush q x, a)] \<Longrightarrow> fine r' = fine r"
  "log r' = log r @ [(CPop t q, a)] \<Longrightarrow> fine r' = fine r" "log r' = log r @ [(CPing, a)] \<Longrightarrow> fine r' = fine r"
  "log r' = log r @ [(CGet k, a)] \<Longrightarrow> fine r' = fine r"
  by (simp_all add: fine_def)

lemma owns_other:
  "log r' = log r @ [(CDel k, a)] \<Longrightarrow> owns r' j = owns r j" "log r' = log r @ [(CPush q x, a)] \<Longrightarrow> owns r' j = owns r j"
  by (simp_all add: owns_def writable_def)

lemma has_read_other:
  "log r' = log r @ [(CDel k, a)] \<Longrightarrow> has_read r' j = has_read r j" "log r' = log r @ [(CPush q x, a)] \<Longrightarrow> has_read r' j = has_read r j"
  "log r' = log r @ [(CSet k v ttl, a)] \<Longrightarrow> has_read r' j = has_read r j"
  by (simp_all add: has_read_def)

text \<open>\<open>keeping r j r'\<close>: the operation keeps its word from \<open>r\<close> to \<open>r'\<close>, and its right to write \<open>j\<close>.\<close>

definition keeping :: "'r \<Rightarrow> Job \<Rightarrow> 'r \<Rightarrow> bool" where
  "keeping r j r' \<longleftrightarrow> fine r' \<and> owns r' j \<and> (has_read r j \<longrightarrow> has_read r' j)"

lemma Save_logged:
  assumes "fine r" and "owns r j"
  shows "wp (Save S j) (\<lambda>_. keeping r j) (\<lambda>_. keeping r j) r"
proof -
  have job: "keeping r j r1" if "log r1 = log r @ [(CSet (keyJob @ j_JobID j) (RJson (job_json j)) ttl, a)]" for r1 ttl a
    using assms that by (auto simp: keeping_def fine_def owns_def writable_def has_read_other learn_def split: option.splits)
  have state: "keeping r j r2"
    if "keeping r j r1" "log r2 = log r1 @ [(CSet (keyState @ st) v ttl, a)]" for r1 r2 st v ttl a
    using that by (auto simp: keeping_def fine_def owns_def writable_def has_read_other learn_def)
  show ?thesis
    unfolding Save_def on_logged wp_rules
  proof (rule wp_mono [OF set_logged], goal_cases)
    case (1 x r1)
    with job have r1: "keeping r j r1" by blast
    then show ?case by (auto simp: wp_rules intro!: wp_mono [OF set_logged] dest: state [OF r1])
  qed (use job in blast)
qed

lemma Load_logged:
  assumes "fine r"
  shows "wp (Load S i) (\<lambda>j r'. fine r' \<and> owns r' j \<and> has_read r' j) (\<lambda>_. fine) r"
proof -
  have "fine r' \<and> owns r' j \<and> has_read r' j"
    if "log r' = log r @ [(CGet (keyJob @ i), Some (AValue (Some v)))]" "unmarshal_job v = Inr j" for r' v j
  proof -
    have j: "job_at i (keyJob @ i) v = Some j" using that(2) by (simp add: job_at_self)
    then have "clean (log r') \<Longrightarrow> j_JobID j = i \<and> job_ok j" unfolding that(1) clean_simps sound_answer.simps by blast
    moreover have "known i (log r') = Some (j_State j)" using that by (simp add: learn_def job_at_self)
    moreover have "shown i (log r')" using that j by simp
    ultimately show ?thesis using assms that(1) by (auto simp: owns_def writable_def has_read_def)
  qed
  then show ?thesis
    unfolding Load_def on_logged wp_rules
    by (intro wp_mono [OF get_logged]) (use assms in \<open>auto simp: wp_rules split: option.splits sum.splits\<close>)
qed

lemma Load_fails: "wp (Load S i) (\<lambda>_ _. True) (\<lambda>_ r'. owns r j \<longrightarrow> owns r' j) r"
proof -
  have same: "owns r' j" if "owns r j" "log r' = log r @ [(CGet k, a)]" "learned (j_JobID j) (CGet k, a) = None" for r' k a
    using that by (auto simp: owns_def writable_def learn_def)
  show ?thesis
    unfolding Load_def on_logged wp_rules
  proof (rule wp_mono [OF get_logged], goal_cases)
    case (1 v r')
    then show ?case
      by (cases v) (auto simp: wp_rules job_at_def split: sum.splits intro: same [OF _ 1])
  next
    case (2 e r')
    then obtain a where a: "\<forall>v. a \<noteq> Some (AValue v)" "log r' = log r @ [(CGet (keyJob @ i), a)]" by blast
    from same [OF _ a(2)] learned_no_value [OF a(1), of "j_JobID j" "keyJob @ i"] show ?case by simp
  qed
qed

lemma LoadByState_logged:
  assumes "fine r"
  shows "wp (LoadByState S st) (\<lambda>j r'. fine r' \<and> owns r' j \<and> has_read r' j) (\<lambda>_. fine) r"
  unfolding LoadByState_def on_logged wp_rules
  by (rule wp_mono [OF get_logged]) (use assms in \<open>auto simp: wp_rules split: option.splits intro!: wp_mono [OF Load_logged]\<close>)

lemma ClearState_logged: "fine r \<Longrightarrow> owns r j \<Longrightarrow> wp (ClearState S st) (\<lambda>_. keeping r j) (\<lambda>_ _. False) r"
  unfolding ClearState_def on_logged by (auto simp: wp_rules keeping_def owns_other has_read_other intro!: wp_mono [OF del_logged])

lemma Delete_logged: "fine r \<Longrightarrow> wp (Delete S j) (\<lambda>_. fine) (\<lambda>_. fine) r"
proof -
  assume "fine r"
  have del: "wp (r_del R k) (\<lambda>_. fine) (\<lambda>_. fine) r1" if "fine r1" for k r1
    by (rule wp_mono [OF del_logged]) (use that in auto)
  from \<open>fine r\<close> show ?thesis unfolding Delete_def on_logged by (auto simp: wp_rules intro!: del wp_mono [OF del])
qed

lemma EnqueueWork_logged: "fine r \<Longrightarrow> owns r j \<Longrightarrow> wp (EnqueueWork S i) (\<lambda>_. keeping r j) (\<lambda>_. keeping r j) r"
  unfolding EnqueueWork_def on_logged by (rule wp_mono [OF lpush_logged]) (auto simp: keeping_def owns_other has_read_other)

lemma DequeueWork_logged: "fine r \<Longrightarrow> wp (DequeueWork S t) (\<lambda>_. fine) (\<lambda>_. fine) r"
  unfolding DequeueWork_def on_logged wp_bindE by (rule wp_mono [OF brpop_logged]) (auto simp: wp_rules split: option.splits)

lemma Ping_logged: "fine r \<Longrightarrow> wp (Ping S) (\<lambda>_. fine) (\<lambda>_. fine) r"
  unfolding Ping_def on_logged wp_rules by (rule wp_mono [OF ping_logged]) auto

end

interpretation scripted_store: logged_store scripted_redis x_log "New scripted_redis ttl" for ttl
  by unfold_locales (simp add: New_def)

section \<open>Every history is in order\<close>

lemma part_simps [simp]: "part t [] = []" "part t (h @ h') = part t h @ part t h'"
  "part t [Cmd t' c a] = (if t' = t then [(c, Some a)] else [])" "part t [Expire k] = []"
  by (simp_all add: part_def)

lemma part_Cons: "part t (e # h) = part_of t e @ part t h"
  by (simp add: part_def)

lemma play_part: "t \<notin> set ts \<Longrightarrow> part t (map fst (play R body h ts m)) = []"
proof (induction R body h ts m rule: play.induct)
  case (2 R body h t' ts m)
  then show ?case by (cases "next_command (body t') (part t' h)") (auto simp: part_Cons split: prod.split)
qed simp

text \<open>What an operation issued in a history, given what it was answered before.\<close>

lemma follows_sound:
  assumes "follows body (p @ (c, Some a) # p')" and "\<And>as. fair (x_log (body \<lparr>x_answers = as, x_log = []\<rparr>))" and "clean p"
  shows "sound_command p c"
proof -
  let ?q = "p @ (c, Some a) # p'"
  define L where "L = x_log (body \<lparr>x_answers = map (the \<circ> snd) ?q, x_log = []\<rparr>)"
  have L: "take (length ?q) L = ?q" using assms(1) by (simp only: follows_def L_def)
  have "L = p @ (c, Some a) # p' @ drop (length ?q) L"
    using append_take_drop_id [of "length ?q" L] unfolding L by simp
  then obtain r where r: "L = p @ (c, Some a) # r" by blast
  have "fair L" unfolding L_def by (rule assms(2))
  then have "clean (take (length p) L) \<longrightarrow> sound_command (take (length p) L) (fst (L ! length p))"
    unfolding fair_def by (rule allE [of _ "length p"]) (simp add: r)
  with assms(3) show ?thesis by (simp add: r)
qed

context redis_server
begin

lemma exec_content:
  assumes "exec R c m = (a, m')"
  shows "case c of CSet k v ttl \<Rightarrow> content m' = content m \<or> content m' = (content m)(k \<mapsto> v)
    | CDel k \<Rightarrow> content m' = content m \<or> content m' = (content m)(k := None)
    | CGet k \<Rightarrow> content m' = content m \<and> (\<forall>v. a = AValue v \<longrightarrow> v = content m k)
    | _ \<Rightarrow> content m' = content m"
proof (cases c)
  case (CSet k v ttl)
  with assms set_law [of k v ttl m] show ?thesis by (auto simp: answered_as_def wp_def split: prod.splits sum.splits)
next
  case (CGet k)
  with assms get_law [of k m] show ?thesis by (auto simp: answered_as_def wp_def split: prod.splits sum.splits)
next
  case (CDel k)
  with assms del_law [of k m] show ?thesis by (auto simp: answered_as_def wp_def split: prod.splits sum.splits)
next
  case (CPush q x)
  with assms lpush_law [of q x m] show ?thesis by (auto simp: answered_as_def wp_def split: prod.splits sum.splits)
next
  case (CPop t q)
  with assms brpop_law [of t q m] show ?thesis by (auto simp: answered_as_def wp_def split: prod.splits sum.splits)
next
  case CPing
  with assms ping_law [of m] show ?thesis by (auto simp: answered_as_def wp_def split: prod.splits sum.splits)
qed

text \<open>A sound command on a store in order leaves it in order, and its answer is sound.\<close>

lemma exec_sound:
  assumes "exec R c m = (a, m')" and "store_ok (jobsR m)" and "sound_command es c"
  shows "store_ok (jobsR m') \<and> sound_answer (c, Some a)"
proof (cases c)
  case (CSet k v ttl)
  have e: "content m' = content m \<or> content m' = (content m)(k \<mapsto> v)" using exec_content [OF assms(1)] by (simp add: CSet)
  show ?thesis
  proof (cases "\<exists>i. k = keyJob @ i")
    case True
    with assms(3) obtain i j where k: "k = keyJob @ i" "v = RJson (job_json j)" "j_JobID j = i" "job_ok j" by (auto simp: CSet writable_def)
    with e have "jobsR m' = jobsR m \<or> jobsR m' = (jobsR m)(j_JobID j \<mapsto> j)" by (auto dest: jobs_in_set_job jobs_in_cong)
    with assms(2) k(4) show ?thesis by (auto simp: CSet intro: store_ok_upd)
  next
    case False
    with e have "jobsR m' = jobsR m" by (auto simp: jobs_in_def fun_eq_iff)
    with assms(2) show ?thesis by (simp add: CSet)
  qed
next
  case (CGet k)
  have e: "content m' = content m" "\<And>v. a = AValue v \<Longrightarrow> v = content m k" using exec_content [OF assms(1)] by (auto simp: CGet)
  have "sound_answer (c, Some a)" unfolding CGet
  proof (cases "\<exists>v. a = AValue (Some v)")
    case True
    then obtain v where v: "a = AValue (Some v)" by blast
    have "job_at i k v = Some j \<Longrightarrow> jobsR m i = Some j" for i j
      using e(2) [OF v, symmetric] by (auto simp: job_at_def jobs_in_def split: if_splits option.splits sum.splits)
    with assms(2) show "sound_answer (CGet k, Some a)" by (auto simp: v store_ok_def)
  next
    case False
    then show "sound_answer (CGet k, Some a)" by (rule no_job_answer(2))
  qed
  with assms(2) jobs_in_cong [of content, OF e(1)] show ?thesis by simp
next
  case (CDel k)
  have "content m' = content m \<or> content m' = (content m)(k := None)" using exec_content [OF assms(1)] by (simp add: CDel)
  then have "jobsR m' = jobsR m \<or> (\<exists>i. jobsR m' = (jobsR m)(i := None))"
    using jobs_in_expire [of content m' m k] jobs_in_cong [of content m' m] by blast
  with assms(2) show ?thesis by (auto simp: CDel intro: store_ok_del(1))
qed (use exec_content [OF assms(1)] jobs_in_cong [of content m' m] assms(2) in simp_all)

lemma happens_expire:
  assumes "happens R content m (Expire k) m'"
  shows "jobsR m' i = (if k = keyJob @ i then None else jobsR m i)"
  using assms by (elim happensE) (rule jobs_in_without)

text \<open>A command of a history, given what its operation was answered before, is sound.\<close>

lemma history_sound:
  assumes "history R content m h1 m1" and "\<And>t. follows (body t) (part t (h1 @ h2))"
    and "\<And>t as. fair (x_log (body t \<lparr>x_answers = as, x_log = []\<rparr>))" and "store_ok (jobsR m)"
  shows "store_ok (jobsR m1) \<and> (\<forall>t. clean (part t h1))"
  using assms(1,2)
proof (induction arbitrary: h2)
  case start
  with assms(4) show ?case by simp
next
  case (step h m1 e m2)
  have IH: "store_ok (jobsR m1)" "clean (part t' h)" for t'
    using step.IH [of "e # h2"] step.prems by auto
  show ?case
  proof (cases e)
    case e: (Cmd t c a)
    have "follows (body t) (part t h @ (c, Some a) # part t h2)" using step.prems [of t] by (simp add: part_Cons e)
    then have "sound_command (part t h) c" using assms(3) IH(2) by (rule follows_sound)
    with exec_sound [of c m1 a m2] IH step.hyps(2) show ?thesis by (auto simp: e elim: happensE)
  next
    case e: (Expire k)
    from happens_expire [OF step.hyps(2) [unfolded e]] IH show ?thesis by (simp add: e store_ok_def)
  qed
qed

text \<open>
  In a history without conflicts, whoever's view of a job is undisturbed knows how far the stored job
  can be: not beyond what he saw; if he saw nothing, there is none, and if he read it, there is one.
\<close>

definition view_holds :: "(string \<Rightarrow> bool) \<Rightarrow> event list \<Rightarrow> 'r \<Rightarrow> nat \<Rightarrow> string \<Rightarrow> bool" where
  "view_holds old h m t i \<longleftrightarrow> disturbed old t i h \<or> (shown i (part t h) \<longrightarrow> jobsR m i \<noteq> None) \<and>
     (case known i (part t h) of None \<Rightarrow> jobsR m i = None | Some a \<Rightarrow> (case jobsR m i of None \<Rightarrow> True | Some j \<Rightarrow> moves (j_State j) a))"

text \<open>What a command does to one job.\<close>

lemma exec_job:
  assumes "exec R c m = (a, m')" and "sound_command es c"
  shows "jobsR m' i = jobsR m i \<or> removes i c \<and> jobsR m' i = None \<or>
    (\<exists>j. writes i c \<and> learned i (c, Some a) = Some (j_State j) \<and> jobsR m' i = Some j \<and> j_JobID j = i \<and> writable es j)"
proof (cases "\<exists>k v ttl. c = CSet k v ttl")
  case True
  then obtain k v ttl where c: "c = CSet k v ttl" by blast
  then have e: "content m' = content m \<or> content m' = (content m)(k \<mapsto> v)" using exec_content [OF assms(1)] by simp
  show ?thesis
  proof (cases "k = keyJob @ i")
    case True
    with assms(2) c obtain j where j: "v = RJson (job_json j)" "j_JobID j = i" "writable es j" by auto
    with e True have "jobsR m' i = jobsR m i \<or> jobsR m' i = Some j" by (auto simp: jobs_in_def)
    with j True c show ?thesis by auto
  next
    case False
    with e show ?thesis by (auto simp: jobs_in_def)
  qed
next
  case False
  then have "content m' = content m \<or> (\<exists>k. c = CDel k \<and> content m' = (content m)(k := None))"
    using exec_content [OF assms(1)] by (cases c) auto
  then show ?thesis using jobs_in_cong [of content m' m] jobs_in_without [of content m' m _ i] by (auto split: if_splits)
qed

text \<open>What an operation learned, or was shown, of a job by a command of its own.\<close>

lemma exec_learned:
  assumes x: "exec R c m = (a, m')" and sound: "sound_command es c" and l: "learned i (c, Some a) = Some b"
  shows "(\<exists>j. jobsR m' i = Some j \<and> j_State j = b) \<or>
    (\<exists>j. writes i c \<and> jobsR m' i = jobsR m i \<and> \<not> shows_job i (c, Some a) \<and> j_JobID j = i \<and> j_State j = b \<and> writable es j)"
proof (cases "\<exists>k. c = CGet k")
  case True
  then obtain k where c: "c = CGet k" by blast
  with l obtain v where v: "a = AValue (Some v)" "map_option j_State (job_at i k v) = Some b"
    using no_job_answer(1) [of a i k] by (cases "\<exists>v. a = AValue (Some v)") auto
  have "content m' = content m" "content m k = Some v" using exec_content [OF x] by (auto simp: c v)
  with v(2) show ?thesis by (auto simp: job_at_def jobs_in_def split: if_splits option.splits sum.splits)
next
  case False
  with l obtain k v ttl where c: "c = CSet k v ttl" by (cases c) auto
  with l have k: "k = keyJob @ i" by (auto simp: job_at_def split: if_splits)
  with sound c obtain j where j: "v = RJson (job_json j)" "j_JobID j = i" "writable es j" by auto
  with l c k have "j_State j = b" by simp
  moreover have "jobsR m' i = jobsR m i \<or> jobsR m' i = Some j"
    using exec_content [OF x] by (auto simp: c k j jobs_in_def)
  ultimately show ?thesis using j by (auto simp: c k)
qed

lemma shows_learned: "shows_job i e \<Longrightarrow> \<exists>b. learned i e = Some b"
  by (induction i e rule: shows_job.induct) auto

lemma writes_learned: "writes i c \<Longrightarrow> sound_command es c \<Longrightarrow> \<exists>b. learned i (c, a) = Some b"
  by (cases c) auto

lemma exec_view:
  assumes x: "exec R c m = (a, m')" and sound: "sound_command (part t h) c"
    and free: "\<And>i. writes i c \<Longrightarrow> \<not> disturbed old t i h" and view: "\<And>t' i. view_holds old h m t' i"
  shows "view_holds old (h @ [Cmd t c a]) m' t' i"
proof (cases "t' = t")
  case False
  with exec_job [OF x sound, of i] view [of t' i] show ?thesis
    by (auto simp: view_holds_def split: option.splits)
next
  case [simp]: True
  show ?thesis
  proof (cases "learned i (c, Some a)")
    case None
    then have "\<not> shows_job i (c, Some a)" "\<not> writes i c"
      using shows_learned [of i "(c, Some a)"] writes_learned [OF _ sound, of i "Some a"] by auto
    with None exec_job [OF x sound, of i] view [of t i] show ?thesis
      by (auto simp: view_holds_def learn_def split: option.splits)
  next
    case (Some b)
    from exec_learned [OF x sound Some] show ?thesis
    proof (elim disjE exE conjE)
      fix j assume "jobsR m' i = Some j" "j_State j = b"
      with Some show ?thesis by (auto simp: view_holds_def learn_def)
    next
      fix j assume j: "writes i c" "jobsR m' i = jobsR m i" "\<not> shows_job i (c, Some a)" "j_JobID j = i" "j_State j = b" "writable (part t h) j"
      with free view [of t i] have "shown i (part t h) \<longrightarrow> jobsR m i \<noteq> None"
        "case known i (part t h) of None \<Rightarrow> jobsR m i = None | Some a \<Rightarrow> (case jobsR m i of None \<Rightarrow> True | Some j \<Rightarrow> moves (j_State j) a)"
        by (auto simp: view_holds_def)
      with j Some show ?thesis
        by (auto simp: view_holds_def learn_def writable_def intro: moves_trans split: option.splits)
    qed
  qed
qed

lemma exec_moved:
  assumes x: "exec R c m = (a, m')" and sound: "sound_command (part t h) c"
    and free: "\<And>i. writes i c \<Longrightarrow> \<not> disturbed old t i h" and view: "\<And>i. view_holds old h m t i"
  shows "moved (jobsR m) (jobsR m')"
  unfolding moved_def
proof
  fix i
  from exec_job [OF x sound, of i] show "life (visible (jobsR m) i) (visible (jobsR m') i)"
  proof (elim disjE exE conjE)
    fix j assume j: "writes i c" "jobsR m' i = Some j" "j_JobID j = i" "writable (part t h) j"
    with free view [of i] show ?thesis
      by (cases "jobsR m i") (auto simp: view_holds_def visible_def writable_def intro: moves_trans split: option.splits)
  qed (simp_all add: visible_def)
qed

lemma happens_one: "happens R content m e m' \<Longrightarrow> \<exists>i. at_most i (jobsR m) (jobsR m')"
proof -
  assume "happens R content m e m'"
  then obtain k v where "content m' = content m \<or> content m' = (content m)(k := v)"
  proof cases
    case (cmd c a t)
    from exec_content [OF cmd(2)] that show ?thesis by (cases c) (auto simp del: fun_upd_apply)
  qed blast
  then have "k \<noteq> keyJob @ i \<Longrightarrow> jobsR m' i = jobsR m i" for i by (auto simp: jobs_in_def)
  then show ?thesis unfolding at_most_def by (metis job_key_inj)
qed

lemma history_views:
  assumes "history R content m h1 m1" and "\<And>t. follows (body t) (part t (h1 @ h2))"
    and "\<And>t as. fair (x_log (body t \<lparr>x_answers = as, x_log = []\<rparr>))" and ok: "store_ok (jobsR m)" and "conflict_free (\<lambda>i. jobsR m i \<noteq> None) (h1 @ h2)"
  shows "\<forall>t i. view_holds (\<lambda>i. jobsR m i \<noteq> None) h1 m1 t i"
  using assms(1,2,5)
proof (induction arbitrary: h2)
  case start
  show ?case by (auto simp: view_holds_def)
next
  case (step h m1 e m2)
  have IH: "view_holds (\<lambda>i. jobsR m i \<noteq> None) h m1 t' i" for t' i
    using step.IH [of "e # h2"] step.prems by auto
  have "view_holds (\<lambda>i. jobsR m i \<noteq> None) (h @ [e]) m2 t i" for t i
  proof (cases e)
    case e: (Cmd t' c a)
    have "clean (part t' h)"
      using history_sound [OF step.hyps(1), of body "e # h2"] step.prems(1) assms(3) ok by simp
    moreover have "follows (body t') (part t' h @ (c, Some a) # part t' h2)" using step.prems(1) [of t'] by (simp add: part_Cons e)
    ultimately have sound: "sound_command (part t' h) c" using assms(3) by (intro follows_sound)
    have free: "writes i c \<Longrightarrow> \<not> disturbed (\<lambda>i. jobsR m i \<noteq> None) t' i h" for i using step.prems(2) by (auto simp: e dest: conflict_freeD)
    from step.hyps(2) show ?thesis unfolding e by (elim happensE) (rule exec_view [OF _ sound free IH])
  next
    case e: (Expire k)
    from happens_expire [OF step.hyps(2) [unfolded e], of i] IH [of t i] show ?thesis
      by (auto simp: view_holds_def e split: option.splits if_splits)
  qed
  then show ?case by blast
qed

text \<open>Each event of a history without conflicts is a step of the abstract signer.\<close>

lemma history_lifecycle:
  assumes h: "history R content m h1 m1" and e: "happens R content m1 e m2" and body: "\<And>t. follows (body t) (part t (h1 @ e # h2))"
    and fair: "\<And>t as. fair (x_log (body t \<lparr>x_answers = as, x_log = []\<rparr>))" and ok: "store_ok (jobsR m)" and free: "conflict_free (\<lambda>i. jobsR m i \<noteq> None) (h1 @ e # h2)"
  shows "visible_step (visible (jobsR m1)) (visible (jobsR m2))"
proof -
  have "moved (jobsR m1) (jobsR m2)"
  proof (cases e)
    case [simp]: (Cmd t c a)
    have "clean (part t h1)"
      using history_sound [OF h, of body "e # h2"] body fair ok by simp
    moreover have "follows (body t) (part t h1 @ (c, Some a) # part t h2)" using body [of t] by (simp add: part_Cons)
    ultimately have sound: "sound_command (part t h1) c" using fair by (intro follows_sound)
    have "writes i c \<Longrightarrow> \<not> disturbed (\<lambda>i. jobsR m i \<noteq> None) t i h1" for i using free by (auto dest: conflict_freeD)
    with e history_views [OF h body fair ok free] show ?thesis by (auto elim!: happensE intro!: exec_moved [OF _ sound])
  next
    case [simp]: (Expire k)
    from happens_expire [of m1 k m2] e show ?thesis by (simp add: moved_def visible_def)
  qed
  with happens_one [OF e] show ?thesis by (blast intro: kept_visible)
qed

end

end
