(* ===== verification/Settings.thy ===== *)
theory Settings
  imports Entrust Authcert
begin

text \<open>
  \<^verbatim>\<open>config.go\<close>: the configuration, how its values are found (an environment variable, else a
  secret, else a default), its validation, and what is derived from it for the other components.

  The platform's own settings are outside the repository: of them the record has the fields this
  service reads. The conversions from text to a number, a truth value and a duration, the rule
  \<open>url\<close> of the validator and the validation of the embedded parts are parameters, fields of
  \<open>conf_env\<close>. Durations are nanoseconds. \<open>url_parse\<close> is the path that \<^verbatim>\<open>url.Parse\<close> finds;
  of the host part, an address in brackets is not read further, so that it is taken for well-formed.
\<close>

section \<open>The configuration\<close>

record AuthConfig =
  au_IssuerURL :: string
  au_Audience :: string
  au_ServiceClientID :: string
  au_ServiceClientSecret :: string

record Configuration =
  g_ServiceName :: string
  g_BrokerURL :: "string option"  \<comment> \<open>\<open>None\<close>: no broker settings\<close>
  g_Auth :: AuthConfig
  g_UploadHardening :: bool
  g_MaxUploadBytes :: int
  g_RedisURL :: string
  g_JobTTL :: int
  g_SignAPIBaseURL :: string
  g_SignAPIFirstAttempt :: int
  g_SignAPICallLimit :: int
  g_TXBaseURL :: string
  g_TXASPath :: string
  g_TXClientID :: string
  g_TXClientSecret :: string
  g_TXRedirectURI :: string
  g_TXACRMobile :: string
  g_TXACREIDScan :: string
  g_TXACRCloudEseal :: string
  g_CSCBaseURL :: string
  g_CSCClientID :: string
  g_CSCClientSecret :: string
  g_CSCAuthCert :: string
  g_TSAAccessCert :: string
  g_TSAAccessCertFlows :: string
  g_LegacyEIDEnabled :: bool
  g_IdentityFetchRetries :: int
  g_IdentityFetchDelay :: int
  g_EIDScanPollInterval :: int
  g_EIDScanDeadline :: int
  g_DefaultSignatureQualifier :: string
  g_EIDASAuditTopic :: string
  g_EidasAuditOutboxDir :: string
  g_AccessAuditURL :: string
  g_AccessAuditAudience :: string
  g_AccessAuditScope :: string
  g_AccessAuditOutboxDir :: string
  g_AuditClientID :: string
  g_AuditClientSecret :: string
  g_AuditIssuerURL :: string
  g_PseudonymKey :: string

section \<open>Binding\<close>

text \<open>
  \<open>ce_env\<close> is the environment (a variable set to the empty text counts as unset), \<open>ce_secret\<close>
  is \<^verbatim>\<open>LoadRemoteSecret\<close>, the other fields are the conversions and the validator's rules.
\<close>

record conf_env =
  ce_env :: "string \<Rightarrow> string option"
  ce_secret :: "string \<Rightarrow> err + string"
  ce_int :: "string \<Rightarrow> int"
  ce_bool :: "string \<Rightarrow> bool"
  ce_duration :: "string \<Rightarrow> int"
  ce_is_url :: "string \<Rightarrow> bool"
  ce_base_error :: "err option"
  ce_auth_error :: "AuthConfig \<Rightarrow> err option"
  ce_invalid :: "Configuration \<Rightarrow> err"

definition env_value :: "conf_env \<Rightarrow> string \<Rightarrow> string option" where
  "env_value v name = (case ce_env v name of None \<Rightarrow> None | Some t \<Rightarrow> if t = [] then None else Some t)"

definition bind_text :: "conf_env \<Rightarrow> string \<Rightarrow> string \<Rightarrow> string" where
  "bind_text v name dflt = (case env_value v name of None \<Rightarrow> dflt | Some t \<Rightarrow> t)"

definition bind_as :: "(string \<Rightarrow> 'a) \<Rightarrow> conf_env \<Rightarrow> string \<Rightarrow> 'a \<Rightarrow> 'a" where
  "bind_as conv v name dflt = (case env_value v name of None \<Rightarrow> dflt | Some t \<Rightarrow> conv t)"

text \<open>The default that \<open>loadSecret\<close> registers: the secret, when there is one.\<close>

definition loadSecret :: "conf_env \<Rightarrow> string \<Rightarrow> string" where
  "loadSecret v name = (case ce_secret v name of Inl e \<Rightarrow> [] | Inr secret \<Rightarrow> secret)"

definition Bind :: "conf_env \<Rightarrow> string \<Rightarrow> string option \<Rightarrow> AuthConfig \<Rightarrow> Configuration" where
  "Bind v serviceName brokerURL auth = \<lparr>
     g_ServiceName = serviceName, g_BrokerURL = brokerURL, g_Auth = auth,
     g_UploadHardening = bind_as (ce_bool v) v ''UPLOAD_HARDENING'' True,
     g_MaxUploadBytes = bind_as (ce_int v) v ''MAX_UPLOAD_BYTES'' (25 * 1024 * 1024),
     g_RedisURL = bind_text v ''REDIS_URL'' [],
     g_JobTTL = bind_as (ce_duration v) v ''JOB_TTL'' (secs 3600),
     g_SignAPIBaseURL = bind_text v ''SIGNAPI_BASE_URL'' [],
     g_SignAPIFirstAttempt = bind_as (ce_duration v) v ''SIGNAPI_FIRST_ATTEMPT_TIMEOUT'' DefaultFirstAttempt,
     g_SignAPICallLimit = bind_as (ce_duration v) v ''SIGNAPI_CALL_TIMEOUT'' DefaultCallLimit,
     g_TXBaseURL = bind_text v ''TX_BASE_URL'' [],
     g_TXASPath = bind_text v ''TX_AS_PATH'' ''/trustedx-authserver/oauth/lvrtc-eipsign-as'',
     g_TXClientID = bind_text v ''EPARAKSTS_CLIENT_ID'' [],
     g_TXClientSecret = bind_text v ''EPARAKSTS_CLIENT_SECRET'' (loadSecret v ''EPARAKSTS_CLIENT_SECRET''),
     g_TXRedirectURI = bind_text v ''TX_REDIRECT_URI'' [],
     g_TXACRMobile = bind_text v ''TX_ACR_MOBILE'' ''urn:eparaksts:authentication:flow:mobileid'',
     g_TXACREIDScan = bind_text v ''TX_ACR_EIDSCAN'' ''urn:eparaksts:authentication:flow:mobile-eid'',
     g_TXACRCloudEseal = bind_text v ''TX_ACR_CLOUDESEAL'' ''urn:eparaksts:authentication:flow:mobileid'',
     g_CSCBaseURL = bind_text v ''CSC_BASE_URL'' [],
     g_CSCClientID = bind_text v ''CSC_CLIENT_ID'' [],
     g_CSCClientSecret = bind_text v ''CSC_CLIENT_SECRET'' (loadSecret v ''CSC_CLIENT_SECRET''),
     g_CSCAuthCert = bind_text v ''CSC_AUTH_CERT'' (loadSecret v ''CSC_AUTH_CERT''),
     g_TSAAccessCert = bind_text v ''TSA_ACCESS_CERT'' (loadSecret v ''TSA_ACCESS_CERT''),
     g_TSAAccessCertFlows = bind_text v ''TSA_ACCESS_CERT_FLOWS'' DefaultTSAAccessCertFlows,
     g_LegacyEIDEnabled = bind_as (ce_bool v) v ''LEGACY_EID_ENABLED'' False,
     g_IdentityFetchRetries = bind_as (ce_int v) v ''TX_IDENTITY_FETCH_RETRIES'' 5,
     g_IdentityFetchDelay = bind_as (ce_duration v) v ''TX_IDENTITY_FETCH_DELAY'' (secs 2),
     g_EIDScanPollInterval = bind_as (ce_duration v) v ''EIDSCAN_POLL_INTERVAL'' (secs 2),
     g_EIDScanDeadline = bind_as (ce_duration v) v ''EIDSCAN_SIGN_DEADLINE'' (secs 120),
     g_DefaultSignatureQualifier = bind_text v ''DEFAULT_SIGNATURE_QUALIFIER'' ''eu_eidas_qes'',
     g_EIDASAuditTopic = bind_text v ''EIDAS_AUDIT_TOPIC'' ''audit.signing'',
     g_EidasAuditOutboxDir = bind_text v ''EIDAS_AUDIT_OUTBOX_DIR'' [],
     g_AccessAuditURL = bind_text v ''ACCESS_AUDIT_URL'' [],
     g_AccessAuditAudience = bind_text v ''ACCESS_AUDIT_AUDIENCE'' ''svc:access-audit'',
     g_AccessAuditScope = bind_text v ''ACCESS_AUDIT_SCOPE'' ''access-audit:write'',
     g_AccessAuditOutboxDir = bind_text v ''ACCESS_AUDIT_OUTBOX_DIR'' [],
     g_AuditClientID = bind_text v ''AUDIT_CLIENT_ID'' ''svc:eparaksts-signer'',
     g_AuditClientSecret = bind_text v ''AUDIT_CLIENT_SECRET'' (loadSecret v ''AUDIT_CLIENT_SECRET''),
     g_AuditIssuerURL = bind_text v ''AUDIT_ISSUER_URL'' [],
     g_PseudonymKey = bind_text v ''AUDIT_SUBJECT_PSEUDONYM_KEY'' (loadSecret v ''AUDIT_SUBJECT_PSEUDONYM_KEY'')\<rparr>"

section \<open>Validation\<close>

text \<open>The rules of the struct's tags.\<close>

definition optional_url :: "conf_env \<Rightarrow> string \<Rightarrow> bool" where
  "optional_url v t \<longleftrightarrow> t = [] \<or> ce_is_url v t"

definition valid_struct :: "conf_env \<Rightarrow> Configuration \<Rightarrow> bool" where
  "valid_struct v c \<longleftrightarrow>
     0 < g_MaxUploadBytes c \<and> g_RedisURL c \<noteq> [] \<and> ce_is_url v (g_RedisURL c) \<and> 0 < g_JobTTL c \<and>
     optional_url v (g_SignAPIBaseURL c) \<and> 0 < g_SignAPIFirstAttempt c \<and> 0 < g_SignAPICallLimit c \<and>
     optional_url v (g_TXBaseURL c) \<and> optional_url v (g_TXRedirectURI c) \<and> optional_url v (g_CSCBaseURL c) \<and>
     optional_url v (g_AccessAuditURL c) \<and> optional_url v (g_AuditIssuerURL c)"

definition conf_Validate :: "conf_env \<Rightarrow> Configuration \<Rightarrow> err option" where
  "conf_Validate v c =
     (case ce_base_error v of Some e \<Rightarrow> Some e
      | None \<Rightarrow>
          (case ce_auth_error v (g_Auth c) of Some e \<Rightarrow> Some e
           | None \<Rightarrow>
               let d = trim_space (g_EidasAuditOutboxDir c) in
               if d \<noteq> [] \<and> d = trim_space (g_AccessAuditOutboxDir c) then
                 Some (ErrOther (''eparaksts-signer: EIDAS_AUDIT_OUTBOX_DIR and ACCESS_AUDIT_OUTBOX_DIR must differ (both are ''
                   @ quoted d @ '')''))
               else if valid_struct v c then None else Some (ce_invalid v c)))"

definition AccessAuditEnabled :: "Configuration \<Rightarrow> bool" where
  "AccessAuditEnabled c \<longleftrightarrow> trim_space (g_AccessAuditURL c) \<noteq> []"

section \<open>The callback path\<close>

definition DefaultCallbackPath :: string where "DefaultCallbackPath = ''/api/v1/signatures/callback''"

definition is_letter :: "char \<Rightarrow> bool" where
  "is_letter c \<longleftrightarrow> (let n = (of_char c :: nat) in 65 \<le> n \<and> n \<le> 90 \<or> 97 \<le> n \<and> n \<le> 122)"

text \<open>\<open>getScheme\<close>: \<open>None\<close> is an error; the scheme is empty when there is none.\<close>

fun get_scheme :: "string \<Rightarrow> string \<Rightarrow> string \<Rightarrow> (string \<times> string) option" where
  "get_scheme whole acc [] = Some ([], whole)"
| "get_scheme whole acc (c # s) =
     (if is_letter c then get_scheme whole (acc @ [c]) s
      else if is_digit c \<or> c \<in> {CHR ''+'', CHR ''-'', CHR ''.''} then
        (if acc = [] then Some ([], whole) else get_scheme whole (acc @ [c]) s)
      else if c = CHR '':'' then (if acc = [] then None else Some (acc, s))
      else Some ([], whole))"

definition is_hex :: "char \<Rightarrow> bool" where
  "is_hex c \<longleftrightarrow> (let n = (of_char c :: nat) in 48 \<le> n \<and> n \<le> 57 \<or> 65 \<le> n \<and> n \<le> 70 \<or> 97 \<le> n \<and> n \<le> 102)"

definition unhex :: "char \<Rightarrow> nat" where
  "unhex c = (let n = (of_char c :: nat) in if n \<le> 57 then n - 48 else if n \<le> 70 then n - 55 else n - 87)"

fun path_unescape :: "string \<Rightarrow> string option" where
  "path_unescape [] = Some []"
| "path_unescape (c # s) =
     (if c = CHR ''%'' then
        (case s of a # b # t \<Rightarrow>
           if is_hex a \<and> is_hex b then map_option ((#) (char_of (unhex a * 16 + unhex b))) (path_unescape t) else None
         | _ \<Rightarrow> None)
      else map_option ((#) c) (path_unescape s))"

text \<open>
  The authority of a URL: optional user information up to the last at-sign, a host, an optional port.
  In a host an escape stands for a byte beyond ASCII or for the percent sign.
\<close>

definition host_char :: "char \<Rightarrow> bool" where
  "host_char c \<longleftrightarrow> unreserved c \<or> c \<in> set ''!$&'()*+,;=:[]<>'' \<or> c = CHR 0x22 \<or> (of_char c :: nat) \<ge> 128"

fun host_ok :: "string \<Rightarrow> bool" where
  "host_ok [] = True"
| "host_ok (c # s) =
     (if c = CHR ''%'' then
        (case s of a # b # t \<Rightarrow>
           is_hex a \<and> is_hex b \<and> (8 \<le> unhex a \<or> a = CHR ''2'' \<and> b = CHR ''5'') \<and> host_ok t
         | _ \<Rightarrow> False)
      else host_char c \<and> host_ok s)"

definition port_ok :: "string \<Rightarrow> bool" where
  "port_ok p \<longleftrightarrow> p = [] \<or> hd p = CHR '':'' \<and> list_all is_digit (tl p)"

definition user_ok :: "string \<Rightarrow> bool" where
  "user_ok u \<longleftrightarrow> list_all (\<lambda>c. unreserved c \<or> c \<in> set '':!$&'()*+,;=%@'') u \<and> path_unescape u \<noteq> None"

definition authority_ok :: "string \<Rightarrow> bool" where
  "authority_ok s =
     (let host = rev (takeWhile (\<lambda>c. c \<noteq> CHR ''@'') (rev s)); user = take (length s - length host - 1) s in
      (CHR ''['' \<in> set host \<or> port_ok (dropWhile (\<lambda>c. c \<noteq> CHR '':'') host) \<and> host_ok host) \<and> user_ok user)"

text \<open>The path of a URL, \<open>None\<close> when it does not parse.\<close>

definition url_parse :: "string \<Rightarrow> string option" where
  "url_parse t =
     (let u = takeWhile (\<lambda>c. c \<noteq> CHR ''#'') t; frag = drop (length u + 1) t in
      if path_unescape frag = None then None
      else if list_ex (\<lambda>c. (of_char c :: nat) < 32 \<or> (of_char c :: nat) = 127) u then None
      else
        case get_scheme u [] u of None \<Rightarrow> None
        | Some (scheme, rest) \<Rightarrow>
            let rest = takeWhile (\<lambda>c. c \<noteq> CHR ''?'') rest in
            if \<not> has_prefix rest ''/'' \<and> scheme \<noteq> [] then Some []
            else if \<not> has_prefix rest ''/'' \<and> CHR '':'' \<in> set (takeWhile (\<lambda>c. c \<noteq> CHR ''/'') rest) then None
            else if (scheme \<noteq> [] \<or> \<not> has_prefix rest ''///'') \<and> has_prefix rest ''//'' then
              (let authority = takeWhile (\<lambda>c. c \<noteq> CHR ''/'') (drop 2 rest) in
               if authority_ok authority then path_unescape (drop (length authority) (drop 2 rest)) else None)
            else path_unescape rest)"

definition CallbackPath :: "Configuration \<Rightarrow> string" where
  "CallbackPath c =
     (if trim_space (g_TXRedirectURI c) = [] then DefaultCallbackPath
      else (case url_parse (g_TXRedirectURI c) of None \<Rightarrow> DefaultCallbackPath
            | Some p \<Rightarrow> if p = [] then DefaultCallbackPath else p))"

section \<open>What the components are given\<close>

text \<open>\<open>EarlyRefresh\<close> is not set, so it has its zero value.\<close>

definition EntrustConfig_of :: "Configuration \<Rightarrow> EntrustConfig" where
  "EntrustConfig_of c = \<lparr>x_BaseURL = g_TXBaseURL c, x_ASPath = g_TXASPath c, x_ClientID = g_TXClientID c,
     x_ClientSecret = g_TXClientSecret c, x_RedirectURI = g_TXRedirectURI c, x_ACRMobile = g_TXACRMobile c,
     x_ACREIDScan = g_TXACREIDScan c, x_ACRCloudEseal = g_TXACRCloudEseal c, x_CSCBaseURL = g_CSCBaseURL c,
     x_CSCClientID = g_CSCClientID c, x_CSCClientSecret = g_CSCClientSecret c,
     x_IdentityFetchRetries = g_IdentityFetchRetries c, x_IdentityFetchDelay = g_IdentityFetchDelay c, x_EarlyRefresh = 0\<rparr>"

definition tsaAccessCert :: "Configuration \<Rightarrow> string" where
  "tsaAccessCert c =
     (let v = trim_space (g_TSAAccessCert c) in if v \<noteq> [] then v else trim_space (g_CSCAuthCert c))"

definition OrchestratorConfig :: "Configuration \<Rightarrow> Config" where
  "OrchestratorConfig c = \<lparr>cf_DefaultSignatureQualifier = g_DefaultSignatureQualifier c,
     cf_EIDScanPollInterval = g_EIDScanPollInterval c, cf_EIDScanDeadline = g_EIDScanDeadline c,
     cf_TSAAccessCert = tsaAccessCert c, cf_TSAAccessCertFlows = ParseFlowSet (g_TSAAccessCertFlows c),
     cf_LegacyEIDEnabled = g_LegacyEIDEnabled c\<rparr>"

definition UnknownTSAAccessCertFlows :: "Configuration \<Rightarrow> string list" where
  "UnknownTSAAccessCertFlows c = UnknownFlowNames (g_TSAAccessCertFlows c)"

definition UsesDeprecatedAuthCertSetting :: "Configuration \<Rightarrow> bool" where
  "UsesDeprecatedAuthCertSetting c \<longleftrightarrow> trim_space (g_TSAAccessCert c) = [] \<and> trim_space (g_CSCAuthCert c) \<noteq> []"

definition auditIssuer :: "Configuration \<Rightarrow> string" where
  "auditIssuer c = (let u = trim_space (g_AuditIssuerURL c) in if u \<noteq> [] then u else au_IssuerURL (g_Auth c))"

definition AuditAuthClientConfig :: "Configuration \<Rightarrow> AuthConfig" where
  "AuditAuthClientConfig c = (g_Auth c)\<lparr>au_IssuerURL := auditIssuer c, au_ServiceClientID := g_AuditClientID c,
     au_ServiceClientSecret := g_AuditClientSecret c\<rparr>"

text \<open>The timing fields of the access-audit client are the library's defaults.\<close>

record GDPRSettings =
  gd_Endpoint :: string
  gd_Audience :: string
  gd_Scope :: string

definition GDPRConfig :: "Configuration \<Rightarrow> GDPRSettings" where
  "GDPRConfig c = \<lparr>gd_Endpoint = g_AccessAuditURL c, gd_Audience = g_AccessAuditAudience c, gd_Scope = g_AccessAuditScope c\<rparr>"

definition PseudonymKeyBytes :: "Configuration \<Rightarrow> bytes" where
  "PseudonymKeyBytes c = string_bytes (g_PseudonymKey c)"

section \<open>Library\<close>

lemma unreserved_plain:
  "unreserved c \<Longrightarrow> c \<notin> {CHR ''#'', CHR ''?'', CHR ''%'', CHR ''/'', CHR ''@'', CHR '':''} \<and> 32 \<le> (of_char c :: nat) \<and> (of_char c :: nat) \<noteq> 127"
  by (auto simp: unreserved_def Let_def)

lemma is_letter_unreserved: "is_letter c \<Longrightarrow> unreserved c"
  by (auto simp: is_letter_def unreserved_def Let_def)

lemma get_scheme_letters:
  "list_all is_letter s \<Longrightarrow> acc @ s \<noteq> [] \<Longrightarrow> get_scheme w acc (s @ CHR '':'' # r) = Some (acc @ s, r)"
proof (induction s arbitrary: acc)
  case Nil
  then show ?case by (simp add: is_letter_def is_digit_def)
qed simp

lemma path_unescape_plain: "list_all (\<lambda>c. c \<noteq> CHR ''%'') s \<Longrightarrow> path_unescape s = Some s"
  by (induction s) auto

lemma host_ok_plain: "list_all unreserved s \<Longrightarrow> host_ok s"
  by (induction s) (auto simp: host_char_def dest: unreserved_plain)

lemma authority_ok_plain:
  assumes "list_all unreserved s"
  shows "authority_ok s"
proof -
  have no: "CHR ''@'' \<notin> set s" "CHR '':'' \<notin> set s" using assms unreserved_plain by (auto simp: list_all_iff)
  then have "takeWhile (\<lambda>c. c \<noteq> CHR ''@'') (rev s) = rev s" "dropWhile (\<lambda>c. c \<noteq> CHR '':'') s = []"
    by (auto simp: takeWhile_eq_all_conv dropWhile_eq_Nil_conv)
  with host_ok_plain [OF assms] show ?thesis
    by (simp add: authority_ok_def port_ok_def user_ok_def Let_def del: takeWhile_eq_all_conv dropWhile_eq_Nil_conv)
qed

lemma trim_space_letter: "is_letter a \<Longrightarrow> trim_space (a # s) \<noteq> []"
proof -
  assume "is_letter a"
  then have "\<not> is_space a" by (auto simp: is_letter_def is_space_def Let_def)
  then show ?thesis by (auto simp: trim_space_def dropWhile_eq_Nil_conv)
qed

text \<open>A deployment for the witnesses: its environment variables are a list.\<close>

definition demo_conf_env :: "(string \<times> string) list \<Rightarrow> conf_env" where
  "demo_conf_env vars = \<lparr>ce_env = map_of vars, ce_secret = (\<lambda>name. Inl (ErrOther ''no secret store'')),
     ce_int = (\<lambda>t. int (length t)), ce_bool = (\<lambda>t. t = ''true''), ce_duration = (\<lambda>t. secs (int (length t))),
     ce_is_url = (\<lambda>u. contains u ''://''), ce_base_error = None, ce_auth_error = (\<lambda>a. None),
     ce_invalid = (\<lambda>c. ErrOther ''invalid configuration'')\<rparr>"

definition demo_settings :: "(string \<times> string) list \<Rightarrow> Configuration" where
  "demo_settings vars = Bind (demo_conf_env vars) ''eparaksts-signer'' None
     \<lparr>au_IssuerURL = ''https://auth'', au_Audience = ''svc:eparaksts-signer'', au_ServiceClientID = [], au_ServiceClientSecret = []\<rparr>"

definition demo_vars :: "(string \<times> string) list" where
  "demo_vars = [(''REDIS_URL'', ''redis://r''), (''TX_REDIRECT_URI'', ''https://sign.example.lv/Sign/Complete''),
     (''ACCESS_AUDIT_URL'', ''https://access''), (''AUDIT_SUBJECT_PSEUDONYM_KEY'', ''key''),
     (''EIDAS_AUDIT_OUTBOX_DIR'', ''/spool/eidas''), (''ACCESS_AUDIT_OUTBOX_DIR'', ''/spool/access'')]"

section \<open>Properties\<close>

text \<open>
  C26: The settings decide with which certificate a timestamp is requested. A flow that the list in
  \<open>TSA_ACCESS_CERT_FLOWS\<close> names (or any flow, under the word "all") uses \<open>TSA_ACCESS_CERT\<close>, or, when
  that is blank, the deprecated \<open>CSC_AUTH_CERT\<close>, which is then reported; it is refused when both are
  blank, whatever the signer sent. Every other flow uses the signer's certificate, and the settings
  make no difference to it.
\<close>

theorem timestamp_cert_settings:
  "let fs = flow_entries (g_TSAAccessCertFlows c);
       own = (if trim_space (g_TSAAccessCert c) = [] then g_CSCAuthCert c else g_TSAAccessCert c) in
   authCertFor (OrchestratorConfig c) j =
     (if list_ex (\<lambda>n. equal_fold n allFlows) fs \<or> Valid (j_Flow j) \<and> j_Flow j \<in> set fs
      then (trim_space own, SourceDeployment, trim_space own \<noteq> [])
      else (trim_space (j_AuthCert j), SourceSigner, trim_space (j_AuthCert j) \<noteq> [])) \<and>
   (UsesDeprecatedAuthCertSetting c \<longleftrightarrow> trim_space own \<noteq> [] \<and> trim_space (g_TSAAccessCert c) = [])"
proof -
  let ?fs = "flow_entries (g_TSAAccessCertFlows c)"
  have "Has (ParseFlowSet (g_TSAAccessCertFlows c)) (j_Flow j) \<longleftrightarrow>
      list_ex (\<lambda>n. equal_fold n allFlows) ?fs \<or> Valid (j_Flow j) \<and> j_Flow j \<in> set ?fs"
    by (auto simp: Has_def ParseFlowSet_def fold_parse flow_entries_def list_ex_iff)
  then show ?thesis
    by (simp add: OrchestratorConfig_def authCertFor_def tsaAccessCert_def UsesDeprecatedAuthCertSetting_def Let_def)
qed

text \<open>
  The callback is mounted at the path the provider redirects to. For a redirect URI of the form
  scheme, host and path, with no characters that need escaping, the callback path is exactly that
  path, and the default path when the redirect URI has none.
\<close>

theorem CallbackPath_exact:
  assumes uri: "g_TXRedirectURI c = scheme @ ''://'' @ host @ path" and scheme: "list_all is_letter scheme" "scheme \<noteq> []"
    and host: "list_all unreserved host" and path: "list_all (\<lambda>ch. unreserved ch \<or> ch = CHR ''/'') path" "path = [] \<or> has_prefix path ''/''"
  shows "CallbackPath c = (if path = [] then ''/api/v1/signatures/callback'' else path)"
proof -
  let ?u = "g_TXRedirectURI c"
  have plain: "list_all (\<lambda>ch. unreserved ch \<or> ch = CHR ''/'' \<or> ch = CHR '':'') ?u"
    using scheme(1) host path(1) unfolding uri by (auto simp: list_all_iff is_letter_unreserved)
  then have ok: "\<not> list_ex (\<lambda>ch. (of_char ch :: nat) < 32 \<or> (of_char ch :: nat) = 127) ?u"
    using unreserved_plain by (fastforce simp: list_all_iff list_ex_iff)
  have no: "ch \<in> set ?u \<Longrightarrow> ch \<noteq> CHR ''#'' \<and> ch \<noteq> CHR ''?'' \<and> ch \<noteq> CHR ''%''" for ch
    using plain unreserved_plain [of ch] by (auto simp: list_all_iff)
  have auth: "takeWhile (\<lambda>ch. ch \<noteq> CHR ''/'') (host @ path) = host"
  proof -
    have "takeWhile (\<lambda>ch. ch \<noteq> CHR ''/'') path = []" using path(2) by (cases path) (auto simp: has_prefix_def)
    with host unreserved_plain show ?thesis by (subst takeWhile_append2) (auto simp: list_all_iff)
  qed
  have rest: "takeWhile (\<lambda>ch. ch \<noteq> CHR ''?'') (''//'' @ host @ path) = ''//'' @ host @ path"
    using no unfolding takeWhile_eq_all_conv uri by auto
  have "path_unescape path = Some path" using no unfolding uri by (intro path_unescape_plain) (auto simp: list_all_iff)
  moreover have "takeWhile (\<lambda>ch. ch \<noteq> CHR ''#'') ?u = ?u" using no by (auto simp: takeWhile_eq_all_conv)
  moreover have "get_scheme ?u [] ?u = Some (scheme, ''//'' @ host @ path)"
    using get_scheme_letters [of scheme "[]" ?u "''//'' @ host @ path"] scheme by (simp add: uri)
  ultimately have "url_parse ?u = Some path"
    using ok auth rest scheme(2) authority_ok_plain [OF host] by (simp add: url_parse_def has_prefix_def Let_def del: takeWhile_eq_all_conv)
  moreover have "trim_space ?u \<noteq> []" using scheme trim_space_letter unfolding uri by (cases scheme) auto
  ultimately show ?thesis by (simp add: CallbackPath_def DefaultCallbackPath_def)
qed

theorem CallbackPath_exact_witness: "CallbackPath (demo_settings demo_vars) = ''/Sign/Complete''"
proof -
  have "CallbackPath (demo_settings demo_vars) = (if ''/Sign/Complete'' = [] then ''/api/v1/signatures/callback'' else ''/Sign/Complete'')"
    by (rule CallbackPath_exact [of _ "''https''" "''sign.example.lv''"]) code_simp+
  then show ?thesis by simp
qed

end
