(* ===== verification/Audit_Recorder.thy ===== *)
theory Audit_Recorder
  imports Authcert
begin

text \<open>
  \<^verbatim>\<open>audit/audit.go\<close>, \<^verbatim>\<open>audit/drain.go\<close> and \<^verbatim>\<open>auditposter.go\<close>: what the service records of a
  request in its three audit regimes, and how the records leave it.

  The emitters are libraries outside the repository. A method of the recorder hands events to
  them and only logs what they answer, so it is modelled as the list of the events it hands over,
  in order; \<open>Recorder\<close> says which emitters are wired. Constants of those libraries are
  constructors named after them. The pseudonym of a national id is computed: HMAC-SHA256 over the
  SHA-256 of \<^theory_text>\<open>Sha256\<close>.

  The lemmas give the shape of a pseudonym and the events of each method.
\<close>

section \<open>Events\<close>

record Actor =
  ac_ID :: string
  ac_Type :: string

datatype Outcome = OutcomeSuccess | OutcomeFailure
datatype SignatureLevel = LevelQES | LevelSeal
datatype ContainerFormat = ContainerPAdES | ContainerXAdES
datatype InputType = TypeHash | TypePDF | TypeFile
datatype ProviderName = ProviderEntrust

record SigningInit =
  in_Actor :: Actor
  in_EnvelopeID :: string
  in_Method :: string
  in_InputType :: InputType

record Provider =
  pv_Actor :: Actor
  pv_EnvelopeID :: string
  pv_Provider :: ProviderName
  pv_StateRef :: string
  pv_Outcome :: Outcome

record Signature =
  sg_Actor :: Actor
  sg_EnvelopeID :: string
  sg_Slot :: string
  sg_Format :: ContainerFormat
  sg_Level :: SignatureLevel
  sg_BaselineConfirmed :: bool

text \<open>The fixed fields of an access record: an envelope access, of a signature, to sign it, under contract, in the background.\<close>

record Access =
  ax_Actor :: Actor
  ax_DataSubjects :: "string list"
  ax_ResourceType :: string

record Denial =
  dn_Actor :: Actor
  dn_RequiredScope :: string
  dn_Reason :: string

record Envelope =
  ev_EventType :: string
  ev_Actor :: Actor
  ev_Outcome :: Outcome

datatype AuditEvent =
    SigningInitiated SigningInit
  | ProviderRedirect Provider
  | ProviderCallback Provider
  | SignatureApplied Signature
  | AccessRecord Access
  | AuthZDenied Denial
  | SecurityEvent Envelope

definition eventPrepare :: string where "eventPrepare = ''eparaksts.prepare''"
definition eventSign :: string where "eventSign = ''eparaksts.sign''"
definition eventValidate :: string where "eventValidate = ''eparaksts.validate''"
definition eventArchive :: string where "eventArchive = ''eparaksts.archive''"

section \<open>Pseudonyms\<close>

datatype Pseudonymizer = Pseudonymizer (ps_key: bytes)

definition NewPseudonymizer :: "bytes \<Rightarrow> err + Pseudonymizer" where
  "NewPseudonymizer key =
     (if length key = 0 then Inl (ErrOther ''audit: empty pseudonym key'') else Inr (Pseudonymizer key))"

text \<open>HMAC (RFC 2104) with SHA-256, whose block is 64 bytes.\<close>

definition hmac_key :: "bytes \<Rightarrow> bytes" where
  "hmac_key key = (let k = if 64 < length key then Sum256 key else key in k @ replicate (64 - length k) 0)"

definition hmac_sha256 :: "bytes \<Rightarrow> bytes \<Rightarrow> bytes" where
  "hmac_sha256 key m =
     Sum256 (map (\<lambda>b. xor b 0x5C) (hmac_key key) @ Sum256 (map (\<lambda>b. xor b 0x36) (hmac_key key) @ m))"

definition Ref :: "Pseudonymizer option \<Rightarrow> string \<Rightarrow> string" where
  "Ref p subject =
     (case p of None \<Rightarrow> []
      | Some ps \<Rightarrow> if subject = [] then [] else ''psn:'' @ hex_encode (hmac_sha256 (ps_key ps) (map of_char subject)))"

section \<open>The recorder\<close>

text \<open>Which emitters are wired; a recorder that is itself missing is \<open>None\<close>.\<close>

record Recorder =
  rc_eidas :: bool
  rc_sec :: bool
  rc_gdpr :: bool
  rc_psn :: "Pseudonymizer option"

definition NewRecorder :: "bool \<Rightarrow> bool \<Rightarrow> bool \<Rightarrow> Pseudonymizer option \<Rightarrow> Recorder" where
  "NewRecorder eidas sec gdpr psn = \<lparr>rc_eidas = eidas, rc_sec = sec, rc_gdpr = gdpr, rc_psn = psn\<rparr>"

definition service :: "string \<Rightarrow> Actor" where
  "service caller = \<lparr>ac_ID = caller, ac_Type = ''service''\<rparr>"

definition levelForFlow :: "Flow \<Rightarrow> SignatureLevel" where
  "levelForFlow f = (if f = FlowEParakstsMobileEseal then LevelSeal else LevelQES)"

definition formatOf :: "SignatureFormat \<Rightarrow> ContainerFormat" where
  "formatOf f = (if f = FormatPAdES then ContainerPAdES else ContainerXAdES)"

definition inputType :: "Job \<Rightarrow> InputType" where
  "inputType j =
     (case j_Documents j of [] \<Rightarrow> TypeFile
      | d # ds \<Rightarrow> if d_HashOnly d then TypeHash else if d_Format d = FormatPAdES then TypePDF else TypeFile)"

definition refOf :: "string \<Rightarrow> string" where
  "refOf s = (if length s > 12 then take 12 s else s)"

definition has_eidas :: "Recorder option \<Rightarrow> bool" where
  "has_eidas r = (case r of None \<Rightarrow> False | Some r \<Rightarrow> rc_eidas r)"

definition has_sec :: "Recorder option \<Rightarrow> bool" where
  "has_sec r = (case r of None \<Rightarrow> False | Some r \<Rightarrow> rc_sec r)"

definition audit_Initiated :: "Recorder option \<Rightarrow> Job \<Rightarrow> AuditEvent list" where
  "audit_Initiated r j =
     (if \<not> has_eidas r then []
      else [SigningInitiated \<lparr>in_Actor = service (j_Caller j), in_EnvelopeID = j_JobID j, in_Method = j_Flow j,
              in_InputType = inputType j\<rparr>])"

definition audit_Redirect :: "Recorder option \<Rightarrow> Job \<Rightarrow> AuditEvent list" where
  "audit_Redirect r j =
     (if \<not> has_eidas r then []
      else [ProviderRedirect \<lparr>pv_Actor = service (j_Caller j), pv_EnvelopeID = j_JobID j, pv_Provider = ProviderEntrust,
              pv_StateRef = refOf (j_OAuthState j), pv_Outcome = OutcomeSuccess\<rparr>])"

definition audit_Callback :: "Recorder option \<Rightarrow> Job \<Rightarrow> bool \<Rightarrow> AuditEvent list" where
  "audit_Callback r j success =
     (if \<not> has_eidas r then []
      else [ProviderCallback \<lparr>pv_Actor = service (j_Caller j), pv_EnvelopeID = j_JobID j, pv_Provider = ProviderEntrust,
              pv_StateRef = [], pv_Outcome = (if success then OutcomeSuccess else OutcomeFailure)\<rparr>])"

definition audit_outcome :: "Recorder option \<Rightarrow> string \<Rightarrow> string \<Rightarrow> bool \<Rightarrow> AuditEvent list" where
  "audit_outcome r eventType caller success =
     (if \<not> has_sec r then []
      else [SecurityEvent \<lparr>ev_EventType = eventType, ev_Actor = service caller,
              ev_Outcome = (if success then OutcomeSuccess else OutcomeFailure)\<rparr>])"

definition applied_event :: "Job \<Rightarrow> Document \<Rightarrow> AuditEvent" where
  "applied_event j d = SignatureApplied \<lparr>sg_Actor = service (j_Caller j), sg_EnvelopeID = j_JobID j,
     sg_Slot = d_DocumentID d, sg_Format = formatOf (d_Format d), sg_Level = levelForFlow (j_Flow j),
     sg_BaselineConfirmed = True\<rparr>"

text \<open>The loop over the documents, which passes over those that are not ready.\<close>

fun applied_events :: "Job \<Rightarrow> Document list \<Rightarrow> AuditEvent list" where
  "applied_events j [] = []"
| "applied_events j (d # ds) =
     (if d_State d \<noteq> DocReady then applied_events j ds else applied_event j d # applied_events j ds)"

definition audit_Applied :: "Recorder option \<Rightarrow> Job \<Rightarrow> AuditEvent list" where
  "audit_Applied r j =
     (if has_eidas r then applied_events j (j_Documents j) else []) @ audit_outcome r eventSign (j_Caller j) True"

definition audit_Failed :: "Recorder option \<Rightarrow> Job \<Rightarrow> AuditEvent list" where
  "audit_Failed r j = audit_outcome r eventSign (j_Caller j) False"

definition SignerAccessed :: "Recorder option \<Rightarrow> string \<Rightarrow> string \<Rightarrow> AuditEvent list" where
  "SignerAccessed r caller subjectID =
     (case r of None \<Rightarrow> []
      | Some rc \<Rightarrow>
          if \<not> rc_gdpr rc \<or> rc_psn rc = None then []
          else if Ref (rc_psn rc) subjectID = [] then []
          else [AccessRecord \<lparr>ax_Actor = service caller, ax_DataSubjects = [Ref (rc_psn rc) subjectID],
                  ax_ResourceType = ''signature''\<rparr>])"

definition PrepareOutcome :: "Recorder option \<Rightarrow> string \<Rightarrow> bool \<Rightarrow> AuditEvent list" where
  "PrepareOutcome r caller success = audit_outcome r eventPrepare caller success"

definition ValidateOutcome :: "Recorder option \<Rightarrow> string \<Rightarrow> bool \<Rightarrow> AuditEvent list" where
  "ValidateOutcome r caller success = audit_outcome r eventValidate caller success"

definition ArchiveOutcome :: "Recorder option \<Rightarrow> string \<Rightarrow> bool \<Rightarrow> AuditEvent list" where
  "ArchiveOutcome r caller success = audit_outcome r eventArchive caller success"

definition audit_Denied :: "Recorder option \<Rightarrow> string \<Rightarrow> string \<Rightarrow> AuditEvent list" where
  "audit_Denied r caller requiredScope =
     (if \<not> has_sec r then []
      else [AuthZDenied \<lparr>dn_Actor = service caller, dn_RequiredScope = requiredScope, dn_Reason = ''missing scope''\<rparr>])"

lemmas audit_defs = audit_Initiated_def audit_Redirect_def audit_Callback_def audit_Applied_def audit_Failed_def
  SignerAccessed_def PrepareOutcome_def ValidateOutcome_def ArchiveOutcome_def audit_Denied_def audit_outcome_def

section \<open>Delivery\<close>

text \<open>
  The poster of access records. The two calls of the authentication client are parameters over
  an unknown state: \<open>po_PostJSON\<close> on the path of a request, \<open>po_DoService\<close> (which answers the
  status) from the background drain; \<open>marshal\<close> is \<^verbatim>\<open>json.Marshal\<close> of the record.
\<close>

record 'c auth_client =
  po_PostJSON :: "string \<Rightarrow> string \<Rightarrow> string \<Rightarrow> Envelope \<Rightarrow> ('c, err, unit) prog"
  po_DoService :: "string \<Rightarrow> string \<Rightarrow> string \<Rightarrow> string \<Rightarrow> string \<Rightarrow> ('c, err, nat) prog"

record 'c accessAuditPoster =
  ap_auth :: "'c auth_client"
  ap_url :: string
  ap_audience :: string
  ap_scope :: string

definition newAccessAuditPoster :: "'c auth_client \<Rightarrow> string \<Rightarrow> string \<Rightarrow> string \<Rightarrow> 'c accessAuditPoster" where
  "newAccessAuditPoster ac baseURL audience scope =
     \<lparr>ap_auth = ac, ap_url = trim_suffix baseURL ''/'' @ ''/v1/access-records'', ap_audience = audience, ap_scope = scope\<rparr>"

definition Post :: "(Envelope \<Rightarrow> err + string) \<Rightarrow> 'c accessAuditPoster \<Rightarrow> bool \<Rightarrow> Envelope \<Rightarrow> ('c, err, unit) prog" where
  "Post marshal p onRequest rec =
     (if onRequest then po_PostJSON (ap_auth p) (ap_audience p) (ap_scope p) (ap_url p) rec
      else
        bindE (ofsumE (marshal rec)) (\<lambda>body.
        bindE (po_DoService (ap_auth p) (ap_audience p) (ap_scope p) ''POST'' (ap_url p) body) (\<lambda>status.
        if status div 100 \<noteq> 2 then
          failE (ErrOther (''access-audit: POST '' @ ap_url p @ '' returned '' @ show_nat status))
        else retE ())))"

text \<open>
  The task that drains a buffered audit client: started, the client's delivery loop runs in the
  background; stopped, the client is closed, which flushes it, within five seconds.
\<close>

record 'c drainTask =
  dt_name :: string
  dt_Close :: "int \<Rightarrow> ('c, err, unit) prog"

definition NewDrainTask :: "(int \<Rightarrow> ('c, err, unit) prog) \<Rightarrow> 'c drainTask" where
  "NewDrainTask close = \<lparr>dt_name = ''gdpr-audit-drain'', dt_Close = close\<rparr>"

definition NewEmitterDrainTask :: "string \<Rightarrow> (int \<Rightarrow> ('c, err, unit) prog) \<Rightarrow> 'c drainTask" where
  "NewEmitterDrainTask name close = \<lparr>dt_name = name, dt_Close = close\<rparr>"

definition drain_Stop :: "'c drainTask \<Rightarrow> ('c, err, unit) prog" where
  "drain_Stop t = ignE (dt_Close t (5 * 1000000000))"

section \<open>Library\<close>

definition is_pseudonym :: "string \<Rightarrow> bool" where
  "is_pseudonym s \<longleftrightarrow> length s = 68 \<and> take 4 s = ''psn:'' \<and> list_all (\<lambda>c. c \<in> set ''0123456789abcdef'') (drop 4 s)"

lemma hex_digit_char: "n < 16 \<Longrightarrow> hex_digit n \<in> set ''0123456789abcdef''"
proof -
  assume "n < 16"
  then have "n \<in> set [0..<16]" by simp
  moreover have "list_all (\<lambda>n. hex_digit n \<in> set ''0123456789abcdef'') [0..<16]" by code_simp
  ultimately show ?thesis by (simp add: list_all_iff)
qed

lemma hex_encode_length [simp]: "length (hex_encode bs) = 2 * length bs"
  by (induction bs) (simp_all add: hex_encode_def)

lemma hex_encode_digits: "list_all (\<lambda>c. c \<in> set ''0123456789abcdef'') (hex_encode bs)"
proof (induction bs)
  case (Cons b bs)
  have "unat b div 16 < 16" "unat b mod 16 < 16" using unat_byte_less [of b] by linarith+
  then have "hex_digit (unat b div 16) \<in> set ''0123456789abcdef''" "hex_digit (unat b mod 16) \<in> set ''0123456789abcdef''"
    by (simp_all only: hex_digit_char)
  with Cons show ?case unfolding hex_encode_def by (simp del: list.set)
qed (simp add: hex_encode_def)

lemma hmac_length [simp]: "length (hmac_sha256 k m) = 32"
  by (simp add: hmac_sha256_def)

lemma Ref_cases: "Ref p s = [] \<longleftrightarrow> p = None \<or> s = []"
  by (simp add: Ref_def split: option.split)

lemma Ref_pseudonym: "Ref p s \<noteq> [] \<Longrightarrow> is_pseudonym (Ref p s)"
  using hex_encode_digits [of "hmac_sha256 (ps_key (the p)) (map of_char s)"]
  by (auto simp: Ref_def is_pseudonym_def split: option.splits if_splits)

lemma applied_events_filter: "applied_events j ds = map (applied_event j) (filter (\<lambda>d. d_State d = DocReady) ds)"
  by (induction ds) auto

text \<open>Of all methods only \<open>SignerAccessed\<close> makes access records, and only of pseudonyms.\<close>

definition pseudonymous :: "AuditEvent \<Rightarrow> bool" where
  "pseudonymous e = (case e of AccessRecord a \<Rightarrow> list_all is_pseudonym (ax_DataSubjects a) | _ \<Rightarrow> True)"

lemma applied_events_pseudonymous: "list_all pseudonymous (applied_events j ds)"
  by (induction ds) (simp_all add: pseudonymous_def applied_event_def)

lemma audit_pseudonymous [simp]:
  "list_all pseudonymous (audit_Initiated r j)" "list_all pseudonymous (audit_Redirect r j)"
  "list_all pseudonymous (audit_Callback r j ok)" "list_all pseudonymous (audit_Applied r j)"
  "list_all pseudonymous (audit_Failed r j)" "list_all pseudonymous (SignerAccessed r c sub)"
  "list_all pseudonymous (PrepareOutcome r c ok)" "list_all pseudonymous (ValidateOutcome r c ok)"
  "list_all pseudonymous (ArchiveOutcome r c ok)" "list_all pseudonymous (audit_Denied r c sc)"
  by (simp_all add: audit_defs pseudonymous_def applied_events_pseudonymous Ref_pseudonym split: option.split)

end
