(* ===== verification/Wiring.thy ===== *)
theory Wiring
  imports Operations Settings Audit_Recorder
begin

text \<open>
  \<^verbatim>\<open>app.go\<close>: how the application is put together from its configuration, what it reports at
  startup, and the order in which it stops. The constructors of libraries are parameters, fields
  of \<open>wire_env\<close>: each is the error it returns, if any.
\<close>

section \<open>The application\<close>

record ('r, 'u) wire_env =
  wi_setup :: "err option"
  wi_redis :: "string \<Rightarrow> err + 'r redis"       \<comment> \<open>\<^verbatim>\<open>redis.ParseURL\<close>, \<^verbatim>\<open>redis.NewClient\<close>\<close>
  wi_auth :: "AuthConfig \<Rightarrow> err option"        \<comment> \<open>\<^verbatim>\<open>authclient.New\<close>\<close>
  wi_broker :: "string \<Rightarrow> err option"          \<comment> \<open>\<^verbatim>\<open>natsbroker.Connect\<close>\<close>
  wi_eidas_outbox :: "string \<Rightarrow> err option"    \<comment> \<open>\<^verbatim>\<open>eidas.NewFileOutbox\<close>\<close>
  wi_gdpr_outbox :: "string \<Rightarrow> err option"     \<comment> \<open>\<^verbatim>\<open>gdpr.NewFileOutbox\<close>\<close>
  wi_gdpr :: "GDPRSettings \<Rightarrow> err option"      \<comment> \<open>\<^verbatim>\<open>gdpr.New\<close>\<close>
  wi_task :: "string \<Rightarrow> err option"            \<comment> \<open>\<^verbatim>\<open>AddTask\<close>, by the task's name\<close>
  wi_csc :: "'u csc"
  wi_env :: "'u env"
  wi_polls :: nat

datatype Report =
    UnrecognizedFlows "string list" "string list"
  | DeprecatedAuthCert

record ('r, 'u) App =
  a_config :: Configuration
  a_orchestrator :: "('r, 'u) Orchestrator"
  a_audit :: Recorder
  a_broker :: bool
  a_eidasOutbox :: "string option"
  a_gdprOutbox :: "string option"
  a_tasks :: "string list"
  a_reports :: "Report list"

text \<open>\<open>need p r k\<close>: a constructor's error ends the startup, with \<open>p\<close> before it.\<close>

definition need :: "string \<Rightarrow> err option \<Rightarrow> err + 'a \<Rightarrow> err + 'a" where
  "need p r k = (case r of Some e \<Rightarrow> Inl (ErrPre (''eparaksts-signer: '' @ p @ '': '') e) | None \<Rightarrow> k)"

definition reportTimestampCertSettings :: "Configuration \<Rightarrow> Report list" where
  "reportTimestampCertSettings c =
     (if length (UnknownTSAAccessCertFlows c) > 0 then [UnrecognizedFlows (UnknownTSAAccessCertFlows c) KnownFlowNames] else []) @
     (if UsesDeprecatedAuthCertSetting c then [DeprecatedAuthCert] else [])"

definition new_orchestrator :: "('r, 'u) wire_env \<Rightarrow> Configuration \<Rightarrow> 'r redis \<Rightarrow> ('r, 'u) Orchestrator" where
  "new_orchestrator w c R =
     (let ent = NewEntrust (EntrustConfig_of c) (wi_env w);
          sa = NewClient (g_SignAPIBaseURL c) (IntrospectToken ent) (wi_env w)
                 [WithFirstAttempt (g_SignAPIFirstAttempt c), WithCallLimit (g_SignAPICallLimit c)]
      in NewOrchestrator (New R (g_JobTTL c)) sa ent (wi_csc w) (wi_env w) (OrchestratorConfig c) (wi_polls w))"

text \<open>The access audit, when it is configured: the pseudonymizer, and the outbox's directory if one is opened.\<close>

definition init_access_audit :: "('r, 'u) wire_env \<Rightarrow> Configuration \<Rightarrow> err + (Pseudonymizer \<times> string option)" where
  "init_access_audit w c =
     (case NewPseudonymizer (PseudonymKeyBytes c) of
        Inl e \<Rightarrow> Inl (ErrPre ''eparaksts-signer: audit pseudonym key (set AUDIT_SUBJECT_PSEUDONYM_KEY when ACCESS_AUDIT_URL is set): '' e)
      | Inr psn \<Rightarrow>
          need ''audit auth client'' (wi_auth w (AuditAuthClientConfig c))
          (let dir = g_AccessAuditOutboxDir c in
           need ''audit outbox'' (if dir \<noteq> [] then wi_gdpr_outbox w dir else None)
           (need ''gdpr-audit client'' (wi_gdpr w (GDPRConfig c))
           (need ''gdpr drain task'' (wi_task w ''gdpr-audit-drain'')
           (Inr (psn, if dir \<noteq> [] then Some dir else None))))))"

text \<open>The parts once every constructor has succeeded; \<open>access\<close> is the access audit, if it is wired.\<close>

definition wire_app :: "('r, 'u) wire_env \<Rightarrow> Configuration \<Rightarrow> 'r redis \<Rightarrow> bool \<Rightarrow> (Pseudonymizer \<times> string option) option \<Rightarrow> ('r, 'u) App" where
  "wire_app w c R broker access = \<lparr>a_config = c, a_orchestrator = new_orchestrator w c R,
     a_audit = NewRecorder True True (access \<noteq> None) (map_option fst access),
     a_broker = broker,
     a_eidasOutbox = (if g_EidasAuditOutboxDir c \<noteq> [] then Some (g_EidasAuditOutboxDir c) else None),
     a_gdprOutbox = Option.bind access snd,
     a_tasks = [''signing-worker''] @ (if g_EidasAuditOutboxDir c \<noteq> [] then [''eidas-audit-drain''] else []) @
       (if access \<noteq> None then [''gdpr-audit-drain''] else []),
     a_reports = reportTimestampCertSettings c\<rparr>"

definition init :: "('r, 'u) wire_env \<Rightarrow> Configuration \<Rightarrow> err + ('r, 'u) App" where
  "init w c =
     (case wi_setup w of Some e \<Rightarrow> Inl e
      | None \<Rightarrow>
     (case wi_redis w (g_RedisURL c) of Inl e \<Rightarrow> Inl (ErrPre ''eparaksts-signer: invalid REDIS_URL: '' e)
      | Inr R \<Rightarrow>
          need ''worker task'' (wi_task w ''signing-worker'')
          (need ''auth client'' (wi_auth w (g_Auth c))
          (let broker = (case g_BrokerURL c of None \<Rightarrow> False | Some u \<Rightarrow> u \<noteq> []); dir = g_EidasAuditOutboxDir c in
           need ''broker connect'' (if broker then wi_broker w (the (g_BrokerURL c)) else None)
           (need ''eidas-audit outbox'' (if dir \<noteq> [] then wi_eidas_outbox w dir else None)
           (need ''eidas drain task'' (if dir \<noteq> [] then wi_task w ''eidas-audit-drain'' else None)
           (if AccessAuditEnabled c then map_sum id (\<lambda>x. wire_app w c R broker (Some x)) (init_access_audit w c)
            else Inr (wire_app w c R broker None))))))))"

text \<open>
  \<open>New\<close>: \<open>server\<close> is the framework's own set-up, which loads and validates the configuration.
  \<open>Start\<close>: a store that does not answer is reported and the start goes on; \<open>started\<close> is the framework's start.
\<close>

definition app_New :: "('r, 'u) wire_env \<Rightarrow> err + Configuration \<Rightarrow> err + ('r, 'u) App" where
  "app_New w server = (case server of Inl e \<Rightarrow> Inl e | Inr c \<Rightarrow> init w c)"

definition app_Start :: "err option \<Rightarrow> ('r, 'u) App \<Rightarrow> (('r, 'u) sys, err, err option) prog" where
  "app_Start started a =
     bindE (tryE (onRedis (Ping (o_jobs (a_orchestrator a))))) (\<lambda>r.
     case started of Some e \<Rightarrow> failE e
     | None \<Rightarrow> retE (case r of Inl e \<Rightarrow> Some e | Inr _ \<Rightarrow> None))"

section \<open>Stopping\<close>

text \<open>What \<open>Stop\<close> does, in order; \<open>StopTasks\<close> is the application's own stop, which stops the tasks.\<close>

datatype StopAction = CloseRedis | StopTasks "string list" | CloseBroker

definition app_Stop :: "('r, 'u) App \<Rightarrow> StopAction list" where
  "app_Stop a = [CloseRedis, StopTasks (a_tasks a)] @ (if a_broker a then [CloseBroker] else [])"

section \<open>Library\<close>

lemma need_Inr: "need p r k = Inr x \<longleftrightarrow> r = None \<and> k = Inr x"
  by (simp add: need_def split: option.split)

lemma need_Inl: "need p r k = Inl e \<longleftrightarrow> (\<exists>x. r = Some x \<and> e = ErrPre (''eparaksts-signer: '' @ p @ '': '') x) \<or> r = None \<and> k = Inl e"
  by (auto simp: need_def split: option.split)

lemma init_access_audit_ok:
  "init_access_audit w c = Inr (psn, ob) \<Longrightarrow>
     psn = Pseudonymizer (PseudonymKeyBytes c) \<and> PseudonymKeyBytes c \<noteq> [] \<and>
     ob = (if g_AccessAuditOutboxDir c \<noteq> [] then Some (g_AccessAuditOutboxDir c) else None)"
  by (auto simp: init_access_audit_def NewPseudonymizer_def Let_def need_Inr split: sum.splits if_splits)

lemma init_ok:
  assumes "init w c = Inr a"
  obtains R broker access where "wi_redis w (g_RedisURL c) = Inr R" "a = wire_app w c R broker access"
    "access = None \<longleftrightarrow> \<not> AccessAuditEnabled c" "access \<noteq> None \<Longrightarrow> init_access_audit w c = Inr (the access)"
proof -
  let ?broker = "case g_BrokerURL c of None \<Rightarrow> False | Some u \<Rightarrow> u \<noteq> []"
  from assms obtain R where R: "wi_redis w (g_RedisURL c) = Inr R"
    and a: "(if AccessAuditEnabled c then map_sum id (\<lambda>x. wire_app w c R ?broker (Some x)) (init_access_audit w c)
      else Inr (wire_app w c R ?broker None)) = Inr a"
    unfolding init_def Let_def
    by (cases "wi_setup w"; cases "wi_redis w (g_RedisURL c)"; simp only: option.case sum.case need_Inr; blast)
  show thesis
  proof (cases "AccessAuditEnabled c")
    case True
    with a obtain x where "init_access_audit w c = Inr x" "a = wire_app w c R ?broker (Some x)"
      by (cases "init_access_audit w c") auto
    with R True that [of R ?broker "Some x"] show ?thesis by simp
  next
    case False
    with a R that [of R ?broker None] show ?thesis by simp
  qed
qed

lemma app_Start_best_effort: "\<exists>warning s'. app_Start None a s = (Inr warning, s')"
  by (simp add: app_Start_def bindE_def tryE_def retE_def split: prod.split sum.split)

text \<open>A world in which every constructor succeeds, for the witnesses.\<close>

definition demo_wire :: "(mem_state, script) wire_env" where
  "demo_wire = \<lparr>wi_setup = None, wi_redis = (\<lambda>u. Inr mem_redis), wi_auth = (\<lambda>a. None), wi_broker = (\<lambda>u. None),
     wi_eidas_outbox = (\<lambda>d. None), wi_gdpr_outbox = (\<lambda>d. None), wi_gdpr = (\<lambda>g. None), wi_task = (\<lambda>t. None),
     wi_csc = demo_csc, wi_env = script_env, wi_polls = 10\<rparr>"

definition demo_app :: "(mem_state, script) App" where
  "demo_app = wire_app demo_wire (demo_settings demo_vars) mem_redis False
     (Some (Pseudonymizer (string_bytes ''key''), Some ''/spool/access''))"

lemma demo_wire_simps [simp]:
  "wi_setup demo_wire = None" "wi_redis demo_wire u = Inr mem_redis" "wi_auth demo_wire ac = None" "wi_broker demo_wire u = None"
  "wi_eidas_outbox demo_wire d = None" "wi_gdpr_outbox demo_wire d = None" "wi_gdpr demo_wire g = None" "wi_task demo_wire t = None"
  by (simp_all add: demo_wire_def)

lemma init_demo_wire:
  assumes "AccessAuditEnabled c" and "PseudonymKeyBytes c \<noteq> []" and "g_BrokerURL c = None"
  shows "init demo_wire c = Inr (wire_app demo_wire c mem_redis False (Some (Pseudonymizer (PseudonymKeyBytes c),
    if g_AccessAuditOutboxDir c \<noteq> [] then Some (g_AccessAuditOutboxDir c) else None)))"
  using assms by (simp add: init_def init_access_audit_def need_def NewPseudonymizer_def Let_def)

text \<open>The settings of the demonstration, evaluated once.\<close>

lemma demo_settings_values:
  "AccessAuditEnabled (demo_settings demo_vars)" "g_BrokerURL (demo_settings vars) = None"
  "g_EidasAuditOutboxDir (demo_settings demo_vars) = ''/spool/eidas''"
  "g_AccessAuditOutboxDir (demo_settings demo_vars) = ''/spool/access''"
  "PseudonymKeyBytes (demo_settings demo_vars) = string_bytes ''key''"
  "g_PseudonymKey (demo_settings demo_vars) = ''key''"
  "conf_Validate (demo_conf_env demo_vars) (demo_settings demo_vars) = None"
  by (code_simp, simp add: demo_settings_def Bind_def, code_simp+)

lemma init_demo: "init demo_wire (demo_settings demo_vars) = Inr demo_app"
  by (subst init_demo_wire) (simp_all add: demo_settings_values demo_app_def string_bytes_def)

section \<open>Properties\<close>

text \<open>
  C24: An application that started has its audit wired as its configuration says. Signing evidence
  and security events are always recorded; access records are made exactly when access audit is
  configured, and then with a pseudonymizer under the configured key, which is not empty, so no
  deployment starts that would record accesses without pseudonyms or under an empty key. A
  delivery task runs for each outbox that can hold records, and for no other.
\<close>

theorem started_audit_wired:
  assumes "init w c = Inr a"
  shows "rc_eidas (a_audit a) \<and> rc_sec (a_audit a) \<and> (rc_gdpr (a_audit a) \<longleftrightarrow> AccessAuditEnabled c) \<and>
    rc_psn (a_audit a) = (if AccessAuditEnabled c then Some (Pseudonymizer (PseudonymKeyBytes c)) else None) \<and>
    (AccessAuditEnabled c \<longrightarrow> g_PseudonymKey c \<noteq> []) \<and>
    (''eidas-audit-drain'' \<in> set (a_tasks a) \<longleftrightarrow> a_eidasOutbox a \<noteq> None) \<and>
    (''gdpr-audit-drain'' \<in> set (a_tasks a) \<longleftrightarrow> AccessAuditEnabled c) \<and>
    (a_gdprOutbox a \<noteq> None \<longrightarrow> ''gdpr-audit-drain'' \<in> set (a_tasks a))"
  using assms
proof (rule init_ok)
  fix R broker access
  assume a: "a = wire_app w c R broker access" and acc: "access = None \<longleftrightarrow> \<not> AccessAuditEnabled c"
    and ok: "access \<noteq> None \<Longrightarrow> init_access_audit w c = Inr (the access)"
  show ?thesis
  proof (cases access)
    case None
    with a acc show ?thesis by (simp add: wire_app_def NewRecorder_def)
  next
    case (Some x)
    then obtain psn ob where x: "access = Some (psn, ob)" by (cases x) auto
    with ok init_access_audit_ok [of w c psn ob] a acc show ?thesis
      by (auto simp: wire_app_def NewRecorder_def PseudonymKeyBytes_def string_bytes_def)
  qed
qed

theorem started_audit_wired_witness:
  "init demo_wire (demo_settings demo_vars) = Inr demo_app \<and> rc_psn (a_audit demo_app) = Some (Pseudonymizer (string_bytes ''key''))"
  using started_audit_wired [OF init_demo] by (simp add: demo_settings_values init_demo)



text \<open>
  A blank outbox directory escapes the check. There is a configuration that validation accepts
  and with which the application starts with both outboxes on the same directory: the check
  compares what is left of the directories without their white space and passes over nothing left,
  while the startup opens an outbox for every directory that is not the empty text.
\<close>

theorem blank_outboxes_share:
  "let vars = (''EIDAS_AUDIT_OUTBOX_DIR'', '' '') # (''ACCESS_AUDIT_OUTBOX_DIR'', '' '') # demo_vars in
   \<exists>a. conf_Validate (demo_conf_env vars) (demo_settings vars) = None \<and> init demo_wire (demo_settings vars) = Inr a \<and>
     a_eidasOutbox a = Some '' '' \<and> a_gdprOutbox a = Some '' ''"
proof -
  let ?vars = "(''EIDAS_AUDIT_OUTBOX_DIR'', '' '') # (''ACCESS_AUDIT_OUTBOX_DIR'', '' '') # demo_vars"
  have c: "AccessAuditEnabled (demo_settings ?vars)" "PseudonymKeyBytes (demo_settings ?vars) \<noteq> []"
    "g_EidasAuditOutboxDir (demo_settings ?vars) = '' ''" "g_AccessAuditOutboxDir (demo_settings ?vars) = '' ''"
    "conf_Validate (demo_conf_env ?vars) (demo_settings ?vars) = None"
    by code_simp+
  show ?thesis
    unfolding Let_def
    by (rule exI, intro conjI, rule c(5), rule init_demo_wire [OF c(1,2) demo_settings_values(2)]) (simp_all add: wire_app_def c(3,4))
qed

end
