(* ===== verification/Web.thy ===== *)
theory Web
  imports Wiring
begin

text \<open>
  What the HTTP handlers of \<^verbatim>\<open>routes/\<close> share: the request as the framework hands it over, the
  bodies of requests and responses (\<^verbatim>\<open>routes/request\<close>, \<^verbatim>\<open>routes/response\<close>), problem responses and
  the mapping of errors to them, the gate for uploaded files, and the reading of a request.

  The framework is outside the repository. \<open>hreq\<close> is what the handlers read from it: a query
  parameter, a path parameter, a form value or file by its name, the body, the authenticated user.
  A problem without a status of its own gets the one the framework derives from its code. The
  handlers' state \<open>web\<close> is the orchestrator's state and the audit trail, the events handed to the
  emitters so far, and the headers set on the response. A handler that answers with an error does nothing after it, so an error
  response is the error of the program.

  A body is read as in \<^theory_text>\<open>Http\<close>; the rules of the struct tags decide whether it is valid, the
  validator's message is a parameter.
\<close>

section \<open>Requests\<close>

record upload =
  up_name :: string
  up_ctype :: string
  up_content :: "err + bytes"  \<comment> \<open>opened and read to its end\<close>

record user =
  us_authorized :: bool
  us_id :: string
  us_has :: "string \<Rightarrow> string \<Rightarrow> bool"  \<comment> \<open>\<^verbatim>\<open>HasScopeLevel\<close>\<close>

record hreq =
  hq_query :: "string \<Rightarrow> string option"
  hq_wait :: "err + int option"      \<comment> \<open>the query parameter \<open>wait\<close> as a number\<close>
  hq_param :: "string \<Rightarrow> string"
  hq_ctype :: string
  hq_metadata :: "err + payload"     \<comment> \<open>the form value \<open>metadata\<close>\<close>
  hq_form :: "string \<Rightarrow> string option"
  hq_file :: "string \<Rightarrow> upload option"
  hq_body :: "err + payload"
  hq_user :: "user option"
  hq_correlation :: string

record PrepareFile =
  pf_Name :: string
  pf_Digest :: string
  pf_DigestAlgorithm :: string

record PrepareDocument =
  pd_DocumentID :: string
  pd_FileRef :: string
  pd_DocumentHash :: string
  pd_DigestAlgorithm :: string
  pd_FileName :: string
  pd_MimeType :: string
  pd_SignatureFormat :: string
  pd_Operation :: string
  pd_Files :: "PrepareFile list"

record PrepareMetadata =
  pm_Documents :: "PrepareDocument list"
  pm_SignatureQualifier :: string
  pm_SigningCertificate :: string
  pm_AuthCertificate :: string
  pm_SignIdentityID :: string
  pm_SealID :: string
  pm_PostAuthRedirect :: string
  pm_AuthErrorRedirect :: string
  pm_Locale :: string

text \<open>The rules of the struct tags.\<close>

definition valid_file :: "PrepareFile \<Rightarrow> bool" where
  "valid_file f \<longleftrightarrow> pf_Name f \<noteq> [] \<and> pf_Digest f \<noteq> []"

definition valid_document :: "PrepareDocument \<Rightarrow> bool" where
  "valid_document d \<longleftrightarrow> pd_DocumentID d \<noteq> [] \<and> pd_FileName d \<noteq> [] \<and>
     pd_SignatureFormat d \<in> {''PAdES'', ''XAdES''} \<and> pd_Operation d \<in> {[], ''create'', ''parallel''} \<and>
     list_all valid_file (pd_Files d)"

definition valid_metadata :: "PrepareMetadata \<Rightarrow> bool" where
  "valid_metadata m \<longleftrightarrow> pm_Documents m \<noteq> [] \<and> list_all valid_document (pm_Documents m)"

definition valid_submit :: "SubmittedSignature list \<Rightarrow> bool" where
  "valid_submit sgs \<longleftrightarrow> sgs \<noteq> [] \<and> list_all (\<lambda>s. ss_DocumentID s \<noteq> [] \<and> ss_SignatureValue s \<noteq> []) sgs"

text \<open>From JSON: the texts under the named keys, and the nested lists.\<close>

definition texts_ok :: "json \<Rightarrow> string list \<Rightarrow> bool" where
  "texts_ok v ks \<longleftrightarrow> list_all (\<lambda>k. string_of (field v k) \<noteq> None) ks"

definition text_field :: "json \<Rightarrow> string \<Rightarrow> string" where
  "text_field v k = the (string_of (field v k))"

definition prepareFile_of :: "json \<Rightarrow> PrepareFile option" where
  "prepareFile_of v0 = Option.bind (obj_of (Some v0)) (\<lambda>v.
     if texts_ok v [''name'', ''digest'', ''digestAlgorithm''] then
       Some \<lparr>pf_Name = text_field v ''name'', pf_Digest = text_field v ''digest'', pf_DigestAlgorithm = text_field v ''digestAlgorithm''\<rparr>
     else None)"

definition prepareDocument_of :: "json \<Rightarrow> PrepareDocument option" where
  "prepareDocument_of v0 = Option.bind (obj_of (Some v0)) (\<lambda>v.
     if texts_ok v [''documentId'', ''fileRef'', ''documentHash'', ''digestAlgorithm'', ''fileName'', ''mimeType'',
          ''signatureFormat'', ''operation''] then
       Option.bind (array_of (field v ''files'')) (\<lambda>fs. Option.bind (those (map prepareFile_of fs)) (\<lambda>files.
         Some \<lparr>pd_DocumentID = text_field v ''documentId'', pd_FileRef = text_field v ''fileRef'', pd_DocumentHash = text_field v ''documentHash'',
           pd_DigestAlgorithm = text_field v ''digestAlgorithm'', pd_FileName = text_field v ''fileName'', pd_MimeType = text_field v ''mimeType'',
           pd_SignatureFormat = text_field v ''signatureFormat'', pd_Operation = text_field v ''operation'', pd_Files = files\<rparr>))
     else None)"

definition prepareMetadata_of :: "json \<Rightarrow> PrepareMetadata option" where
  "prepareMetadata_of v0 = Option.bind (obj_of (Some v0)) (\<lambda>v.
     if texts_ok v [''signatureQualifier'', ''signingCertificate'', ''authCertificate'', ''signIdentityId'', ''sealId'',
          ''postAuthRedirect'', ''authErrorRedirect'', ''locale''] then
       Option.bind (array_of (field v ''documents'')) (\<lambda>ds. Option.bind (those (map prepareDocument_of ds)) (\<lambda>docs.
         Some \<lparr>pm_Documents = docs, pm_SignatureQualifier = text_field v ''signatureQualifier'',
           pm_SigningCertificate = text_field v ''signingCertificate'', pm_AuthCertificate = text_field v ''authCertificate'',
           pm_SignIdentityID = text_field v ''signIdentityId'', pm_SealID = text_field v ''sealId'',
           pm_PostAuthRedirect = text_field v ''postAuthRedirect'', pm_AuthErrorRedirect = text_field v ''authErrorRedirect'',
           pm_Locale = text_field v ''locale''\<rparr>))
     else None)"

definition submitSignature_of :: "json \<Rightarrow> SubmittedSignature option" where
  "submitSignature_of v0 = Option.bind (obj_of (Some v0)) (\<lambda>v.
     if texts_ok v [''documentId'', ''signatureValue''] then
       Some (SubmittedSignature (text_field v ''documentId'') (text_field v ''signatureValue''))
     else None)"

definition submitSignatures_of :: "json \<Rightarrow> SubmittedSignature list option" where
  "submitSignatures_of v0 = Option.bind (obj_of (Some v0)) (\<lambda>v.
     Option.bind (array_of (field v ''signatures'')) (\<lambda>ss. those (map submitSignature_of ss)))"

section \<open>Responses\<close>

record PrepareDocumentRef =
  pq_DocumentID :: string
  pq_Digest :: string
  pq_DigestAlgorithm :: string

record Authorization =
  az_Type :: string
  az_AuthorizeURL :: string
  az_ExpiresIn :: nat

record PrepareResponse =
  ps_JobID :: string
  ps_Flow :: string
  ps_State :: JobState
  ps_Authorization :: "Authorization option"
  ps_SignAlgorithm :: string
  ps_Documents :: "PrepareDocumentRef list"

record Accepted =
  ad_JobID :: string
  ad_Flow :: string
  ad_State :: JobState

record StatusDocument =
  sd_DocumentID :: string
  sd_State :: DocState
  sd_DownloadURL :: string
  sd_Error :: "(string \<times> string) option"  \<comment> \<open>code and message\<close>

text \<open>\<open>UpdatedAt\<close> is a time in whole seconds, as RFC 3339 text.\<close>

record StatusResponse =
  so_JobID :: string
  so_Flow :: string
  so_State :: JobState
  so_VerificationCode :: string
  so_VerificationMessage :: string
  so_SigningDeadline :: int
  so_Documents :: "StatusDocument list"
  so_UpdatedAt :: string

datatype reply_body =
    RPrepare PrepareResponse
  | RAccepted Accepted
  | RStatus StatusResponse
  | RInfo "string list"
  | RProbe string                      \<comment> \<open>the \<open>status\<close> of a probe\<close>
  | RText string
  | RContainer string string           \<comment> \<open>content type and content\<close>
  | RReport string                     \<comment> \<open>a report of the provider, as it came\<close>
  | RRedirect string
  | REmpty

record reply =
  rp_status :: nat
  rp_body :: reply_body

text \<open>A problem response, the framework's 403, an error handed to it as it is, and a nil user.\<close>

record problem =
  pb_code :: string
  pb_status :: "nat option"
  pb_title :: "string option"
  pb_detail :: "string option"
  pb_public :: "string option"

datatype failure = Problem problem | Forbidden | Failure err | Panic

definition problem :: "string \<Rightarrow> nat option \<Rightarrow> string option \<Rightarrow> failure" where
  "problem code status detail =
     Problem \<lparr>pb_code = code, pb_status = status, pb_title = None, pb_detail = detail, pb_public = None\<rparr>"

definition invalidRequest :: "string \<Rightarrow> failure" where
  "invalidRequest detail = problem ''err:signing:invalidRequest'' (Some 400) (Some detail)"

section \<open>State\<close>

record ('r, 'u) web =
  w_sys :: "('r, 'u) sys"
  w_trail :: "AuditEvent list"
  w_headers :: "(string \<times> string) list"

type_synonym ('r, 'u, 'a) handler = "(('r, 'u) web, failure, 'a) prog"

text \<open>\<open>call m\<close> is a call of the orchestrator, its error a value for the handler; \<open>audit es\<close> a call of the recorder.\<close>

definition call :: "(('r, 'u) sys, err, 'a) prog \<Rightarrow> ('r, 'u, err + 'a) handler" where
  "call m = tryE (liftE w_sys (\<lambda>s w. w\<lparr>w_sys := s\<rparr>) m)"

definition audit :: "AuditEvent list \<Rightarrow> ('r, 'u, unit) handler" where
  "audit es = modE (\<lambda>w. w\<lparr>w_trail := w_trail w @ es\<rparr>)"

definition reply :: "nat \<Rightarrow> reply_body \<Rightarrow> ('r, 'u, reply) handler" where
  "reply st b = retE \<lparr>rp_status = st, rp_body = b\<rparr>"

definition header :: "string \<Rightarrow> string \<Rightarrow> ('r, 'u, unit) handler" where
  "header k v = modE (\<lambda>w. w\<lparr>w_headers := w_headers w @ [(k, v)]\<rparr>)"

text \<open>
  Libraries the handlers call: \<open>we_docgate\<close> is \<^verbatim>\<open>docgate.Check\<close> with a size limit, \<open>we_too_large\<close>
  recognizes its error for a file over it, the others are the messages of the validator.
\<close>

datatype Mode = ModeSigning | ModeVerify

record web_env =
  we_docgate :: "Mode \<Rightarrow> string \<Rightarrow> bytes \<Rightarrow> int \<Rightarrow> err option"
  we_too_large :: "err \<Rightarrow> bool"
  we_invalid_metadata :: "PrepareMetadata \<Rightarrow> err"
  we_invalid_submit :: "SubmittedSignature list \<Rightarrow> err"

section \<open>Error mapping\<close>

definition mapPrepareErr :: "err \<Rightarrow> failure" where
  "mapPrepareErr e =
     (if err_is e ErrCSCNotEnabled then problem ''err:signing:cscNotEnabled'' (Some 501) (Some (err_text e))
      else if err_is e ErrFlowNotOffered then problem ''err:signing:flowNotOffered'' (Some 501) (Some (err_text e))
      else if err_is e ErrUnknownFlow then problem ''err:signing:invalidRequest'' (Some 400) (Some (err_text e))
      else if err_is e ErrNoTimestampCert then problem ''err:signing:missingAuthCertificate'' (Some 400) (Some (err_text e))
      else if err_is e ErrMixedFormat then problem ''err:signing:mixedFormat'' (Some 400) (Some (err_text e))
      else if err_is e ErrBatchUnsupport then problem ''err:signing:batchNotSupported'' (Some 400) (Some (err_text e))
      else if err_is e ErrBadSignatureEncoding then problem ''err:signing:badSignatureEncoding'' (Some 400) (Some (err_text e))
      else problem ''err:upstream:unavailable'' (Some 502) None)"

definition mapJobErr :: "err \<Rightarrow> failure" where
  "mapJobErr e =
     (if err_is e ErrNotFound then problem ''err:signing:notFound'' None (Some ''unknown job'')
      else if err_is e ErrNotClientFlow then
        problem ''err:signing:conflict'' None (Some ''this flow does not accept client signatures'')
      else if err_is e ErrFlowNotOffered then problem ''err:signing:flowNotOffered'' (Some 501) (Some (err_text e))
      else if err_is e ErrWrongState then problem ''err:signing:conflict'' None (Some ''job is not in the required state'')
      else problem ''err:signing:invalidRequest'' (Some 400) (Some (err_text e)))"

definition mapArchiveErr :: "err \<Rightarrow> failure" where
  "mapArchiveErr e =
     (if err_is e ErrNoAuthCert \<or> err_is e ErrNoTimestampCert then
        problem ''err:signing:missingAuthCertificate'' (Some 400) (Some (err_text e))
      else if err_is e ErrNotFound then problem ''err:signing:notFound'' None (Some ''unknown job or document'')
      else if err_is e ErrWrongState then problem ''err:signing:notReady'' (Some 409) (Some ''document is not ready'')
      else if err_is e ErrDocumentRejected then
        Problem \<lparr>pb_code = ''err:signing:invalidDocument'', pb_status = Some 422, pb_title = None, pb_detail = None,
          pb_public = Some (''This document can't be archived '' @ [CHR 0xE2, CHR 0x80, CHR 0x94] @ '' it isn't a valid signed document.'')\<rparr>
      else problem ''err:upstream:unavailable'' (Some 502) None)"

definition downloadErr :: "err \<Rightarrow> failure" where
  "downloadErr e =
     (if err_is e ErrNotFound then problem ''err:signing:notFound'' None (Some ''unknown job or document'')
      else if err_is e ErrWrongState then problem ''err:signing:notReady'' (Some 409) (Some ''document is not ready'')
      else problem ''err:upstream:unavailable'' (Some 502) (Some ''could not fetch signed container''))"

definition deleteErr :: "err \<Rightarrow> failure" where
  "deleteErr e =
     (if err_is e ErrNotFound then problem ''err:signing:notFound'' None (Some ''unknown job'')
      else problem ''err:upstream:unavailable'' (Some 502) (Some ''could not delete job''))"

section \<open>Reading a request\<close>

definition callerID :: "hreq \<Rightarrow> string" where
  "callerID q = (case hq_user q of None \<Rightarrow> [] | Some u \<Rightarrow> if \<not> us_authorized u then [] else us_id u)"

definition gateUpload :: "web_env \<Rightarrow> Configuration \<Rightarrow> Mode \<Rightarrow> string \<Rightarrow> bytes \<Rightarrow> ('r, 'u, unit) handler" where
  "gateUpload we c mode filename data =
     (if \<not> g_UploadHardening c then retE ()
      else
        case we_docgate we mode filename data (g_MaxUploadBytes c) of
          None \<Rightarrow> retE ()
        | Some e \<Rightarrow>
            failE (Problem (if we_too_large we e then
                \<lparr>pb_code = ''err:signing:fileTooLarge'', pb_status = Some 413, pb_title = Some ''File too large'',
                 pb_detail = Some (err_text e), pb_public = None\<rparr>
              else
                \<lparr>pb_code = ''err:signing:uploadRejected'', pb_status = Some 422, pb_title = Some ''Upload rejected'',
                 pb_detail = Some (err_text e), pb_public = None\<rparr>)))"

text \<open>The file parts the documents refer to, by reference; a part that is not there is passed over.\<close>

fun read_files :: "hreq \<Rightarrow> PrepareDocument list \<Rightarrow> err + (string \<rightharpoonup> bytes)" where
  "read_files q [] = Inr Map.empty"
| "read_files q (d # ds) =
     (case (if pd_FileRef d = [] then None else hq_file q (pd_FileRef d)) of
        None \<Rightarrow> read_files q ds
      | Some f \<Rightarrow>
          (case up_content f of Inl e \<Rightarrow> Inl e
           | Inr b \<Rightarrow> (case read_files q ds of Inl e \<Rightarrow> Inl e | Inr files \<Rightarrow> Inr (files(pd_FileRef d \<mapsto> b)))))"

definition read_metadata :: "web_env \<Rightarrow> err + payload \<Rightarrow> err + PrepareMetadata" where
  "read_metadata we source =
     (case source of Inl e \<Rightarrow> Inl e
      | Inr b \<Rightarrow>
          (case p_json b of None \<Rightarrow> Inl (ErrOther ''invalid character'')
           | Some v \<Rightarrow>
               (case prepareMetadata_of v of None \<Rightarrow> Inl json_error
                | Some m \<Rightarrow> if valid_metadata m then Inr m else Inl (we_invalid_metadata we m))))"

definition parsePrepare :: "web_env \<Rightarrow> hreq \<Rightarrow> err + PrepareMetadata \<times> (string \<rightharpoonup> bytes)" where
  "parsePrepare we q =
     (if has_prefix (hq_ctype q) ''multipart/'' then
        (case read_metadata we (hq_metadata q) of Inl e \<Rightarrow> Inl e
         | Inr m \<Rightarrow> (case read_files q (pm_Documents m) of Inl e \<Rightarrow> Inl e | Inr files \<Rightarrow> Inr (m, files)))
      else
        (case read_metadata we (hq_body q) of Inl e \<Rightarrow> Inl e | Inr m \<Rightarrow> Inr (m, Map.empty)))"

definition readSingleUpload :: "hreq \<Rightarrow> err + string \<times> string \<times> bytes" where
  "readSingleUpload q =
     (if \<not> has_prefix (hq_ctype q) ''multipart/'' then
        Inl (ErrOther ''multipart/form-data with a 'file' part is required'')
      else
        (case hq_file q ''file'' of None \<Rightarrow> Inl (ErrOther ''missing 'file' part'')
         | Some f \<Rightarrow> (case up_content f of Inl e \<Rightarrow> Inl e | Inr b \<Rightarrow> Inr (up_name f, up_ctype f, b))))"

definition read_submit :: "web_env \<Rightarrow> err + payload \<Rightarrow> err + SubmittedSignature list" where
  "read_submit we source =
     (case source of Inl e \<Rightarrow> Inl e
      | Inr b \<Rightarrow>
          (case p_json b of None \<Rightarrow> Inl (ErrOther ''invalid character'')
           | Some v \<Rightarrow>
               (case submitSignatures_of v of None \<Rightarrow> Inl json_error
                | Some sgs \<Rightarrow> if valid_submit sgs then Inr sgs else Inl (we_invalid_submit we sgs))))"

definition operationOf :: "string \<Rightarrow> Operation" where
  "operationOf op = (if op = ''parallel'' then OpParallel else OpCreate)"

section \<open>Library\<close>

lemma wp_call [wp_rules]:
  "wp (call m) Q E = (\<lambda>w. wp m (\<lambda>x s. Q (Inr x) (w\<lparr>w_sys := s\<rparr>)) (\<lambda>e s. Q (Inl e) (w\<lparr>w_sys := s\<rparr>)) (w_sys w))"
  by (simp add: call_def wp_rules)

lemma wp_audit [wp_rules]: "wp (audit es) Q E = (\<lambda>w. Q () (w\<lparr>w_trail := w_trail w @ es\<rparr>))"
  by (simp add: audit_def wp_rules)

lemma wp_header [wp_rules]: "wp (header k v) Q E = (\<lambda>w. Q () (w\<lparr>w_headers := w_headers w @ [(k, v)]\<rparr>))"
  by (simp add: header_def wp_rules)

lemma wp_reply [wp_rules]: "wp (reply st b) Q E = Q \<lparr>rp_status = st, rp_body = b\<rparr>"
  by (simp add: reply_def wp_rules)

lemma wp_gateUpload [wp_rules]:
  "wp (gateUpload we c mode f d) Q E =
     (\<lambda>w. case fst (gateUpload we c mode f d w) of Inl e \<Rightarrow> E e w | Inr _ \<Rightarrow> Q () w)"
  by (auto simp: gateUpload_def wp_def run_defs fun_eq_iff split: option.split)

end
