(* ===== verification/Handlers.thy ===== *)
theory Handlers
  imports Web
begin

text \<open>
  The handlers of \<^verbatim>\<open>routes/\<close>, one definition each, with the calls of the orchestrator and of the
  audit recorder in the order of the code, and \<^verbatim>\<open>routes/router.go\<close>: the routes, the scope check and
  the way a request reaches its handler.
\<close>

section \<open>Prepare\<close>

definition authorizeExpiresIn :: nat where "authorizeExpiresIn = 90"
definition statusLongPollMax :: int where "statusLongPollMax = 30"

definition input_document :: "(string \<rightharpoonup> bytes) \<Rightarrow> PrepareDocument \<Rightarrow> failure + InputDocument" where
  "input_document files d =
     (let doc = \<lparr>i_DocumentID = pd_DocumentID d, i_FileName = pd_FileName d, i_MimeType = pd_MimeType d,
            i_Format = pd_SignatureFormat d, i_Operation = operationOf (pd_Operation d), i_Bytes = [], i_Hash = [],
            i_DigestAlgorithm = pd_DigestAlgorithm d, i_Files = []\<rparr> in
      if length (pd_Files d) > 0 then
        Inr (doc\<lparr>i_Files := map (\<lambda>f. InputFile (pf_Name f) (pf_Digest f) (pf_DigestAlgorithm f)) (pd_Files d)\<rparr>)
      else if pd_DocumentHash d \<noteq> [] then Inr (doc\<lparr>i_Hash := pd_DocumentHash d\<rparr>)
      else
        case files (pd_FileRef d) of
          None \<Rightarrow> Inl (invalidRequest (''missing file part for document '' @ pd_DocumentID d))
        | Some b \<Rightarrow> Inr (doc\<lparr>i_Bytes := b\<rparr>))"

fun input_documents :: "(string \<rightharpoonup> bytes) \<Rightarrow> PrepareDocument list \<Rightarrow> failure + InputDocument list" where
  "input_documents files [] = Inr []"
| "input_documents files (d # ds) =
     (case input_document files d of Inl e \<Rightarrow> Inl e
      | Inr doc \<Rightarrow> (case input_documents files ds of Inl e \<Rightarrow> Inl e | Inr docs \<Rightarrow> Inr (doc # docs)))"

definition prepare_input :: "hreq \<Rightarrow> Flow \<Rightarrow> PrepareMetadata \<Rightarrow> InputDocument list \<Rightarrow> PrepareInput" where
  "prepare_input q flow m docs = \<lparr>pi_Flow = flow, pi_Caller = callerID q, pi_Locale = pm_Locale m,
     pi_SignatureQualifier = pm_SignatureQualifier m, pi_SigningCert = pm_SigningCertificate m,
     pi_AuthCert = pm_AuthCertificate m, pi_SignIdentityID = pm_SignIdentityID m, pi_SealID = pm_SealID m,
     pi_PostAuthRedirect = pm_PostAuthRedirect m, pi_AuthErrorRedirect = pm_AuthErrorRedirect m, pi_Documents = docs\<rparr>"

definition prepare_response :: "PrepareResult \<Rightarrow> PrepareResponse" where
  "prepare_response res =
     (let j = pr_Job res; out = \<lparr>ps_JobID = j_JobID j, ps_Flow = j_Flow j, ps_State = j_State j, ps_Authorization = None,
            ps_SignAlgorithm = [], ps_Documents = []\<rparr> in
      if pr_AuthorizeURL res \<noteq> [] then
        out\<lparr>ps_Authorization := Some \<lparr>az_Type = ''redirect'', az_AuthorizeURL = pr_AuthorizeURL res, az_ExpiresIn = authorizeExpiresIn\<rparr>,
          ps_Documents := map (\<lambda>d. \<lparr>pq_DocumentID = d_DocumentID d, pq_Digest = [], pq_DigestAlgorithm = []\<rparr>) (j_Documents j)\<rparr>
      else
        out\<lparr>ps_SignAlgorithm := pr_SignAlgo res,
          ps_Documents := map (\<lambda>d. \<lparr>pq_DocumentID = do_DocumentID d, pq_Digest = do_Digest d,
            pq_DigestAlgorithm = do_DigestAlgorithm d\<rparr>) (pr_Digests res)\<rparr>)"

definition gate_files :: "web_env \<Rightarrow> Configuration \<Rightarrow> (string \<rightharpoonup> bytes) \<Rightarrow> PrepareDocument list \<Rightarrow> ('r, 'u, unit) handler" where
  "gate_files we c files ds = forE ds (\<lambda>d.
     case files (pd_FileRef d) of None \<Rightarrow> retE () | Some data \<Rightarrow> gateUpload we c ModeSigning (pd_FileName d) data)"

definition query_text :: "hreq \<Rightarrow> string \<Rightarrow> string" where
  "query_text q k = (case hq_query q k of None \<Rightarrow> [] | Some t \<Rightarrow> t)"

definition prepare :: "web_env \<Rightarrow> ('r, 'u) App \<Rightarrow> hreq \<Rightarrow> ('r, 'u, reply) handler" where
  "prepare we a q =
     (let flow = query_text q ''flow''; rc = Some (a_audit a) in
      if \<not> Valid flow then
        failE (invalidRequest (if flow = [] then ''flow is required'' else ''unknown flow: '' @ flow))
      else
        case parsePrepare we q of
          Inl e \<Rightarrow> failE (invalidRequest (err_text e))
        | Inr (m, files) \<Rightarrow>
            bindE (gate_files we (a_config a) files (pm_Documents m)) (\<lambda>_.
            bindE (ofsumE (input_documents files (pm_Documents m))) (\<lambda>docs.
            let inp = prepare_input q flow m docs in
            if IsClientSide flow \<and> pi_SigningCert inp = [] then
              failE (invalidRequest (''signingCertificate is required for the '' @ flow @ '' flow''))
            else
              bindE (call (Prepare (a_orchestrator a) inp)) (\<lambda>r.
              case r of
                Inl e \<Rightarrow> bindE (audit (PrepareOutcome rc (callerID q) False)) (\<lambda>_. failE (mapPrepareErr e))
              | Inr res \<Rightarrow>
                  let j = pr_Job res in
                  bindE (audit (audit_Initiated rc j)) (\<lambda>_.
                  bindE (if pr_AuthorizeURL res \<noteq> [] then audit (audit_Redirect rc j) else retE ()) (\<lambda>_.
                  bindE (if IsClientSide flow \<and> j_SubjectRef j \<noteq> [] then audit (SignerAccessed rc (callerID q) (j_SubjectRef j))
                         else retE ()) (\<lambda>_.
                  bindE (audit (PrepareOutcome rc (callerID q) True)) (\<lambda>_.
                  reply 201 (RPrepare (prepare_response res))))))))))"

section \<open>Callback and client signatures\<close>

definition callback :: "('r, 'u) App \<Rightarrow> hreq \<Rightarrow> ('r, 'u, reply) handler" where
  "callback a q =
     (let state = query_text q ''state''; rc = Some (a_audit a) in
      if state = [] then failE (invalidRequest ''missing state'')
      else
        bindE (call (bindE (Callback (a_orchestrator a) state (query_text q ''code'') (query_text q ''error'' \<noteq> []))
                (\<lambda>redirect. bindE job (\<lambda>j. retE (j, redirect))))) (\<lambda>r.
        case r of
          Inl e \<Rightarrow>
            if err_is e ErrNotFound then failE (problem ''err:signing:invalidState'' (Some 400) (Some ''unknown or expired state''))
            else failE (problem ''err:signing:internal'' None (Some ''callback processing failed''))
        | Inr (j, redirect) \<Rightarrow>
            bindE (audit (audit_Callback rc j (j_State j \<noteq> StateFailed))) (\<lambda>_.
            bindE (if j_State j = StateSigning \<and> j_SubjectRef j \<noteq> [] then audit (SignerAccessed rc (j_Caller j) (j_SubjectRef j))
                   else retE ()) (\<lambda>_.
            if redirect = [] then reply 200 (RText (''authorization '' @ state_str (j_State j)))
            else reply 302 (RRedirect redirect)))))"

definition submit :: "web_env \<Rightarrow> ('r, 'u) App \<Rightarrow> hreq \<Rightarrow> ('r, 'u, reply) handler" where
  "submit we a q =
     (case read_submit we (hq_body q) of
        Inl e \<Rightarrow> failE (Failure e)
      | Inr sigs \<Rightarrow>
          bindE (call (SubmitSignatures (a_orchestrator a) (hq_param q ''jobId'') sigs)) (\<lambda>r.
          case r of
            Inl e \<Rightarrow> failE (mapJobErr e)
          | Inr j \<Rightarrow> reply 202 (RAccepted \<lparr>ad_JobID = j_JobID j, ad_Flow = j_Flow j, ad_State = j_State j\<rparr>)))"

section \<open>Status\<close>

text \<open>
  What happens around a long poll: \<open>pe_sleep\<close> is \<^verbatim>\<open>time.Sleep\<close>, \<open>pe_meanwhile k\<close> what other
  requests and the worker do to Redis during the sleep of round \<open>k\<close>, \<open>pe_cancelled k\<close> whether the
  request's context has ended by then. \<open>pe_rounds\<close> is the number of rounds the model runs at most.
\<close>

record ('r, 'u) poll_env =
  pe_sleep :: "int \<Rightarrow> 'u \<Rightarrow> 'u"
  pe_meanwhile :: "nat \<Rightarrow> 'r \<Rightarrow> 'r"
  pe_cancelled :: "nat \<Rightarrow> bool"
  pe_rounds :: nat

definition pause :: "('r, 'u) poll_env \<Rightarrow> nat \<Rightarrow> (('r, 'u) sys, err, unit) prog" where
  "pause pe k = modE (\<lambda>s. s\<lparr>s_net := (s_net s)\<lparr>n_env := pe_sleep pe (secs 1) (n_env (s_net s))\<rparr>,
     s_redis := pe_meanwhile pe k (s_redis s)\<rparr>)"

fun poll_status :: "('r, 'u) poll_env \<Rightarrow> ('r, 'u) Orchestrator \<Rightarrow> string \<Rightarrow> JobState \<Rightarrow> int \<Rightarrow> nat \<Rightarrow> nat \<Rightarrow> Job \<Rightarrow>
    (('r, 'u) sys, err, Job) prog" where
  "poll_status pe ob jobID initial deadline k 0 j = retE j"
| "poll_status pe ob jobID initial deadline k (Suc n) j =
     bindE (time ob) (\<lambda>t.
     if \<not> t < deadline then retE j
     else if pe_cancelled pe k then retE j
     else
       bindE (pause pe k) (\<lambda>_.
       bindE (tryE (Status ob jobID)) (\<lambda>r.
       case r of
         Inl e \<Rightarrow> retE j
       | Inr j2 \<Rightarrow>
           if j_State j2 \<noteq> initial \<or> Terminal (j_State j2) then retE j2
           else poll_status pe ob jobID initial deadline (Suc k) n j2)))"

definition status_document :: "string \<Rightarrow> Document \<Rightarrow> StatusDocument" where
  "status_document jobID d = \<lparr>sd_DocumentID = d_DocumentID d, sd_State = d_State d,
     sd_DownloadURL = (if d_State d = DocReady then ''/api/v1/signatures/'' @ jobID @ ''/documents/'' @ d_DocumentID d else []),
     sd_Error = map_option (\<lambda>e. (e_Code e, e_Message e)) (d_Error d)\<rparr>"

definition buildStatus :: "Job \<Rightarrow> StatusResponse" where
  "buildStatus j =
     (let scan = j_State j = StateSigning \<and> j_Flow j = FlowEIDScan in
      \<lparr>so_JobID = j_JobID j, so_Flow = j_Flow j, so_State = j_State j,
       so_VerificationCode = (if scan then j_VerificationCode j else []),
       so_VerificationMessage = (if scan then j_VerificationMessage j else []),
       so_SigningDeadline = (if scan then j_SigningDeadline j else 0),
       so_Documents = map (status_document (j_JobID j)) (j_Documents j),
       so_UpdatedAt = rfc3339 (j_UpdatedAt j)\<rparr>)"

definition wait_seconds :: "hreq \<Rightarrow> int" where
  "wait_seconds q = (let wait = (case hq_wait q of Inr (Some w) \<Rightarrow> w | _ \<Rightarrow> 0) in
     if wait > statusLongPollMax then statusLongPollMax else wait)"

definition status_job :: "('r, 'u) poll_env \<Rightarrow> ('r, 'u) Orchestrator \<Rightarrow> string \<Rightarrow> int \<Rightarrow> (('r, 'u) sys, err, Job) prog" where
  "status_job pe ob jobID wait =
     bindE (Status ob jobID) (\<lambda>j.
     if wait > 0 \<and> \<not> Terminal (j_State j) then
       bindE (time ob) (\<lambda>t. poll_status pe ob jobID (j_State j) (t + secs wait) 0 (pe_rounds pe) j)
     else retE j)"

definition emit_final :: "('r, 'u) App \<Rightarrow> Job \<Rightarrow> ('r, 'u, Job) handler" where
  "emit_final a j =
     (if Terminal (j_State j) \<and> \<not> j_AuditFinalEmitted j then
        bindE (audit (if j_State j = StateReady then audit_Applied (Some (a_audit a)) j else audit_Failed (Some (a_audit a)) j)) (\<lambda>_.
        let j' = j\<lparr>j_AuditFinalEmitted := True\<rparr> in
        bindE (call (onRedis (Save (o_jobs (a_orchestrator a)) j'))) (\<lambda>_. retE j'))
      else retE j)"

definition status :: "('r, 'u) poll_env \<Rightarrow> ('r, 'u) App \<Rightarrow> hreq \<Rightarrow> ('r, 'u, reply) handler" where
  "status pe a q =
     bindE (call (status_job pe (a_orchestrator a) (hq_param q ''jobId'') (wait_seconds q))) (\<lambda>r.
     case r of
       Inl e \<Rightarrow> failE (mapJobErr e)
     | Inr j \<Rightarrow> bindE (emit_final a j) (\<lambda>j'. reply 200 (RStatus (buildStatus j'))))"

section \<open>Documents\<close>

definition writeContainer :: "string \<Rightarrow> string \<Rightarrow> string \<Rightarrow> ('r, 'u, reply) handler" where
  "writeContainer contentType filename data =
     bindE (header ''Content-Disposition'' (''attachment; filename='' @ [CHR 0x22] @ filename @ [CHR 0x22])) (\<lambda>_.
     reply 200 (RContainer contentType data))"

definition wants_asice :: "hreq \<Rightarrow> bool" where
  "wants_asice q \<longleftrightarrow> hq_query q ''container'' = Some ''asice''"

definition download :: "('r, 'u) App \<Rightarrow> hreq \<Rightarrow> ('r, 'u, reply) handler" where
  "download a q =
     bindE (call (Download (a_orchestrator a) (hq_param q ''jobId'') (hq_param q ''documentId'') (wants_asice q))) (\<lambda>r.
     case r of
       Inl e \<Rightarrow> failE (downloadErr e)
     | Inr (data, contentType, filename) \<Rightarrow> writeContainer contentType filename data)"

definition deleteJob :: "('r, 'u) App \<Rightarrow> hreq \<Rightarrow> ('r, 'u, reply) handler" where
  "deleteJob a q =
     bindE (call (DeleteJob (a_orchestrator a) (hq_param q ''jobId''))) (\<lambda>r.
     case r of Inl e \<Rightarrow> failE (deleteErr e) | Inr _ \<Rightarrow> reply 204 REmpty)"

definition archive :: "web_env \<Rightarrow> ('r, 'u) App \<Rightarrow> hreq \<Rightarrow> ('r, 'u, reply) handler" where
  "archive we a q =
     (case readSingleUpload q of
        Inl e \<Rightarrow> failE (invalidRequest (err_text e))
      | Inr (fileName, mimeType, data) \<Rightarrow>
          bindE (gateUpload we (a_config a) ModeVerify fileName data) (\<lambda>_.
          let authCert = (case hq_form q ''authCertificate'' of None \<Rightarrow> [] | Some v \<Rightarrow> v) in
          bindE (call (ArchiveUpload (a_orchestrator a) (hq_correlation q) fileName mimeType authCert data)) (\<lambda>r.
          case r of
            Inl e \<Rightarrow> bindE (audit (ArchiveOutcome (Some (a_audit a)) (callerID q) False)) (\<lambda>_. failE (mapArchiveErr e))
          | Inr (archived, contentType, outName) \<Rightarrow>
              bindE (audit (ArchiveOutcome (Some (a_audit a)) (callerID q) True)) (\<lambda>_.
              writeContainer contentType outName archived))))"

definition archiveJobDoc :: "('r, 'u) App \<Rightarrow> hreq \<Rightarrow> ('r, 'u, reply) handler" where
  "archiveJobDoc a q =
     bindE (call (ArchiveJobDocument (a_orchestrator a) (hq_param q ''jobId'') (hq_param q ''documentId'') (wants_asice q))) (\<lambda>r.
     case r of
       Inl e \<Rightarrow> bindE (audit (ArchiveOutcome (Some (a_audit a)) (callerID q) False)) (\<lambda>_. failE (mapArchiveErr e))
     | Inr (archived, contentType, outName) \<Rightarrow>
         bindE (audit (ArchiveOutcome (Some (a_audit a)) (callerID q) True)) (\<lambda>_.
         bindE (call (Status (a_orchestrator a) (hq_param q ''jobId''))) (\<lambda>r2.
         bindE (case r2 of Inl e \<Rightarrow> retE ()
                | Inr j \<Rightarrow> if j_SubjectRef j \<noteq> [] then audit (SignerAccessed (Some (a_audit a)) (j_Caller j) (j_SubjectRef j))
                          else retE ()) (\<lambda>_.
         writeContainer contentType outName archived))))"

definition validate :: "web_env \<Rightarrow> ('r, 'u) App \<Rightarrow> hreq \<Rightarrow> ('r, 'u, reply) handler" where
  "validate we a q =
     (case readSingleUpload q of
        Inl e \<Rightarrow> failE (invalidRequest (err_text e))
      | Inr (fileName, mimeType, data) \<Rightarrow>
          bindE (gateUpload we (a_config a) ModeVerify fileName data) (\<lambda>_.
          bindE (call (Validate (a_orchestrator a) (hq_correlation q) fileName mimeType data)) (\<lambda>r.
          let sid = (case r of Inl e \<Rightarrow> [] | Inr (sid, res) \<Rightarrow> sid);
              res = (case r of Inl e \<Rightarrow> Inl e | Inr (sid, res) \<Rightarrow> res) in
          bindE (if sid \<noteq> [] then header ''X-Validation-Session'' sid else retE ()) (\<lambda>_.
          case res of
            Inl e \<Rightarrow> bindE (audit (ValidateOutcome (Some (a_audit a)) (callerID q) False)) (\<lambda>_.
                       failE (problem ''err:upstream:unavailable'' (Some 502) None))
          | Inr (st, body) \<Rightarrow>
              bindE (audit (ValidateOutcome (Some (a_audit a)) (callerID q) (st div 100 = 2))) (\<lambda>_.
              reply st (RReport body))))))"

section \<open>Probes and information\<close>

definition healthz :: "('r, 'u, reply) handler" where
  "healthz = reply 200 (RProbe ''ok'')"

definition readyz :: "('r, 'u) Orchestrator option \<Rightarrow> ('r, 'u, reply) handler" where
  "readyz wired =
     (case wired of
        None \<Rightarrow> reply 503 (RProbe ''not_ready'')
      | Some ob \<Rightarrow> bindE (call (onRedis (Ping (o_jobs ob)))) (\<lambda>r.
          case r of Inl e \<Rightarrow> reply 503 (RProbe ''not_ready'') | Inr _ \<Rightarrow> reply 200 (RProbe ''ready'')))"

definition info :: "('r, 'u) App \<Rightarrow> ('r, 'u, reply) handler" where
  "info a = reply 200 (RInfo (OfferedFlows (a_orchestrator a)))"

section \<open>Routes\<close>

datatype endpoint =
    EHealthz | EReadyz | ECallback | EInfo | EPrepare | ESubmit | EStatus | EDownload | EArchiveJobDoc | EDeleteJob
  | EValidate | EArchive

definition scopeResource :: string where "scopeResource = ''signatures''"

definition routes :: "('r, 'u) App \<Rightarrow> (string \<times> string \<times> endpoint) list" where
  "routes a = [
     (''GET'', ''/healthz'', EHealthz),
     (''GET'', ''/readyz'', EReadyz),
     (''GET'', CallbackPath (a_config a), ECallback),
     (''GET'', ''/api/v1/info'', EInfo),
     (''POST'', ''/api/v1/signatures/prepare'', EPrepare),
     (''POST'', ''/api/v1/signatures/{jobId}/signatures'', ESubmit),
     (''GET'', ''/api/v1/signatures/{jobId}/status'', EStatus),
     (''GET'', ''/api/v1/signatures/{jobId}/documents/{documentId}'', EDownload),
     (''POST'', ''/api/v1/signatures/{jobId}/documents/{documentId}/archive'', EArchiveJobDoc),
     (''DELETE'', ''/api/v1/signatures/{jobId}'', EDeleteJob),
     (''POST'', ''/api/v1/validations'', EValidate),
     (''POST'', ''/api/v1/archive-timestamps'', EArchive)]"

text \<open>The scope level of a route behind the authentication; the first three are in front of it.\<close>

fun level_of :: "endpoint \<Rightarrow> string option" where
  "level_of EHealthz = None"
| "level_of EReadyz = None"
| "level_of ECallback = None"
| "level_of EInfo = Some ''read''"
| "level_of EPrepare = Some ''create''"
| "level_of ESubmit = Some ''write''"
| "level_of EStatus = Some ''read''"
| "level_of EDownload = Some ''read''"
| "level_of EArchiveJobDoc = Some ''write''"
| "level_of EDeleteJob = Some ''write''"
| "level_of EValidate = Some ''read''"
| "level_of EArchive = Some ''write''"

definition scoped :: "('r, 'u) App \<Rightarrow> string \<Rightarrow> (hreq \<Rightarrow> ('r, 'u, reply) handler) \<Rightarrow> hreq \<Rightarrow> ('r, 'u, reply) handler" where
  "scoped a lvl h q =
     (case hq_user q of
        None \<Rightarrow> failE Panic
      | Some u \<Rightarrow>
          if \<not> us_has u scopeResource lvl then
            bindE (audit (audit_Denied (Some (a_audit a)) (callerID q) (scopeResource @ '':'' @ lvl))) (\<lambda>_. failE Forbidden)
          else h q)"

fun handler_of :: "web_env \<Rightarrow> ('r, 'u) poll_env \<Rightarrow> ('r, 'u) App \<Rightarrow> endpoint \<Rightarrow> hreq \<Rightarrow> ('r, 'u, reply) handler" where
  "handler_of we pe a EHealthz q = healthz"
| "handler_of we pe a EReadyz q = readyz (Some (a_orchestrator a))"
| "handler_of we pe a ECallback q = callback a q"
| "handler_of we pe a EInfo q = info a"
| "handler_of we pe a EPrepare q = prepare we a q"
| "handler_of we pe a ESubmit q = submit we a q"
| "handler_of we pe a EStatus q = status pe a q"
| "handler_of we pe a EDownload q = download a q"
| "handler_of we pe a EArchiveJobDoc q = archiveJobDoc a q"
| "handler_of we pe a EDeleteJob q = deleteJob a q"
| "handler_of we pe a EValidate q = validate we a q"
| "handler_of we pe a EArchive q = archive we a q"

text \<open>
  A request that the framework has routed to \<open>ep\<close>. \<open>authenticate\<close> is the authentication
  middleware: it answers itself, or passes the request on with the user it found.
\<close>

definition serve :: "(hreq \<Rightarrow> failure + user) \<Rightarrow> web_env \<Rightarrow> ('r, 'u) poll_env \<Rightarrow> ('r, 'u) App \<Rightarrow> endpoint \<Rightarrow> hreq \<Rightarrow>
    ('r, 'u, reply) handler" where
  "serve authenticate we pe a ep q =
     bindE (modE (\<lambda>w. w\<lparr>w_headers := []\<rparr>)) (\<lambda>_.
     case level_of ep of
       None \<Rightarrow> handler_of we pe a ep q
     | Some lvl \<Rightarrow>
         (case authenticate q of
            Inl e \<Rightarrow> failE e
          | Inr u \<Rightarrow> scoped a lvl (handler_of we pe a ep) (q\<lparr>hq_user := Some u\<rparr>)))"

end
