(* ===== verification/Api.thy ===== *)
theory Api
  imports Handlers Lifecycle
begin

text \<open>
  The properties of the HTTP interface: what a request is checked for before anything happens,
  what each answer says, which audit events a request leaves, and how long a status request waits.
\<close>

section \<open>Library\<close>

text \<open>The document gate and the checks of a prepare request, as functions of the request alone.\<close>

definition gate_problem :: "web_env \<Rightarrow> Configuration \<Rightarrow> Mode \<Rightarrow> string \<Rightarrow> bytes \<Rightarrow> failure option" where
  "gate_problem we c mode filename data =
     (if g_UploadHardening c then
        map_option (\<lambda>e. Problem \<lparr>pb_code = (if we_too_large we e then ''err:signing:fileTooLarge'' else ''err:signing:uploadRejected''),
          pb_status = Some (if we_too_large we e then 413 else 422),
          pb_title = Some (if we_too_large we e then ''File too large'' else ''Upload rejected''),
          pb_detail = Some (err_text e), pb_public = None\<rparr>) (we_docgate we mode filename data (g_MaxUploadBytes c))
      else None)"

lemma gateUpload_problem:
  "gateUpload we c mode f d = (case gate_problem we c mode f d of None \<Rightarrow> retE () | Some e \<Rightarrow> failE e)"
  by (simp add: gateUpload_def gate_problem_def split: option.split)

definition first_problem :: "web_env \<Rightarrow> Configuration \<Rightarrow> (string \<rightharpoonup> bytes) \<Rightarrow> PrepareDocument list \<Rightarrow> failure option" where
  "first_problem we c files ds =
     (case List.map_filter (\<lambda>d. Option.bind (files (pd_FileRef d)) (gate_problem we c ModeSigning (pd_FileName d))) ds of
        [] \<Rightarrow> None | e # es \<Rightarrow> Some e)"

lemma gate_files_problem:
  "gate_files we c files ds = (case first_problem we c files ds of None \<Rightarrow> retE () | Some e \<Rightarrow> failE e)"
  unfolding gate_files_def first_problem_def
  by (induction ds) (simp_all add: map_filter_simps gateUpload_problem run_defs fun_eq_iff split: option.split list.split)

definition prepare_request :: "web_env \<Rightarrow> Configuration \<Rightarrow> hreq \<Rightarrow> failure + PrepareInput" where
  "prepare_request we c q =
     (let flow = query_text q ''flow'' in
      if \<not> Valid flow then Inl (invalidRequest (if flow = [] then ''flow is required'' else ''unknown flow: '' @ flow))
      else
        case parsePrepare we q of
          Inl e \<Rightarrow> Inl (invalidRequest (err_text e))
        | Inr (m, files) \<Rightarrow>
            (case first_problem we c files (pm_Documents m) of
               Some e \<Rightarrow> Inl e
             | None \<Rightarrow>
                 (case input_documents files (pm_Documents m) of
                    Inl e \<Rightarrow> Inl e
                  | Inr docs \<Rightarrow>
                      if IsClientSide flow \<and> pm_SigningCertificate m = [] then
                        Inl (invalidRequest (''signingCertificate is required for the '' @ flow @ '' flow''))
                      else Inr (prepare_input q flow m docs))))"

definition prepared_events :: "Recorder \<Rightarrow> string \<Rightarrow> PrepareResult \<Rightarrow> Flow \<Rightarrow> AuditEvent list" where
  "prepared_events rc caller res flow =
     audit_Initiated (Some rc) (pr_Job res) @
     (if pr_AuthorizeURL res \<noteq> [] then audit_Redirect (Some rc) (pr_Job res) else []) @
     (if IsClientSide flow \<and> j_SubjectRef (pr_Job res) \<noteq> [] then SignerAccessed (Some rc) caller (j_SubjectRef (pr_Job res)) else []) @
     PrepareOutcome (Some rc) caller True"

lemma prepare_request_flow: "prepare_request we c q = Inr inp \<Longrightarrow> pi_Flow inp = query_text q ''flow''"
  by (auto simp: prepare_request_def prepare_input_def Let_def split: if_splits sum.splits option.splits)

lemma prepare_run:
  "prepare we a q w =
     (case prepare_request we (a_config a) q of
        Inl e \<Rightarrow> (Inl e, w)
      | Inr inp \<Rightarrow>
          (case Prepare (a_orchestrator a) inp (w_sys w) of
             (Inl e, s) \<Rightarrow> (Inl (mapPrepareErr e),
                w\<lparr>w_sys := s, w_trail := w_trail w @ PrepareOutcome (Some (a_audit a)) (callerID q) False\<rparr>)
           | (Inr res, s) \<Rightarrow> (Inr \<lparr>rp_status = 201, rp_body = RPrepare (prepare_response res)\<rparr>,
                w\<lparr>w_sys := s, w_trail := w_trail w @ prepared_events (a_audit a) (callerID q) res (pi_Flow inp)\<rparr>)))"
proof (cases "prepare_request we (a_config a) q")
  case (Inl e)
  then consider (flow) "\<not> Valid (query_text q ''flow'')" | (parse) x where "Valid (query_text q ''flow'')" "parsePrepare we q = Inl x"
    | (gate) m files where "Valid (query_text q ''flow'')" "parsePrepare we q = Inr (m, files)"
        "first_problem we (a_config a) files (pm_Documents m) = Some e"
    | (docs) m files where "Valid (query_text q ''flow'')" "parsePrepare we q = Inr (m, files)"
        "first_problem we (a_config a) files (pm_Documents m) = None" "input_documents files (pm_Documents m) = Inl e"
    | (cert) m files xs where "Valid (query_text q ''flow'')" "parsePrepare we q = Inr (m, files)"
        "first_problem we (a_config a) files (pm_Documents m) = None" "input_documents files (pm_Documents m) = Inr xs"
        "IsClientSide (query_text q ''flow'')" "pm_SigningCertificate m = []"
    by (auto simp: prepare_request_def Let_def split: sum.splits option.splits if_splits)
  then have "prepare we a q = failE e"
    by cases (use Inl in \<open>simp_all add: prepare_def prepare_request_def Let_def gate_files_problem prepare_input_def run_defs\<close>)
  with Inl show ?thesis by (simp add: failE_def)
next
  case (Inr inp)
  then obtain m files docs where checks: "Valid (query_text q ''flow'')" "parsePrepare we q = Inr (m, files)"
      "first_problem we (a_config a) files (pm_Documents m) = None" "input_documents files (pm_Documents m) = Inr docs"
      "\<not> (IsClientSide (query_text q ''flow'') \<and> pm_SigningCertificate m = [])"
    and inp: "inp = prepare_input q (query_text q ''flow'') m docs"
    unfolding prepare_request_def Let_def by (auto split: sum.splits option.splits if_splits)
  have flow: "pi_SigningCert inp = pm_SigningCertificate m" "pi_Flow inp = query_text q ''flow''"
    by (simp_all add: inp prepare_input_def)
  show ?thesis
    unfolding prepare_def gate_files_problem Let_def checks(2) prod.case sum.case checks(3) option.case inp [symmetric] Inr
    using checks(1,4,5) flow
    by (cases "Prepare (a_orchestrator a) inp (w_sys w)"; cases "fst (Prepare (a_orchestrator a) inp (w_sys w))")
       (auto simp: run_defs call_def audit_def reply_def prepared_events_def inp [symmetric])
qed

text \<open>What the checks guarantee of a request that passed them.\<close>

definition document_ok :: "InputDocument \<Rightarrow> bool" where
  "document_ok d \<longleftrightarrow> i_DocumentID d \<noteq> [] \<and> i_FileName d \<noteq> [] \<and> i_Format d \<in> {FormatPAdES, FormatXAdES} \<and>
     list_all (\<lambda>f. if_Name f \<noteq> [] \<and> if_Digest f \<noteq> []) (i_Files d) \<and>
     length (filter id [i_Files d \<noteq> [], i_Hash d \<noteq> [], i_Bytes d \<noteq> []]) \<le> 1"

lemma input_document_ok:
  assumes v: "valid_document d" and i: "input_document files d = Inr x"
  shows "document_ok x \<and> i_DocumentID x = pd_DocumentID d"
proof -
  have "pd_DocumentID d \<noteq> []" "pd_FileName d \<noteq> []" "pd_SignatureFormat d \<in> {FormatPAdES, FormatXAdES}"
    "list_all (\<lambda>f. pf_Name f \<noteq> [] \<and> pf_Digest f \<noteq> []) (pd_Files d)"
    using v by (simp_all add: valid_document_def FormatPAdES_def FormatXAdES_def valid_file_def [abs_def])
  moreover have "i_DocumentID x = pd_DocumentID d" "i_FileName x = pd_FileName d" "i_Format x = pd_SignatureFormat d"
    "i_Files x = map (\<lambda>f. InputFile (pf_Name f) (pf_Digest f) (pf_DigestAlgorithm f)) (pd_Files d)"
    "i_Files x = [] \<or> i_Hash x = []" "i_Files x = [] \<and> i_Hash x = [] \<or> i_Bytes x = []"
    using i unfolding input_document_def Let_def by (auto split: if_splits option.splits)
  ultimately show ?thesis
    by (cases "i_Files x = []"; cases "i_Hash x = []") (simp_all add: document_ok_def list.pred_map comp_def)
qed

lemma input_documents_ok:
  "list_all valid_document ds \<Longrightarrow> input_documents files ds = Inr xs \<Longrightarrow>
     list_all document_ok xs \<and> map i_DocumentID xs = map pd_DocumentID ds"
  by (induction ds arbitrary: xs) (auto split: sum.splits dest: input_document_ok)

lemma input_documents_fail: "input_documents files ds = Inl e \<Longrightarrow> \<exists>t. e = invalidRequest t"
  by (induction ds) (auto simp: input_document_def Let_def split: sum.splits if_splits option.splits)

lemma parsePrepare_valid: "parsePrepare we q = Inr (m, files) \<Longrightarrow> valid_metadata m"
  by (auto simp: parsePrepare_def read_metadata_def split: if_splits sum.splits option.splits)

lemma first_problem_status: "first_problem we c files ds = Some e \<Longrightarrow> \<exists>p. e = Problem p \<and> pb_status p \<in> {Some 413, Some 422}"
  by (auto simp: first_problem_def map_filter_def gate_problem_def bind_eq_Some_conv Cons_eq_map_conv filter_eq_Cons_iff
      split: list.splits if_splits)

lemma prepare_request_wf:
  assumes "prepare_request we c q = Inr inp"
  shows "Valid (pi_Flow inp) \<and> pi_Caller inp = callerID q \<and> pi_Documents inp \<noteq> [] \<and>
    list_all document_ok (pi_Documents inp) \<and> (IsClientSide (pi_Flow inp) \<longrightarrow> pi_SigningCert inp \<noteq> [])"
proof -
  from assms obtain m files docs where m: "parsePrepare we q = Inr (m, files)" "input_documents files (pm_Documents m) = Inr docs"
    and ok: "Valid (query_text q ''flow'')" "\<not> (IsClientSide (query_text q ''flow'') \<and> pm_SigningCertificate m = [])"
    and inp: "inp = prepare_input q (query_text q ''flow'') m docs"
    by (auto simp: prepare_request_def Let_def split: if_splits sum.splits option.splits)
  from parsePrepare_valid [OF m(1)] have "list_all valid_document (pm_Documents m)" "pm_Documents m \<noteq> []"
    by (simp_all add: valid_metadata_def)
  with input_documents_ok [OF this(1) m(2)] ok show ?thesis by (auto simp: inp prepare_input_def)
qed

subsection \<open>The audit trail\<close>

lemma trail_call [keeps_intros]: "keeps w_trail (call m)"
  unfolding call_def by (intro keeps_intros keeps_liftE) simp

lemma trail_header [keeps_intros]: "keeps w_trail (header k v)" "keeps w_trail (reply st b)"
  unfolding header_def reply_def by (intro keeps_intros; simp)+

lemma trail_gate [keeps_intros]: "keeps w_trail (gateUpload we c mode f d)" "keeps w_trail (gate_files we c files ds)"
  unfolding gateUpload_problem gate_files_problem by (intro keeps_intros)+

text \<open>A predicate of every event ever handed over, kept by a program that hands over only such events.\<close>

definition trail_all :: "(AuditEvent \<Rightarrow> bool) \<Rightarrow> ('r, 'u) web \<Rightarrow> bool" where
  "trail_all P w \<longleftrightarrow> list_all P (w_trail w)"

lemma trail_pres: "keeps w_trail m \<Longrightarrow> pres (trail_all P) m"
  by (erule pres_keeps) (simp add: trail_all_def)

lemma trail_audit: "list_all P es \<Longrightarrow> pres (trail_all P) (audit es)"
  unfolding audit_def by (rule pres_modE) (simp add: trail_all_def)

lemma trail_pres_ops [pres_intros]:
  "pres (trail_all P) (call m)" "pres (trail_all P) (header k v)" "pres (trail_all P) (reply st b)"
  "pres (trail_all P) (gateUpload we c mode f d)" "pres (trail_all P) (gate_files we c files ds)"
  by (rule trail_pres, intro keeps_intros)+

lemmas trail_audits [pres_intros] = audit_pseudonymous [THEN trail_audit]

lemma writeContainer_trail [pres_intros]: "pres (trail_all P) (writeContainer ct f d)"
  unfolding writeContainer_def by (intro pres_intros)

lemma emit_final_trail [pres_intros]: "pres (trail_all pseudonymous) (emit_final a j)"
  unfolding emit_final_def Let_def by (intro pres_intros trail_audit) simp_all

lemmas handler_defs = healthz_def readyz_def callback_def info_def prepare_def submit_def status_def download_def
  archiveJobDoc_def deleteJob_def validate_def archive_def

lemma handler_trail: "pres (trail_all pseudonymous) (handler_of we pe a ep q)"
  by (cases ep; hypsubst; unfold handler_of.simps handler_defs Let_def; intro pres_intros)

subsection \<open>A demonstration\<close>

definition demo_web_env :: web_env where
  "demo_web_env = \<lparr>we_docgate = (\<lambda>mode f d n. if n < int (length d) then Some (ErrOther ''too large'') else None),
     we_too_large = (\<lambda>e. e = ErrOther ''too large''), we_invalid_metadata = (\<lambda>m. ErrOther ''invalid metadata''),
     we_invalid_submit = (\<lambda>s. ErrOther ''invalid signatures'')\<rparr>"

definition demo_metadata :: json where
  "demo_metadata = JObj [(''documents'', JArr [JObj [(''documentId'', JStr ''doc''), (''fileName'', JStr ''a.pdf''),
     (''signatureFormat'', JStr ''PAdES''), (''documentHash'', JStr ''AAAA'')]]), (''signingCertificate'', JStr ''cert'')]"

definition demo_hreq :: "Flow \<Rightarrow> hreq" where
  "demo_hreq flow = \<lparr>hq_query = (\<lambda>k. if k = ''flow'' then Some flow else None), hq_wait = Inr (Some 100), hq_param = (\<lambda>k. ''J''),
     hq_ctype = ''application/json'', hq_metadata = Inl (ErrOther ''no form''), hq_form = (\<lambda>k. None), hq_file = (\<lambda>k. None),
     hq_body = Inr \<lparr>p_text = ''json'', p_json = Some demo_metadata\<rparr>, hq_user = None, hq_correlation = ''c''\<rparr>"

definition demo_poll :: "(mem_state, script) poll_env" where
  "demo_poll = \<lparr>pe_sleep = (\<lambda>d u. u\<lparr>sc_clock := sc_clock u + d\<rparr>), pe_meanwhile = (\<lambda>k r. r), pe_cancelled = (\<lambda>k. False), pe_rounds = 40\<rparr>"

definition demo_web :: "Job \<Rightarrow> (mem_state, script) web" where
  "demo_web j = \<lparr>w_sys = demo_sys (demo_stored j) [] j, w_trail = [], w_headers = []\<rparr>"

definition demo_caller :: user where
  "demo_caller = \<lparr>us_authorized = True, us_id = ''svc:portal'', us_has = (\<lambda>r l. l = ''read'')\<rparr>"

lemma demo_request_ok: "\<exists>inp. prepare_request demo_web_env (a_config demo_app) (demo_hreq ''webEid'') = Inr inp \<and> pi_Flow inp = ''webEid''"
proof -
  have "case prepare_request demo_web_env (demo_settings demo_vars) (demo_hreq ''webEid'') of
      Inl e \<Rightarrow> False | Inr inp \<Rightarrow> pi_Flow inp = ''webEid''" by code_simp
  then show ?thesis by (auto simp: demo_app_def wire_app_def split: sum.splits)
qed

section \<open>Properties\<close>

text \<open>
  C9: A prepare request is checked completely before anything happens. What the handler does is
  decided by the request alone: a request that fails a check is answered with that problem and
  leaves the store, the upstream services and the audit trail exactly as they were; any other is
  handed to the orchestrator once, and what follows is the orchestrator's work: 201 with its result
  and the events of a started signing, or the mapped error and one failed outcome. A check fails
  only with status 400, 413 or 422.
\<close>

theorem prepare_checks_first:
  "prepare we a q w =
     (case prepare_request we (a_config a) q of
        Inl e \<Rightarrow> (Inl e, w)
      | Inr inp \<Rightarrow>
          (case Prepare (a_orchestrator a) inp (w_sys w) of
             (Inl e, s) \<Rightarrow> (Inl (mapPrepareErr e),
                w\<lparr>w_sys := s, w_trail := w_trail w @ PrepareOutcome (Some (a_audit a)) (callerID q) False\<rparr>)
           | (Inr res, s) \<Rightarrow> (Inr \<lparr>rp_status = 201, rp_body = RPrepare (prepare_response res)\<rparr>,
                w\<lparr>w_sys := s, w_trail := w_trail w @ prepared_events (a_audit a) (callerID q) res (pi_Flow inp)\<rparr>))) \<and>
   (case prepare_request we (a_config a) q of
      Inl e \<Rightarrow> \<exists>p. e = Problem p \<and> pb_status p \<in> {Some 400, Some 413, Some 422}
    | Inr _ \<Rightarrow> True)"
proof
  show "case prepare_request we (a_config a) q of
      Inl e \<Rightarrow> \<exists>p. e = Problem p \<and> pb_status p \<in> {Some 400, Some 413, Some 422} | Inr _ \<Rightarrow> True"
    by (auto simp: prepare_request_def Let_def invalidRequest_def problem_def split: sum.split option.split
        dest!: input_documents_fail first_problem_status)
qed (rule prepare_run)

text \<open>
  C21: What reaches the orchestrator is well formed. Of a prepare request that passed the checks, the
  flow is one of the service's, the caller is the authenticated one, there is at least one document,
  each has an id, a file name and one of the two formats, and is given in at most one of the three
  ways (inner files with name and digest, a digest, bytes); a client-side flow has its signing
  certificate.
\<close>

theorem prepare_input_well_formed:
  assumes "prepare_request we c q = Inr inp"
  shows "Valid (pi_Flow inp) \<and> pi_Caller inp = callerID q \<and> pi_Documents inp \<noteq> [] \<and>
    list_all document_ok (pi_Documents inp) \<and> (IsClientSide (pi_Flow inp) \<longrightarrow> pi_SigningCert inp \<noteq> [])"
  using prepare_request_wf [OF assms] .

theorem prepare_input_well_formed_witness:
  "\<exists>inp. prepare_request demo_web_env (a_config demo_app) (demo_hreq ''webEid'') = Inr inp \<and> list_all document_ok (pi_Documents inp) \<and>
     pi_SigningCert inp \<noteq> []"
proof -
  from demo_request_ok obtain inp where i: "prepare_request demo_web_env (a_config demo_app) (demo_hreq ''webEid'') = Inr inp"
    and f: "pi_Flow inp = ''webEid''" by blast
  have "IsClientSide ''webEid''" by code_simp
  with prepare_input_well_formed [OF i] i f show ?thesis by auto
qed

text \<open>
  C10: No request works without its scope. A request to any route but the two probes and the browser
  callback that the authentication does not let through, or whose user lacks the scope level of
  its route, reaches no handler: the store, the upstream services and the rest of the state stay as
  they were; a lacking scope is answered with 403 and recorded, with the scope that was needed.
\<close>

theorem scope_guards_routes:
  assumes "ep \<notin> {EHealthz, EReadyz, ECallback}"
    and "case authenticate q of Inl e \<Rightarrow> True | Inr u \<Rightarrow> \<not> us_has u ''signatures'' (the (level_of ep))"
  shows "serve authenticate we pe a ep q w =
    (case authenticate q of
       Inl e \<Rightarrow> (Inl e, w\<lparr>w_headers := []\<rparr>)
     | Inr u \<Rightarrow> (Inl Forbidden, w\<lparr>w_headers := [], w_trail := w_trail w @
         audit_Denied (Some (a_audit a)) (if us_authorized u then us_id u else []) (''signatures:'' @ the (level_of ep))\<rparr>))"
  using assms
  by (cases ep; cases "authenticate q")
     (auto simp: serve_def scoped_def scopeResource_def callerID_def audit_def run_defs)

theorem scope_guards_routes_witness:
  "serve (\<lambda>q. Inr demo_caller) demo_web_env demo_poll demo_app EDeleteJob (demo_hreq []) (demo_web demo_job) =
     (Inl Forbidden, (demo_web demo_job)\<lparr>w_trail := [AuthZDenied \<lparr>dn_Actor = service ''svc:portal'',
        dn_RequiredScope = ''signatures:write'', dn_Reason = ''missing scope''\<rparr>]\<rparr>)"
  using scope_guards_routes [of EDeleteJob "\<lambda>q. Inr demo_caller" "demo_hreq []" demo_web_env demo_poll demo_app "demo_web demo_job"]
  by (simp add: demo_caller_def audit_Denied_def has_sec_def demo_app_def wire_app_def NewRecorder_def demo_web_def)

text \<open>
  C20: No raw national id is recorded. Whatever requests are served, every access record handed to
  the access audit names its data subjects only by pseudonyms: the prefix \<open>psn:\<close> and 64
  hexadecimal digits.
\<close>

theorem access_records_pseudonymous:
  assumes "list_all (\<lambda>e. case e of AccessRecord r \<Rightarrow> list_all is_pseudonym (ax_DataSubjects r) | _ \<Rightarrow> True) (w_trail w)"
  shows "list_all (\<lambda>e. case e of AccessRecord r \<Rightarrow> list_all is_pseudonym (ax_DataSubjects r) | _ \<Rightarrow> True)
    (w_trail (snd (serve authenticate we pe a ep q w)))"
proof -
  have "pres (trail_all pseudonymous) (serve authenticate we pe a ep q)"
    unfolding serve_def scoped_def by (intro pres_intros handler_trail) (simp add: trail_all_def)
  with assms show ?thesis by (simp add: pres_def trail_all_def pseudonymous_def [abs_def])
qed

theorem access_records_pseudonymous_witness:
  "list_all (\<lambda>e. case e of AccessRecord r \<Rightarrow> list_all is_pseudonym (ax_DataSubjects r) | _ \<Rightarrow> True)
    (w_trail (snd (serve (\<lambda>q. Inr demo_caller) demo_web_env demo_poll demo_app EInfo (demo_hreq [])
      ((demo_web demo_job)\<lparr>w_trail := SignerAccessed (Some (a_audit demo_app)) ''svc'' ''PNOLV-1''\<rparr>))))"
proof (rule access_records_pseudonymous)
  show "list_all (\<lambda>e. case e of AccessRecord r \<Rightarrow> list_all is_pseudonym (ax_DataSubjects r) | _ \<Rightarrow> True)
    (w_trail ((demo_web demo_job)\<lparr>w_trail := SignerAccessed (Some (a_audit demo_app)) ''svc'' ''PNOLV-1''\<rparr>))"
    using audit_pseudonymous(6) [of "Some (a_audit demo_app)" "''svc''" "''PNOLV-1''"] by (simp add: pseudonymous_def [abs_def])
qed

text \<open>
  C22: What \<open>/info\<close> lists is what \<open>/prepare\<close> accepts. A flow is listed exactly when it is a flow of
  the service that this deployment offers. A request that passed the checks for a flow that is not
  listed is refused with 501, or for its batch, before anything is stored or sent; one for a listed
  flow is never refused as unknown, not offered or not enabled.
\<close>

theorem info_matches_prepare:
  assumes "prepare_request we (a_config a) q = Inr inp"
  shows "\<exists>fs. info a w = (Inr \<lparr>rp_status = 200, rp_body = RInfo fs\<rparr>, w) \<and>
    (pi_Flow inp \<in> set fs \<longrightarrow>
       prepare_refusal (a_orchestrator a) inp \<notin> {Some ErrUnknownFlow, Some ErrFlowNotOffered, Some ErrCSCNotEnabled}) \<and>
    (pi_Flow inp \<notin> set fs \<longrightarrow>
       (\<exists>p. prepare we a q w = (Inl (Problem p), w\<lparr>w_trail := w_trail w @ PrepareOutcome (Some (a_audit a)) (callerID q) False\<rparr>) \<and>
          (pb_status p = Some 501 \<or> pb_code p \<in> {''err:signing:mixedFormat'', ''err:signing:batchNotSupported''})))"
proof -
  have wf: "Valid (pi_Flow inp)" "pi_Documents inp \<noteq> []" using prepare_request_wf [OF assms] by auto
  let ?ob = "a_orchestrator a"
  have listed: "pi_Flow inp \<in> set (OfferedFlows ?ob) \<longleftrightarrow> Offered ?ob (pi_Flow inp)"
    using wf by (simp add: OfferedFlows_def Valid_iff_listed)
  have known: "flows (pi_Flow inp) \<noteq> None" using wf(1) unfolding flows_listed Valid_iff_listed .
  have refused: "\<exists>e. prepare_refusal ?ob inp = Some e \<and> e \<in> {ErrBatchUnsupport, ErrMixedFormat, ErrCSCNotEnabled, ErrFlowNotOffered}"
    if "\<not> Offered ?ob (pi_Flow inp)"
    using that known wf by (auto simp: prepare_refusal_def validateBatch_def split: option.splits list.splits)
  have "\<exists>p. prepare we a q w = (Inl (Problem p), w\<lparr>w_trail := w_trail w @ PrepareOutcome (Some (a_audit a)) (callerID q) False\<rparr>) \<and>
      (pb_status p = Some 501 \<or> pb_code p \<in> {''err:signing:mixedFormat'', ''err:signing:batchNotSupported''})"
    if "\<not> Offered ?ob (pi_Flow inp)"
    using refused [OF that] unfolding prepare_run assms sum.case
    by (auto simp: Prepare_def failE_def mapPrepareErr_def problem_def)
  moreover have "prepare_refusal ?ob inp \<notin> {Some ErrUnknownFlow, Some ErrFlowNotOffered, Some ErrCSCNotEnabled}"
    if "Offered ?ob (pi_Flow inp)"
    using that known by (auto simp: prepare_refusal_def validateBatch_def split: option.splits list.splits if_splits)
  ultimately show ?thesis
    using listed by (intro exI [of _ "OfferedFlows ?ob"]) (auto simp: info_def reply_def retE_def)
qed

theorem info_matches_prepare_witness:
  "''legacyEid'' \<notin> set (OfferedFlows (a_orchestrator demo_app)) \<and>
   (\<exists>p w'. prepare demo_web_env demo_app (demo_hreq ''legacyEid'') (demo_web demo_job) = (Inl (Problem p), w') \<and>
     w_sys w' = w_sys (demo_web demo_job))"
proof -
  have "case prepare_request demo_web_env (demo_settings demo_vars) (demo_hreq ''legacyEid'') of
      Inl e \<Rightarrow> False | Inr inp \<Rightarrow> pi_Flow inp = ''legacyEid''" by code_simp
  then obtain inp where i: "prepare_request demo_web_env (a_config demo_app) (demo_hreq ''legacyEid'') = Inr inp"
    and f: "pi_Flow inp = ''legacyEid''" by (auto simp: demo_app_def wire_app_def split: sum.splits)
  have n: "''legacyEid'' \<notin> set (OfferedFlows (a_orchestrator demo_app))" by code_simp
  with f info_matches_prepare [OF i, of "demo_web demo_job"] obtain p where
    "prepare demo_web_env demo_app (demo_hreq ''legacyEid'') (demo_web demo_job) = (Inl (Problem p),
       (demo_web demo_job)\<lparr>w_trail := w_trail (demo_web demo_job) @ PrepareOutcome (Some (a_audit demo_app)) (callerID (demo_hreq ''legacyEid'')) False\<rparr>)"
    by (auto simp: info_def reply_def retE_def)
  with n show ?thesis by simp
qed

definition sentinels :: "err list" where
  "sentinels = [ErrNotFound, ErrUnknownFlow, ErrNotClientFlow, ErrWrongState, ErrCSCNotEnabled, ErrBatchUnsupport, ErrMixedFormat,
     ErrNoAuthCert, ErrFlowNotOffered, ErrNoTimestampCert, ErrDocumentRejected, ErrBadSignatureEncoding]"



text \<open>
  An empty file part is not a file to the orchestrator, which tells a document by its bytes: it is
  registered as a document without bytes whose digest is the empty text.
\<close>

lemma empty_file_is_digest:
  assumes "pd_Files d = []" and "pd_DocumentHash d = []" and "files (pd_FileRef d) = Some []"
  obtains x where "input_document files d = Inr x" "d_HashOnly (new_document x)"
    "upload_document ob jobID sid x = mapErrE (ErrPre (''add digest '' @ quoted (pd_DocumentID d) @ '': ''))
       (onNet (AddDocumentDigest (o_signapi ob) jobID sid [HashFile (pd_FileName d) [] (signapiDocDigestAlgo (pd_DigestAlgorithm d))] 0))"
  using assms by (auto simp: input_document_def Let_def new_document_def upload_document_def hashFilesFor_def)

end
