(* ===== verification/Polling.thy ===== *)
theory Polling
  imports Api
begin

text \<open>
  The status request: how long it waits, and the audit events of a job that has ended, which are
  handed over by the first status request that sees it.
\<close>

section \<open>Library\<close>

lemma wait_seconds_max: "wait_seconds q \<le> 30"
  by (simp add: wait_seconds_def statusLongPollMax_def Let_def)

context clocked
begin

lemma time_step:
  assumes "o_env ob = e"
  obtains t n where "time ob s = (Inr t, s\<lparr>s_net := n\<rparr>)" "clock (n_env (s_net s)) \<le> t" "t \<le> clock (n_env n)"
proof (cases "now e (s_net s) :: (err + int) \<times> 'u net")
  case (Pair r n)
  have "wp (now e) (\<lambda>t w'. clock (n_env (s_net s)) \<le> t \<and> t \<le> clock (n_env w')) (\<lambda>(_ :: err) _. False) (s_net s)"
    by (rule time_clock)
  with Pair obtain t where "r = Inr t" "clock (n_env (s_net s)) \<le> t" "t \<le> clock (n_env n)"
    unfolding wp_def by (cases r) auto
  with Pair assms that [of t n] show ?thesis by (simp add: time_def onNet_def liftE_def)
qed

text \<open>One round of the poll.\<close>

lemma poll_round:
  assumes "time ob s = (Inr t, s1)"
  shows "poll_status pe ob i st deadline k (Suc n) j s =
    (if \<not> t < deadline \<or> pe_cancelled pe k then (Inr j, s1)
     else case Status ob i (snd (pause pe k s1)) of
       (Inl x, s2) \<Rightarrow> (Inr j, s2)
     | (Inr j2, s2) \<Rightarrow> if j_State j2 \<noteq> st \<or> Terminal (j_State j2) then (Inr j2, s2)
                      else poll_status pe ob i st deadline (Suc k) n j2 s2)"
  using assms by (simp add: bindE_def tryE_def pause_def modE_def retE_def split: prod.split sum.split)

text \<open>A deadline that \<open>n\<close> sleeps reach ends the poll in \<open>n + 1\<close> rounds, so further ones change nothing.\<close>

lemma poll_status_rounds:
  assumes e: "o_env ob = e" and sleep: "\<And>d u. clock u + d \<le> clock (pe_sleep pe d u)"
    and "deadline \<le> clock (n_env (s_net s)) + int n * secs 1"
  shows "poll_status pe ob i st deadline k (Suc (n + m)) j s = poll_status pe ob i st deadline k (Suc n) j s"
  using assms(3)
proof (induction n arbitrary: k j s)
  case 0
  obtain t w where "time ob s = (Inr t, s\<lparr>s_net := w\<rparr>)" "clock (n_env (s_net s)) \<le> t" by (rule time_step [OF e])
  with 0 show ?case by (simp add: poll_round del: poll_status.simps)
next
  case (Suc n)
  obtain t w where t: "time ob s = (Inr t, s\<lparr>s_net := w\<rparr>)" "clock (n_env (s_net s)) \<le> t" "t \<le> clock (n_env w)"
    by (rule time_step [OF e])
  let ?s = "snd (pause pe k (s\<lparr>s_net := w\<rparr>))"
  have "clock (n_env (s_net s)) + secs 1 \<le> clock (n_env (s_net ?s))"
    using t(2,3) sleep [of "n_env w" "secs 1"] by (simp add: pause_def modE_def)
  moreover have "s_net (snd (Status ob i s')) = s_net s'" for s'
    by (simp add: Status_def onRedis_def liftE_def split: prod.split)
  ultimately have "deadline \<le> clock (n_env (s_net (snd (Status ob i ?s)))) + int n * secs 1"
    using Suc.prems by (simp add: secs_def)
  from Suc.IH [OF this] show ?case
    by (auto simp: poll_round [OF t(1)] simp del: poll_status.simps split: prod.split sum.split)
qed

end

context running
begin

text \<open>A status request for a job that has ended.\<close>

definition final_events :: "Recorder \<Rightarrow> Job \<Rightarrow> AuditEvent list" where
  "final_events rc j =
     (if j_AuditFinalEmitted j then []
      else if j_State j = StateReady then audit_Applied (Some rc) j else audit_Failed (Some rc) j)"

lemma status_ended:
  assumes up: "up (s_redis (w_sys w))" and j: "jobsR (s_redis (w_sys w)) i = Some j" "j_JobID j = i" "Terminal (j_State j)"
    and a: "a_orchestrator a = ob" and q: "hq_param q ''jobId'' = i"
  shows "wp (status pe a q)
    (\<lambda>rp w'. rp = \<lparr>rp_status = 200, rp_body = RStatus (buildStatus j)\<rparr> \<and> w_trail w' = w_trail w @ final_events (a_audit a) j \<and>
       up (s_redis (w_sys w')) \<and> jobsR (s_redis (w_sys w')) i = Some (j\<lparr>j_AuditFinalEmitted := True\<rparr>)) (\<lambda>_ _. False) w"
proof -
  have same: "buildStatus (j\<lparr>j_AuditFinalEmitted := True\<rparr>) = buildStatus j" by (simp add: buildStatus_def Let_def)
  have noop: "j\<lparr>j_AuditFinalEmitted := True\<rparr> = j" if "j_AuditFinalEmitted j" using that by (cases j) simp
  have emit: "wp (emit_final a j) (\<lambda>j' w'. buildStatus j' = buildStatus j \<and> w_trail w' = w_trail w1 @ final_events (a_audit a) j \<and>
      up (s_redis (w_sys w')) \<and> jobsR (s_redis (w_sys w')) i = Some (j\<lparr>j_AuditFinalEmitted := True\<rparr>)) (\<lambda>_ _. False) w1"
    if "up (s_redis (w_sys w1))" "jobsR (s_redis (w_sys w1)) i = Some j" for w1
    using that j(2,3) unfolding emit_final_def Let_def a jobs_S
    by (auto simp: wp_rules final_events_def same noop wp_onRedis intro!: wp_mono [OF Save_up])
  show ?thesis
    unfolding status_def status_job_def Status_def wp_bindE wp_call q a jobs_S
    by (rule wp_Load [OF up j(1)])
       (use j in \<open>auto simp: wp_rules intro!: wp_mono [OF emit]\<close>)
qed

lemma statuses_ended:
  assumes "up (s_redis (w_sys w))" and "jobsR (s_redis (w_sys w)) i = Some j" "j_JobID j = i" "Terminal (j_State j)"
    and a: "a_orchestrator a = ob" and "list_all (\<lambda>q. hq_param q ''jobId'' = i) qs" and "qs \<noteq> []"
  shows "wp (forE qs (\<lambda>q. bindE (status pe a q) (\<lambda>_. retE ()))) (\<lambda>_ w'. w_trail w' = w_trail w @ final_events (a_audit a) j) (\<lambda>_ _. False) w"
  using assms(1-4,6,7)
proof (induction qs arbitrary: w j)
  case (Cons q qs)
  have first: "wp (status pe a q) (\<lambda>rp w'. rp = \<lparr>rp_status = 200, rp_body = RStatus (buildStatus j)\<rparr> \<and>
      w_trail w' = w_trail w @ final_events (a_audit a) j \<and>
      up (s_redis (w_sys w')) \<and> jobsR (s_redis (w_sys w')) i = Some (j\<lparr>j_AuditFinalEmitted := True\<rparr>)) (\<lambda>_ _. False) w"
    by (rule status_ended) (use Cons.prems a in simp_all)
  show ?case
    unfolding forE.simps wp_bindE wp_retE
  proof (rule wp_mono [OF first], goal_cases)
    case (1 rp w')
    show ?case
    proof (cases "qs = []")
      case False
      from Cons.IH [of w' "j\<lparr>j_AuditFinalEmitted := True\<rparr>"] 1 False Cons.prems
      have "wp (forE qs (\<lambda>q. bindE (status pe a q) (\<lambda>_. retE ())))
          (\<lambda>_ w2. w_trail w2 = w_trail w' @ final_events (a_audit a) (j\<lparr>j_AuditFinalEmitted := True\<rparr>)) (\<lambda>_ _. False) w'" by simp
      then show ?thesis by (rule wp_mono) (use 1 in \<open>auto simp: final_events_def\<close>)
    qed (use 1 in \<open>simp add: wp_rules\<close>)
  qed simp
qed simp

end

text \<open>The demonstration's orchestrator on the Redis in memory.\<close>

lemma demo_app_store: "o_jobs (a_orchestrator demo_app) = New mem_redis (g_JobTTL (demo_settings demo_vars))"
  by (simp add: demo_app_def wire_app_def new_orchestrator_def NewOrchestrator_def Let_def)

interpretation served: running mem_redis m_content m_items "New mem_redis (g_JobTTL (demo_settings demo_vars))"
  "\<lambda>s. m_faults s = []" "a_orchestrator demo_app"
  by unfold_locales (rule demo_app_store)

definition demo_ready :: Job where
  "demo_ready = demo_job\<lparr>j_State := StateReady, j_Documents := [demo_doc\<lparr>d_State := DocReady\<rparr>]\<rparr>"

section \<open>Properties\<close>

text \<open>
  C18: A status request does not wait for ever. On a clock that a sleep moves forward, the long poll
  ends within 31 rounds whatever the caller asked for, whatever happens to the store meanwhile and
  however many rounds the model would allow: the wait is capped at 30 seconds, and each round
  sleeps one.
\<close>

theorem status_wait_bounded:
  assumes "clocked e clock" and "o_env ob = e" and "\<And>d u. clock u + d \<le> clock (pe_sleep pe d u)" and "31 \<le> pe_rounds pe"
  shows "wait_seconds q \<le> 30 \<and>
    status_job pe ob i (wait_seconds q) s = status_job (pe\<lparr>pe_rounds := 31\<rparr>) ob i (wait_seconds q) s"
proof
  have enough: "poll_status (pe\<lparr>pe_rounds := x\<rparr>) ob i st d k n j s = poll_status pe ob i st d k n j s" for x st d k n j s
    by (induction n arbitrary: k j s) (simp_all add: pause_def bindE_def tryE_def split: prod.split sum.split)
  have poll: "poll_status pe ob i st (t + secs (wait_seconds q)) 0 (pe_rounds pe) j s1 =
      poll_status pe ob i st (t + secs (wait_seconds q)) 0 31 j s1"
    if w: "0 < wait_seconds q" and t: "t \<le> clock (n_env (s_net s1))" for st t j s1
  proof -
    let ?n = "nat (wait_seconds q)"
    have d: "t + secs (wait_seconds q) \<le> clock (n_env (s_net s1)) + int ?n * secs 1" using w t by (simp add: secs_def)
    have n: "?n \<le> 30" using wait_seconds_max [of q] by simp
    note rounds = clocked.poll_status_rounds [OF assms(1,2,3) d, of i st 0 _ j]
    from rounds [of "pe_rounds pe - Suc ?n"] rounds [of "30 - ?n"] n assms(4) show ?thesis by (simp add: Suc_diff_le)
  qed
  have "bindE (time ob) (\<lambda>t. poll_status pe ob i st (t + secs (wait_seconds q)) 0 (pe_rounds pe) j) s0 =
      bindE (time ob) (\<lambda>t. poll_status pe ob i st (t + secs (wait_seconds q)) 0 31 j) s0"
    if "0 < wait_seconds q" for st j s0
    by (rule clocked.time_step [OF assms(1,2), of s0]) (simp add: bindE_def poll that)
  then show "status_job pe ob i (wait_seconds q) s = status_job (pe\<lparr>pe_rounds := 31\<rparr>) ob i (wait_seconds q) s"
    unfolding status_job_def enough
    by (cases "Status ob i s") (simp add: bindE_def [of "Status ob i"] split: sum.split)
qed (rule wait_seconds_max)

theorem status_wait_bounded_witness:
  "wait_seconds (demo_hreq []) = 30 \<and>
   status_job demo_poll (a_orchestrator demo_app) ''J'' (wait_seconds (demo_hreq [])) (w_sys (demo_web demo_job)) =
   status_job (demo_poll\<lparr>pe_rounds := 31\<rparr>) (a_orchestrator demo_app) ''J'' (wait_seconds (demo_hreq [])) (w_sys (demo_web demo_job))"
proof -
  have "wait_seconds (demo_hreq []) = 30" by (simp add: wait_seconds_def demo_hreq_def statusLongPollMax_def)
  moreover have "status_job demo_poll (a_orchestrator demo_app) ''J'' (wait_seconds (demo_hreq [])) (w_sys (demo_web demo_job)) =
      status_job (demo_poll\<lparr>pe_rounds := 31\<rparr>) (a_orchestrator demo_app) ''J'' (wait_seconds (demo_hreq [])) (w_sys (demo_web demo_job))"
    by (rule conjunct2 [OF status_wait_bounded [OF scripted.clocked_axioms]])
       (simp_all add: demo_poll_def demo_app_def wire_app_def new_orchestrator_def NewOrchestrator_def demo_wire_def Let_def)
  ultimately show ?thesis by blast
qed



end
