(* ===== verification/Service.thy ===== *)
theory Service
  imports Polling
begin

text \<open>
  The whole service as a transition system: any request served, any step of the background worker
  and of the environment, in any order and number, on a Redis whose commands may fail. The handlers
  compose with the life cycle of \<^theory_text>\<open>Lifecycle\<close>: what a request does to the stored jobs is a
  step of the abstract signer.
\<close>

section \<open>Library\<close>

text \<open>
  A long poll whose surroundings keep the stored jobs in order, and one with no surroundings: what
  others do meanwhile are then steps before or after the request.
\<close>

definition orderly :: "('r \<Rightarrow> string \<Rightarrow> rval option) \<Rightarrow> ('r, 'u) poll_env \<Rightarrow> bool" where
  "orderly content pe \<longleftrightarrow> (\<forall>k r. store_ok (jobs_in content r) \<longrightarrow> store_ok (jobs_in content (pe_meanwhile pe k r)))"

definition quiet :: "('r, 'u) poll_env \<Rightarrow> bool" where
  "quiet pe \<longleftrightarrow> (\<forall>k r. pe_meanwhile pe k r = r)"

lemma quiet_orderly: "quiet pe \<Longrightarrow> orderly content pe"
  by (simp add: quiet_def orderly_def)

text \<open>An application that started is the signer of \<^theory_text>\<open>Lifecycle\<close> on its Redis.\<close>

lemma init_hosted:
  assumes R: "redis_server R content items" and "wi_redis w (g_RedisURL c) = Inr R" and "init w c = Inr a"
  shows "hosted R content items (New R (g_JobTTL c)) (a_orchestrator a)"
  using assms(3)
proof (rule init_ok)
  fix R' broker access
  assume "wi_redis w (g_RedisURL c) = Inr R'" and a: "a = wire_app w c R' broker access"
  with assms(2) have o: "a_orchestrator a = new_orchestrator w c R" by (simp add: wire_app_def)
  show ?thesis
    by (intro hosted.intro store_on_redis.intro store_on_redis_axioms.intro hosted_axioms.intro R)
       (simp_all add: o new_orchestrator_def NewOrchestrator_def Let_def New_def app_client.signapi_client_axioms)
qed

definition webs :: "(('r, 'u) sys \<Rightarrow> bool) \<Rightarrow> ('r, 'u) web \<Rightarrow> bool" where
  "webs P w \<longleftrightarrow> P (w_sys w)"

lemma webs_call: "pres P m \<Longrightarrow> pres (webs P) (call m)"
  unfolding call_def by (rule presI) (auto simp: wp_rules webs_def intro: wp_mono [OF presD])

lemma webs_ops [pres_intros]:
  "pres (webs P) (audit es)" "pres (webs P) (header k v)" "pres (webs P) (reply st b)" "pres (webs P) (gateUpload we c mode f d)"
  by (rule presI, simp add: wp_rules webs_def split: sum.split)+

lemma webs_container [pres_intros]: "pres (webs P) (writeContainer ct f d)"
  unfolding writeContainer_def by (intro pres_intros)

text \<open>
  A request makes one step of the orchestrator. \<open>P\<close> holds before it and is kept by what only reads;
  \<open>Q\<close> holds after an operation that writes. \<open>prepare\<close>, which makes a new job, and \<open>status\<close>, which may
  write the job it read, are left to the one who has the locale.
\<close>

locale handler_invariant =
  fixes P Q :: "('r, 'u) sys \<Rightarrow> bool" and a :: "('r, 'u) App"
  assumes inv_same: "P s \<Longrightarrow> Q s"
    and inv_callback: "P s \<Longrightarrow> Q (snd (Callback (a_orchestrator a) st code declined s))"
    and inv_submit: "P s \<Longrightarrow> Q (snd (SubmitSignatures (a_orchestrator a) i sigs s))"
    and inv_delete: "P s \<Longrightarrow> Q (snd (DeleteJob (a_orchestrator a) i s))"
    and inv_status: "pres P (Status (a_orchestrator a) i)"
    and inv_download: "pres P (Download (a_orchestrator a) i doc asice)"
    and inv_archive_doc: "pres P (ArchiveJobDocument (a_orchestrator a) i doc asice)"
    and inv_validate: "pres P (Validate (a_orchestrator a) corr name mime data)"
    and inv_archive: "pres P (ArchiveUpload (a_orchestrator a) corr name mime cert data)"
    and inv_ping: "pres P (onRedis (Ping (o_jobs (a_orchestrator a))))"
begin

lemmas inv_reads [pres_intros] = inv_status inv_download inv_archive_doc inv_validate inv_archive inv_ping

lemma reading_handlers:
  assumes "ep \<in> {EHealthz, EReadyz, EInfo, EDownload, EArchiveJobDoc, EValidate, EArchive}"
  shows "pres (webs P) (handler_of we pe a ep q)"
proof -
  have "pres (webs P) (download a q)"
    unfolding download_def Let_def option.case by (intro pres_intros webs_call)
  moreover have "pres (webs P) (archiveJobDoc a q)"
    unfolding archiveJobDoc_def Let_def option.case by (intro pres_intros webs_call)
  moreover have "pres (webs P) (validate we a q)"
    unfolding validate_def Let_def option.case by (intro pres_intros webs_call)
  moreover have "pres (webs P) (archive we a q)"
    unfolding archive_def Let_def option.case by (intro pres_intros webs_call)
  moreover have "pres (webs P) (info a)" "pres (webs P) healthz" "pres (webs P) (readyz (Some (a_orchestrator a)))"
    unfolding info_def healthz_def readyz_def Let_def option.case by (intro pres_intros webs_call)+
  ultimately show ?thesis using assms by auto
qed

lemma writing_call:
  assumes "webs P w" and "\<And>s. P s \<Longrightarrow> Q (snd (m s))" and "\<And>r. pres (webs Q) (f r)"
  shows "webs Q (snd (bindE (call m) f w))"
proof -
  have "wp m (\<lambda>_. Q) (\<lambda>_. Q) (w_sys w)" using assms(1,2) by (simp add: wp_same webs_def)
  then have "wp (bindE (call m) f) (\<lambda>_. webs Q) (\<lambda>_. webs Q) w"
    unfolding wp_bindE wp_call by (rule wp_mono) (auto simp: webs_def intro!: presD [OF assms(3)])
  then show ?thesis by (simp add: wp_same)
qed

lemma writing_handlers:
  assumes w: "webs P w"
  shows "webs Q (snd (callback a q w))" "webs Q (snd (submit we a q w))" "webs Q (snd (deleteJob a q w))"
proof -
  have same: "webs Q (snd (failE e w))" for e using w by (simp add: webs_def inv_same failE_def)
  have cb: "Q (snd (bindE (Callback (a_orchestrator a) st code declined) (\<lambda>redirect. bindE job (\<lambda>j. retE (j, redirect))) s))"
    if "P s" for st code declined s
    using inv_callback [OF that, of st code declined] by (auto simp: run_defs job_def split: prod.split sum.split)
  show "webs Q (snd (callback a q w))"
    unfolding callback_def Let_def
    by (cases "query_text q ''state'' = []") (auto simp: same intro!: writing_call [OF w] cb pres_intros)
  show "webs Q (snd (submit we a q w))"
    unfolding submit_def
    by (cases "read_submit we (hq_body q)") (auto simp: same intro!: writing_call [OF w] inv_submit pres_intros)
  show "webs Q (snd (deleteJob a q w))"
    unfolding deleteJob_def by (auto intro!: writing_call [OF w] inv_delete pres_intros)
qed

text \<open>A request, once its handler is known to do it.\<close>

lemma webs_serve:
  assumes w: "webs P w" and h: "\<And>q'. ep \<in> {EPrepare, EStatus} \<Longrightarrow> webs Q (snd (handler_of we pe a ep q' (w\<lparr>w_headers := []\<rparr>)))"
  shows "webs Q (snd (serve authenticate we pe a ep q w))"
proof -
  let ?w = "w\<lparr>w_headers := []\<rparr>"
  have w': "webs P ?w" using w by (simp add: webs_def)
  then have q': "webs Q ?w" by (simp add: webs_def inv_same)
  have read: "webs Q (snd (handler_of we pe a ep q' ?w))" if "ep \<in> {EHealthz, EReadyz, EInfo, EDownload, EArchiveJobDoc, EValidate, EArchive}" for q'
    using reading_handlers [OF that] w' by (simp add: pres_def webs_def inv_same)
  have "webs Q (snd (handler_of we pe a ep q' ?w))" for q'
    using read [of q'] h [of q'] writing_handlers(1,3) [OF w', of q'] writing_handlers(2) [OF w', of we q'] by (cases ep) simp_all
  with q' show ?thesis
    by (auto simp: serve_def scoped_def run_defs audit_def webs_def split: option.split sum.split)
qed

end

lemma store_ok_final:
  assumes "store_ok J" and "store_ok J'" and "J' i = Some j"
  shows "store_ok (J(j_JobID j \<mapsto> j\<lparr>j_AuditFinalEmitted := True\<rparr>))"
proof -
  have "job_ok j" using assms(2,3) unfolding store_ok_def by blast
  then have "job_ok (j\<lparr>j_AuditFinalEmitted := True\<rparr>)" by (simp add: job_ok_def)
  from store_ok_upd [OF assms(1) this] show ?thesis by simp
qed

context hosted
begin

text \<open>
  The status request: \<open>I\<close> holds of the stored jobs while others work, and the job in the answer was
  stored in one of these states.
\<close>

definition stored_in :: "((string \<Rightarrow> Job option) \<Rightarrow> bool) \<Rightarrow> Job \<Rightarrow> ('r, 'u) sys \<Rightarrow> bool" where
  "stored_in I j s \<longleftrightarrow> I (jobsR (s_redis s)) \<and> (\<exists>J i. I J \<and> J i = Some j)"

lemma stored_in_net [simp]: "stored_in I j (s\<lparr>s_net := n\<rparr>) = stored_in I j s"
  by (simp add: stored_in_def)

lemma stored_in_inv: "stored_in I j s \<Longrightarrow> I (jobsR (s_redis s))"
  by (simp add: stored_in_def)

lemma Status_stored: "I (jobsR (s_redis s)) \<Longrightarrow> wp (Status ob i) (stored_in I) (\<lambda>_ s'. jobsR (s_redis s') = jobsR (s_redis s)) s"
  unfolding Status_def wp_onRedis on_store
  by (rule wp_mono [OF Load_view]) (auto simp: stored_in_def)

lemma poll_stored:
  assumes pe: "\<And>k r. I (jobsR r) \<Longrightarrow> I (jobsR (pe_meanwhile pe k r))" and "stored_in I j s"
  shows "wp (poll_status pe ob i st d k n j) (stored_in I) (\<lambda>_ _. False) s"
  using assms(2)
proof (induction n arbitrary: k j s st)
  case (Suc n)
  have round: "wp (bindE (tryE (Status ob i)) (\<lambda>r. case r of Inl x \<Rightarrow> retE j
       | Inr j2 \<Rightarrow> if j_State j2 \<noteq> st \<or> Terminal (j_State j2) then retE j2 else poll_status pe ob i st d (Suc k) n j2))
      (stored_in I) (\<lambda>_ _. False) s1" if "stored_in I j s1" for s1
    unfolding wp_bindE wp_tryE
    by (rule wp_mono [OF Status_stored [where I = I]]) (use that in \<open>auto simp: wp_rules stored_in_def [of I j] intro: Suc.IH\<close>)
  have go: "wp (bindE (pause pe k) (\<lambda>_. bindE (tryE (Status ob i)) (\<lambda>r. case r of Inl x \<Rightarrow> retE j
       | Inr j2 \<Rightarrow> if j_State j2 \<noteq> st \<or> Terminal (j_State j2) then retE j2 else poll_status pe ob i st d (Suc k) n j2)))
      (stored_in I) (\<lambda>_ _. False) s1" if "stored_in I j s1" for s1
    unfolding wp_bindE [of "modE _"] pause_def wp_modE by (rule round) (use that pe in \<open>auto simp: stored_in_def\<close>)
  show ?case
    unfolding poll_status.simps wp_bindE [of "time ob"]
  proof (rule wp_time, goal_cases)
    case (1 t w)
    have s: "stored_in I j (s\<lparr>s_net := w\<rparr>)" using Suc.prems by (simp add: stored_in_def)
    with go [OF s] show ?case
      by (cases "t < d"; cases "pe_cancelled pe k")
         (simp_all only: not_True_eq_False not_False_eq_True if_True if_False wp_retE)
  qed
qed (simp add: wp_rules)

lemma status_stored:
  assumes pe: "\<And>k r. I (jobsR r) \<Longrightarrow> I (jobsR (pe_meanwhile pe k r))" and a: "a_orchestrator a = ob" and w: "I (jobsR (s_redis (w_sys w)))"
    and K: "\<And>J. I J \<Longrightarrow> K J" "\<And>J J' i j. I J \<Longrightarrow> I J' \<Longrightarrow> J' i = Some j \<Longrightarrow> K (J(j_JobID j \<mapsto> j\<lparr>j_AuditFinalEmitted := True\<rparr>))"
  shows "K (jobsR (s_redis (w_sys (snd (status pe a q w)))))"
proof -
  have job: "wp (status_job pe ob i wait) (stored_in I) (\<lambda>_ s'. I (jobsR (s_redis s'))) s" if "I (jobsR (s_redis s))" for i wait s
    unfolding status_job_def wp_bindE [of "Status ob i"]
    by (rule wp_mono [OF Status_stored [where I = I]]) (use that in \<open>auto simp: wp_rules intro!: wp_time wp_mono [OF poll_stored [where I = I, OF pe]]\<close>)
  have emit: "wp (emit_final a j) (\<lambda>_ w'. K (jobsR (s_redis (w_sys w')))) (\<lambda>_ w'. K (jobsR (s_redis (w_sys w')))) w1"
    if st: "stored_in I j (w_sys w1)" for j w1
  proof -
    have "K (jobsR (s_redis (w_sys w1)))" "K ((jobsR (s_redis (w_sys w1)))(j_JobID j \<mapsto> j\<lparr>j_AuditFinalEmitted := True\<rparr>))"
      using st K by (auto simp: stored_in_def)
    then show ?thesis
      unfolding emit_final_def Let_def a on_store by (auto simp: wp_rules wp_onRedis intro!: wp_mono [OF Save_view])
  qed
  have "wp (status pe a q) (\<lambda>_ w'. K (jobsR (s_redis (w_sys w')))) (\<lambda>_ w'. K (jobsR (s_redis (w_sys w')))) w"
    unfolding status_def wp_bindE [of "call _"] wp_call a
    by (rule wp_mono [OF job [OF w]]) (auto simp: wp_rules K(1) intro!: wp_mono [OF emit])
  then show ?thesis by (simp add: wp_same)
qed

lemma prepare_kept:
  assumes ok: "store_ok (jobsR (s_redis (w_sys w)))" and a: "a_orchestrator a = ob"
    and fresh: "jobsR (s_redis (w_sys w)) (fst (e_ulid (o_env ob) (n_env (s_net (w_sys w))))) = None"
  shows "kept (jobsR (s_redis (w_sys w))) (w_sys (snd (prepare we a q w)))"
proof (cases "prepare_request we (a_config a) q")
  case (Inr inp)
  have "kept (jobsR (s_redis (w_sys w))) (snd (Prepare ob inp (w_sys w)))"
    using Prepare_kept [OF ok fresh, of inp] by (simp add: wp_same)
  with Inr show ?thesis unfolding prepare_run a by (auto split: prod.splits sum.splits)
qed (use ok in \<open>simp add: prepare_run kept_def moved_refl\<close>)

lemma Ping_reads: "reads (onRedis (Ping (o_jobs ob)))"
proof -
  have same: "content r' = content r \<Longrightarrow> jobsR r' = jobsR r" for r r' by (simp add: jobs_in_def fun_eq_iff)
  show ?thesis
    unfolding reads_def on_store Ping_def on_redis by (intro keepsI) (auto simp: wp_rules wp_onRedis intro!: wp_mono [OF ping_law] same)
qed

lemma reads_pres: "reads m \<Longrightarrow> pres (\<lambda>s. I (jobsR (s_redis s))) m"
  unfolding reads_def by (erule pres_keeps) simp

text \<open>
  Two invariants of the handlers: the stored jobs are in order, whatever others do during a long poll;
  and from the store \<open>J\<close>, with nobody else, the request makes one step of the life cycle.
\<close>

lemma kept_same: "store_ok (jobsR (s_redis s)) \<Longrightarrow> kept (jobsR (s_redis s)) s"
  by (simp add: kept_def moved_refl)

lemma kept_ok: "kept J s \<Longrightarrow> store_ok (jobsR (s_redis s))"
  by (simp add: kept_def)

lemma ordered_handlers:
  assumes a: "a_orchestrator a = ob"
  shows "handler_invariant (\<lambda>s. store_ok (jobsR (s_redis s))) (\<lambda>s. store_ok (jobsR (s_redis s))) a"
  by (unfold_locales; (unfold a)?; (assumption | intro reads_pres reads_ops Ping_reads | rule kept_ok, erule kept_ops))

lemma kept_handlers:
  assumes a: "a_orchestrator a = ob" and "store_ok J"
  shows "handler_invariant (\<lambda>s. jobsR (s_redis s) = J) (kept J) a"
  by (unfold_locales; (unfold a)?; (intro reads_pres reads_ops Ping_reads)?)
     (use assms(2) in \<open>auto intro: kept_same kept_ops\<close>)

lemma serve_ordered:
  assumes a: "a_orchestrator a = ob" and pe: "orderly content pe" and w: "store_ok (jobsR (s_redis (w_sys w)))"
    and fresh: "ep = EPrepare \<Longrightarrow> jobsR (s_redis (w_sys w)) (fst (e_ulid (o_env ob) (n_env (s_net (w_sys w))))) = None"
  shows "store_ok (jobsR (s_redis (w_sys (snd (serve authenticate we pe a ep q w)))))"
proof -
  let ?w = "w\<lparr>w_headers := []\<rparr>"
  have "store_ok (jobsR (s_redis (w_sys (snd (status pe a q' ?w)))))" for q'
  proof (rule status_stored [where I = store_ok])
    show "store_ok J \<Longrightarrow> store_ok J' \<Longrightarrow> J' i = Some j \<Longrightarrow> store_ok (J(j_JobID j \<mapsto> j\<lparr>j_AuditFinalEmitted := True\<rparr>))" for J J' i j
      by (rule store_ok_final)
  qed (use pe a w in \<open>auto simp: orderly_def\<close>)
  moreover have "store_ok (jobsR (s_redis (w_sys (snd (prepare we a q' ?w)))))" if "ep = EPrepare" for q'
    using kept_ok [OF prepare_kept [of ?w a we q']] w a fresh [OF that] by simp
  ultimately have "ep \<in> {EPrepare, EStatus} \<Longrightarrow> store_ok (jobsR (s_redis (w_sys (snd (handler_of we pe a ep q' ?w)))))" for q'
    by (elim insertE) simp_all
  with handler_invariant.webs_serve [OF ordered_handlers [OF a], unfolded webs_def, OF w] show ?thesis by blast
qed

lemma serve_kept:
  assumes a: "a_orchestrator a = ob" and pe: "quiet pe" and w: "store_ok (jobsR (s_redis (w_sys w)))"
    and fresh: "ep = EPrepare \<Longrightarrow> jobsR (s_redis (w_sys w)) (fst (e_ulid (o_env ob) (n_env (s_net (w_sys w))))) = None"
  shows "kept (jobsR (s_redis (w_sys w))) (w_sys (snd (serve authenticate we pe a ep q w)))"
proof -
  let ?w = "w\<lparr>w_headers := []\<rparr>" and ?J = "jobsR (s_redis (w_sys w))"
  define K where "K J' \<longleftrightarrow> store_ok J' \<and> moved ?J J' \<and> (\<exists>i. at_most i ?J J')" for J'
  have kK: "kept ?J s = K (jobsR (s_redis s))" for s by (simp add: kept_def K_def)
  have "K (jobsR (s_redis (w_sys (snd (status pe a q' ?w)))))" for q'
  proof (rule status_stored [where I = "\<lambda>J'. J' = ?J"])
    fix J J' i j assume J: "J = ?J" "J' = ?J" "J' i = Some j"
    then have i: "j_JobID j = i" using w unfolding store_ok_def by blast
    have "moved ?J (?J(i \<mapsto> j\<lparr>j_AuditFinalEmitted := True\<rparr>))" by (rule moved_upd [OF moved_refl]) (use J in \<open>simp add: visible_def\<close>)
    with store_ok_final [of ?J ?J i j] w J i show "K (J(j_JobID j \<mapsto> j\<lparr>j_AuditFinalEmitted := True\<rparr>))"
      unfolding K_def by (metis at_most_simps(2))
  qed (use pe a w in \<open>auto simp: quiet_def K_def moved_refl\<close>)
  moreover have "kept ?J (w_sys (snd (prepare we a q' ?w)))" if "ep = EPrepare" for q'
    using prepare_kept [of ?w a we q'] w a fresh [OF that] by simp
  ultimately have "ep \<in> {EPrepare, EStatus} \<Longrightarrow> kept ?J (w_sys (snd (handler_of we pe a ep q' ?w)))" for q'
    by (elim insertE) (simp_all add: kK)
  with handler_invariant.webs_serve [OF kept_handlers [OF a w], unfolded webs_def, OF refl] show ?thesis by blast
qed

end

lemma demo_redis: "redis_server mem_redis m_content m_items" "wi_redis demo_wire (g_RedisURL c) = Inr mem_redis"
  using mem.redis_server_axioms by simp_all

interpretation demo_handlers: handler_invariant "\<lambda>s. store_ok (jobs_in m_content (s_redis s))" "\<lambda>s. store_ok (jobs_in m_content (s_redis s))" demo_app
  by (rule hosted.ordered_handlers [OF init_hosted [OF demo_redis init_demo] refl])

section \<open>The service\<close>

text \<open>
  A step is a request served (a new job's id is one that no stored job has), or a step of the
  signer of \<^theory_text>\<open>Lifecycle\<close>: the worker, a background close, a key that expires, a change of the
  outside world.
\<close>

inductive service_step :: "('r \<Rightarrow> string \<Rightarrow> rval option) \<Rightarrow> (hreq \<Rightarrow> failure + user) \<Rightarrow> web_env \<Rightarrow> ('r, 'u) poll_env \<Rightarrow> ('r, 'u) App \<Rightarrow>
    ('r, 'u) web \<Rightarrow> ('r, 'u) web \<Rightarrow> bool" for content authenticate we pe a where
  request: "(ep = EPrepare \<Longrightarrow> jobs_in content (s_redis (w_sys w)) (fst (e_ulid (o_env (a_orchestrator a)) (n_env (s_net (w_sys w))))) = None) \<Longrightarrow>
    service_step content authenticate we pe a w (snd (serve authenticate we pe a ep q w))"
| background: "signer_step content (a_orchestrator a) (w_sys w) s \<Longrightarrow> service_step content authenticate we pe a w (w\<lparr>w_sys := s\<rparr>)"

inductive in_service :: "('r \<Rightarrow> string \<Rightarrow> rval option) \<Rightarrow> (hreq \<Rightarrow> failure + user) \<Rightarrow> web_env \<Rightarrow> ('r, 'u) poll_env \<Rightarrow> ('r, 'u) App \<Rightarrow>
    ('r, 'u) web \<Rightarrow> bool" for content authenticate we pe a where
  start: "jobs_in content (s_redis (w_sys w)) = Map.empty \<Longrightarrow> in_service content authenticate we pe a w"
| step: "in_service content authenticate we pe a w \<Longrightarrow> service_step content authenticate we pe a w w' \<Longrightarrow> in_service content authenticate we pe a w'"

context hosted
begin

lemma service_step_kept:
  assumes "service_step content authenticate we pe a w w'" and a: "a_orchestrator a = ob" and "quiet pe" and ok: "store_ok (jobsR (s_redis (w_sys w)))"
  shows "kept (jobsR (s_redis (w_sys w))) (w_sys w')"
  using assms(1)
proof cases
  case (request ep q)
  with serve_kept [OF a assms(3) ok, of ep] a show ?thesis by simp
next
  case (background s)
  with step_kept [OF _ ok] a show ?thesis by simp
qed

lemma in_service_ok:
  "in_service content authenticate we pe a w \<Longrightarrow> a_orchestrator a = ob \<Longrightarrow> orderly content pe \<Longrightarrow> store_ok (jobsR (s_redis (w_sys w)))"
proof (induction rule: in_service.induct)
  case (step w w')
  then have ok: "store_ok (jobsR (s_redis (w_sys w)))" by simp
  from step(2) show ?case
  proof cases
    case (request ep q)
    with serve_ordered [OF step(4,5) ok, of ep] step(4) show ?thesis by simp
  next
    case (background s)
    with step_kept [OF _ ok] step(4) show ?thesis by (simp add: kept_def)
  qed
qed (simp add: store_ok_def)

end

text \<open>
  The worker takes an id off the queue before it works on the job, and it drops the error of its
  last save: with Redis gone in between, the job was finalized upstream, the store still has it
  waiting, and no queue names it any more.
\<close>

lemma lost_save_strands_job:
  "let s = (demo_sys ((demo_stored demo_job)\<lparr>m_items := (\<lambda>_. [])(keyQueue := [''J'']), m_faults := [Served, Served, LostBefore]\<rparr>)
         [Inr (json_response 200 JNull)] demo_job);
       s' = snd (worker_round demo s) in
   j_State (s_job s') = StateReady \<and> work_in m_items (s_redis s') = [] \<and>
   map_option j_State (jobs_in m_content (s_redis s') ''J'') = Some StateFinalizing"
  by code_simp

end
