(* ===== verification/Overlap.thy ===== *)
theory Overlap
  imports Commands Service
begin

text \<open>
  Overlapping requests and workers: each operation alone, on a Redis of which it knows nothing but
  its own exchanges, and from it every history of any number of them.
\<close>

section \<open>One operation among others\<close>

locale careful = logged_store R log S for R :: "'r redis" and log S +
  fixes ob :: "('r, 'u) Orchestrator"
  assumes careful_store: "o_jobs ob = S" and careful_signapi: "signapi_client (o_signapi ob)"
begin

text \<open>\<open>tidy\<close>: the operation has kept its word. \<open>held\<close>: and it may write the job in its hand.\<close>

definition tidy :: "('r, 'u) sys \<Rightarrow> bool" where
  "tidy s \<longleftrightarrow> fine (s_redis s)"

text \<open>Of a job that is not new, it has read it.\<close>

definition held :: "bool \<Rightarrow> ('r, 'u) sys \<Rightarrow> bool" where
  "held old s \<longleftrightarrow> fine (s_redis s) \<and> owns (s_redis s) (s_job s) \<and> (old \<longrightarrow> has_read (s_redis s) (s_job s))"

lemma held_tidy: "held b s \<Longrightarrow> tidy s"
  by (simp add: held_def tidy_def)

lemma owns_onward:
  "owns r j \<Longrightarrow> j_JobID j' = j_JobID j \<Longrightarrow> (job_ok j \<Longrightarrow> job_ok j') \<Longrightarrow> moves (j_State j) (j_State j') \<Longrightarrow>
   has_read r j \<or> (born (j_State j) \<longrightarrow> born (j_State j')) \<Longrightarrow> owns r j'"
  by (auto simp: owns_def writable_def has_read_def intro: moves_trans split: option.splits)

lemma has_read_cong: "j_JobID j' = j_JobID j \<Longrightarrow> has_read r j' = has_read r j"
  by (simp add: has_read_def)

lemma held_onward:
  assumes "held b s" and "s_redis s' = s_redis s" and "j_JobID (s_job s') = j_JobID (s_job s)" and "job_ok (s_job s) \<Longrightarrow> job_ok (s_job s')"
    and "moves (j_State (s_job s)) (j_State (s_job s'))" and "b \<or> (born (j_State (s_job s)) \<longrightarrow> born (j_State (s_job s')))"
  shows "held b s'"
  using assms owns_onward [of "s_redis s" "s_job s" "s_job s'"] by (auto simp: held_def has_read_cong [of "s_job s'" "s_job s"])

lemma held_frame: "held b s \<Longrightarrow> shell (s_job s') = shell (s_job s) \<Longrightarrow> s_redis s' = s_redis s \<Longrightarrow> held b s'"
  by (erule held_onward) (auto simp: shell_def intro: job_ok_shell [of "s_job s'" "s_job s", unfolded shell_def])

lemma held_pres: "keeps (\<lambda>s. (shell (s_job s), s_redis s)) m \<Longrightarrow> pres (held b) m"
  by (rule pres_keeps) (auto intro: held_frame)

lemma held_net [pres_intros]: "pres (held b) (onNet m)" "pres (held b) job"
  by (intro held_pres keeps_intros; simp)+

lemma held_save [pres_intros]: "pres (held b) (saveJob ob)"
  by (rule presI)
     (auto simp: saveJob_def wp_rules wp_onRedis wp_job careful_store held_def keeping_def intro!: wp_mono [OF Save_logged])

lemma held_enqueue [pres_intros]: "pres (held b) (onRedis (EnqueueWork (o_jobs ob) i))"
proof (rule presI)
  fix s assume "held b s"
  then show "wp (onRedis (EnqueueWork (o_jobs ob) i)) (\<lambda>_. held b) (\<lambda>_. held b) s"
    unfolding wp_onRedis careful_store
    by (intro wp_mono [OF EnqueueWork_logged [where j = "s_job s"]]) (auto simp: held_def keeping_def)
qed

lemma held_transition [pres_intros]: "st \<noteq> StateReady \<Longrightarrow> b \<or> born st \<Longrightarrow> pres (held b) (transitionJob ob st)"
  by (rule presI, rule wp_transitionJob)
     (auto intro!: job_ok_Transition elim!: held_onward simp: Transition_state moves_can)

lemma held_fail [pres_intros]: "pres (held b) (failJob ob c m)"
  by (rule presI, rule wp_failJob) (auto elim!: held_onward simp: born_def)

lemma held_close [pres_intros]: "pres (held b) closeSessions"
  by (rule presI) (simp add: wp_rules held_def)

lemma held_Sign [pres_intros]: "pres (held b) (Sign ob fl)"
  by (rule Sign_frame [OF _ held_save]) (auto intro: held_frame shell_core)

lemma held_orFail [pres_intros]: "pres (held b) m \<Longrightarrow> pres (held b) (orFail ob c m)"
  unfolding orFail_def by (intro pres_intros)

lemma held_finalize:
  assumes "held b s" and "j_State (s_job s) = StateFinalizing"
  shows "wp (finalize ob) (\<lambda>_. held b) (\<lambda>_. held b) s"
proof (rule wp_mono [OF finalize_outcome [OF careful_signapi assms(2)]], goal_cases)
  case (1 x s')
  have "moves (j_State (s_job s)) StateReady" using assms(2) by (simp add: moves_can CanTransition_def)
  moreover have "job_ok (s_job s')" using 1 by (simp add: ready_job_ok)
  ultimately show ?case using 1 assms by (auto simp: ready_job_def intro!: held_onward [OF assms(1)])
qed (use assms in \<open>auto intro!: held_onward [OF assms(1)]\<close>)

lemma finalize_step_held: "held b s \<Longrightarrow> j_State (s_job s) = StateFinalizing \<Longrightarrow> wp (finalize_step ob) (\<lambda>_. held b) (\<lambda>_. held b) s"
  unfolding finalize_step_def wp_bindE [of "tryE _"] wp_tryE
  by (rule wp_mono [OF held_finalize]) (auto intro!: presD pres_intros)

lemma sign_step_held:
  assumes "held b s" and "j_State (s_job s) = StateSigning"
  shows "wp (sign_step ob fl) (\<lambda>_. held b) (\<lambda>_. held b) s"
proof -
  have sign: "wp (Sign ob fl) (\<lambda>_ s'. held b s' \<and> j_State (s_job s') = StateSigning) (\<lambda>_ s'. held b s' \<and> j_State (s_job s') = StateSigning) s"
    by (rule wp_mono [OF wp_conj [OF presD [OF held_Sign] keepsD [OF Sign_core]]]) (use assms in \<open>auto simp: core_def\<close>)
  have save: "wp (saveJob ob) (\<lambda>_. wp (finalize_step ob) (\<lambda>_. held b) (\<lambda>_. held b)) (\<lambda>_. wp (finalize_step ob) (\<lambda>_. held b) (\<lambda>_. held b)) s1"
    if "held b s1" "j_State (s_job s1) = StateFinalizing" for s1
  proof -
    have "keeps s_job (saveJob ob)" unfolding saveJob_def by (intro keeps_intros) simp
    from wp_conj [OF presD [OF held_save that(1)] keepsD [OF this]] show ?thesis
      by (rule wp_mono) (use that in \<open>auto intro: finalize_step_held\<close>)
  qed
  have "wp (transitionJob ob StateFinalizing) (\<lambda>_. wp (ignE (saveJob ob)) (\<lambda>_. wp (finalize_step ob) (\<lambda>_. held b) (\<lambda>_. held b)) (\<lambda>_. held b)) (\<lambda>_. held b) s1"
    if "held b s1" "j_State (s_job s1) = StateSigning" for s1
    unfolding wp_ignE
    by (rule wp_transitionJob, rule save)
       (use that in \<open>auto simp: Transition_state CanTransition_def moves_can intro!: held_onward [OF that(1)] job_ok_Transition\<close>)
  then show ?thesis
    unfolding sign_step_def wp_bindE [of "tryE _"] wp_tryE
    by (intro wp_mono [OF sign]) (auto simp: wp_bindE [of "transitionJob _ _"] wp_bindE [of "ignE _" "\<lambda>_. finalize_step ob"] intro!: presD pres_intros)
qed

text \<open>Each operation keeps its word.\<close>

lemma tidy_pres: "keeps s_redis m \<Longrightarrow> pres tidy m"
  by (rule pres_keeps) (auto simp: tidy_def)

lemma tidy_net [pres_intros]:
  "pres tidy (onNet m)" "pres tidy job" "pres tidy (setJob f)" "pres tidy (metric x)" "pres tidy (closeLater corr sids)"
  by (intro tidy_pres keeps_intros; simp add: closeLater_def keeps_intros)+

lemma RunJob_tidy [pres_intros]: "pres tidy (RunJob ob i)"
proof (rule presI)
  fix s assume "tidy s"
  have run: "wp (case j_State j of StateSigning \<Rightarrow> (case flows (j_Flow j) of
          None \<Rightarrow> bindE (failJob ob ''signing:unknown_flow'' (j_Flow j)) (\<lambda>_. ignE (saveJob ob)) | Some flow \<Rightarrow> sign_step ob flow)
        | StateFinalizing \<Rightarrow> finalize_step ob | _ \<Rightarrow> retE ()) (\<lambda>_. tidy) (\<lambda>_. tidy) s1"
    if "held True s1" "s_job s1 = j" for s1 j
  proof -
    have "pres (held True) (bindE (failJob ob c m) (\<lambda>_. ignE (saveJob ob)))" for c m
      by (intro pres_intros)
    with that have "wp (case j_State j of StateSigning \<Rightarrow> (case flows (j_Flow j) of
          None \<Rightarrow> bindE (failJob ob ''signing:unknown_flow'' (j_Flow j)) (\<lambda>_. ignE (saveJob ob)) | Some flow \<Rightarrow> sign_step ob flow)
        | StateFinalizing \<Rightarrow> finalize_step ob | _ \<Rightarrow> retE ()) (\<lambda>_. held True) (\<lambda>_. held True) s1"
      by (cases "j_State j") (auto simp: wp_retE presD sign_step_held finalize_step_held split: option.split)
    then show ?thesis by (rule wp_mono) (auto intro: held_tidy)
  qed
  show "wp (RunJob ob i) (\<lambda>_. tidy) (\<lambda>_. tidy) s"
    unfolding RunJob_def wp_bindE [of "tryE _"] wp_bindE [of "setJob _"] wp_tryE wp_onRedis careful_store
    by (rule wp_mono [OF Load_logged])
       (use \<open>tidy s\<close> in \<open>auto simp: wp_setJob wp_bindE wp_retE tidy_def held_def intro!: run\<close>)
qed

lemma worker_round_tidy [pres_intros]: "pres tidy (worker_round ob)"
proof (rule presI)
  fix s assume s: "tidy s"
  have wait: "pres tidy (ignE (onNet m) :: (('r, 'u) sys, err, unit) prog)" for m by (intro pres_intros)
  have "fine r \<Longrightarrow> tidy (s\<lparr>s_redis := r\<rparr>)" for r by (simp add: tidy_def)
  with s show "wp (worker_round ob) (\<lambda>_. tidy) (\<lambda>_. tidy) s"
    unfolding worker_round_def wp_bindE [of "tryE _"] wp_tryE wp_onRedis careful_store
    by (intro wp_mono [OF DequeueWork_logged]) (auto simp: tidy_def [of s] wp_retE intro!: presD [OF RunJob_tidy] presD [OF wait])
qed

lemma worker_run_tidy: "pres tidy (worker_run ob stopped k n)"
  by (induction n arbitrary: k) (auto intro!: pres_intros)

lemma Load_tidy [pres_intros]: "pres tidy (onRedis (Load (o_jobs ob) i))"
  by (rule presI) (auto simp: wp_onRedis careful_store tidy_def intro!: wp_mono [OF Load_logged])

lemma reads_tidy [pres_intros]:
  "pres tidy (Status ob i)" "pres tidy (Download ob i doc asice)" "pres tidy (ArchiveJobDocument ob i doc asice)"
  "pres tidy (Validate ob corr name mime data)" "pres tidy (ArchiveUpload ob corr name mime cert data)"
  unfolding Status_def Download_def ArchiveJobDocument_def Validate_def ArchiveUpload_def
    closeSession_def
  by (intro pres_intros)+

lemma DeleteJob_tidy [pres_intros]: "pres tidy (DeleteJob ob i)"
  by (rule presI)
     (auto simp: DeleteJob_def wp_bindE wp_onRedis wp_setJob wp_closeSessions careful_store tidy_def
       intro!: wp_mono [OF Load_logged] wp_mono [OF Delete_logged])

lemma Callback_tidy [pres_intros]: "pres tidy (Callback ob st code declined)"
proof (rule presI)
  fix s assume s: "tidy s"
  have fail: "pres (held True) (fail_callback ob c m)" for c m
    unfolding fail_callback_def by (intro pres_intros)
  have adv: "pres (held True) (AdvanceCallback ob fl code)" for fl
    by (intro held_pres keeps_shell AdvanceCallback_keeps)
  have body: "pres (held True) (if declined then fail_callback ob ''signing:declined'' ''user declined authorization'' else
       case flows f of None \<Rightarrow> fail_callback ob ''signing:unknown_flow'' f
       | Some flow \<Rightarrow> bindE (tryE (AdvanceCallback ob flow code)) (\<lambda>r. case r of
             Inl e \<Rightarrow> fail_callback ob ''signing:callback_failed'' (err_text e)
           | Inr (nextURL, complete) \<Rightarrow>
               if \<not> complete then bindE (saveJob ob) (\<lambda>_. retE nextURL)
               else bindE (transitionJob ob StateSigning) (\<lambda>_. bindE (saveJob ob) (\<lambda>_. bindE job (\<lambda>j.
                 bindE (ignE (onRedis (EnqueueWork (o_jobs ob) (j_JobID j)))) (\<lambda>_.
                 retE (substituteJobID (j_PostAuthRedirect j) (j_JobID j))))))))" for f
    by (intro pres_intros fail adv) simp_all
  show "wp (Callback ob st code declined) (\<lambda>_. tidy) (\<lambda>_. tidy) s"
    unfolding Callback_def wp_bindE [of "onRedis _"] wp_bindE [of "setJob _"] wp_onRedis wp_setJob
  proof (rule wp_mono [OF LoadByState_logged [folded careful_store]], goal_cases)
    case load: (2 j r)
    show ?case
    proof (rule wp_mono [OF ClearState_logged [folded careful_store, where j = j]], goal_cases)
      case (3 x r')
      then have "held True (s\<lparr>s_redis := r, s_job := j, s_redis := r'\<rparr>)" using load by (simp add: held_def keeping_def)
      from presD [OF body this] show ?case by (rule wp_mono) (auto intro: held_tidy)
    qed (use load in simp_all)
  qed (use s in \<open>simp_all add: tidy_def\<close>)
qed

lemma SubmitSignatures_tidy [pres_intros]: "pres tidy (SubmitSignatures ob i sigs)"
proof (rule presI)
  fix s assume s: "tidy s"
  have save: "pres (held True) (bindE (transitionJob ob StateFinalizing) (\<lambda>_. bindE (saveJob ob) (\<lambda>_. bindE job (\<lambda>j''.
         bindE (ignE (onRedis (EnqueueWork (o_jobs ob) (j_JobID j'')))) (\<lambda>_. retE j'')))))"
    by (intro pres_intros) simp_all
  show "wp (SubmitSignatures ob i sigs) (\<lambda>_. tidy) (\<lambda>_. tidy) s"
    unfolding SubmitSignatures_def wp_bindE [of "onRedis _"] wp_onRedis careful_store
  proof (rule wp_mono [OF Load_logged], goal_cases)
    case (2 j r)
    have h: "held True (s\<lparr>s_redis := r, s_job := j'\<rparr>)" if "attach_signatures sigs want j = Inr (w, j')" for want w j'
    proof -
      have "shell j' = shell j" by (rule attach_signatures_shell [OF that])
      moreover have "held True (s\<lparr>s_redis := r, s_job := j\<rparr>)" using 2 by (simp add: held_def)
      ultimately show ?thesis by - (rule held_frame [of True "s\<lparr>s_redis := r, s_job := j\<rparr>"], simp_all)
    qed
    show ?case
      using 2
      by (auto simp: wp_if wp_failE wp_bindE [of "ofsumE _"] wp_ofsumE wp_bindE [of "setJob _"] wp_setJob tidy_def [of "s\<lparr>s_redis := r\<rparr>"]
          split: sum.split prod.split intro!: wp_mono [OF presD [OF save [unfolded careful_store] h]] held_tidy)
  qed (use s in \<open>simp_all add: tidy_def\<close>)
qed

lemma Prepare_tidy:
  assumes "tidy s" and fresh: "log (s_redis s) = []"
  shows "wp (Prepare ob inp) (\<lambda>_. tidy) (\<lambda>_. tidy) s"
proof (cases "prepare_refusal ob inp")
  case (Some e)
  with assms show ?thesis by (simp add: Prepare_def wp_failE)
next
  case None
  let ?i = "fst (e_ulid (o_env ob) (n_env (s_net s)))"
  have set1: "pres (held False) (setJob f)" if "\<And>j. shell (f j) = shell j" for f
    by (rule held_pres) (simp add: keeps_setJob that)
  have cl: "pres (held False) (prepare_client ob inp)"
    unfolding prepare_client_def
    by (intro pres_intros set1 held_pres calculateDigests_shell) (simp_all add: born_def shell_def)
  have re: "pres (held False) (prepare_remote ob fl inp)" for fl
    unfolding prepare_remote_def
    by (intro pres_intros set1 held_pres BeginAuthorization_shell) (simp_all add: born_def shell_def supply_identity_def)
  have rest: "pres (held False) (bindE (orFail ob ''signapi:upload_failed'' (createSessionsAndUpload ob (pi_Documents inp))) (\<lambda>_.
          bindE (if ca_ClientSide (flow_Capabilities fl) then prepare_client ob inp else prepare_remote ob fl inp)
            (\<lambda>(url, digests, algo). bindE (saveJob ob) (\<lambda>_. bindE job (\<lambda>j.
          retE \<lparr>pr_Job = j, pr_AuthorizeURL = url, pr_Digests = digests, pr_SignAlgo = algo\<rparr>)))))" for fl
    by (intro pres_intros cl re held_pres createSessions_keeps)
  have start: "held False (s\<lparr>s_net := n, s_job := new_job ob inp ?i t1 t2\<rparr>)" for n t1 t2
    using assms by (auto simp: held_def tidy_def owns_def writable_def born_def job_ok_def new_job_def new_document_def emptyJob_def emptyDocument_def list_ex_iff)
  show ?thesis
    unfolding Prepare_def None option.case Let_def wp_bindE [of "makeULID ob"] wp_bindE [of "time ob"] wp_bindE [of "setJob _"] wp_setJob
    by (intro wp_makeULID wp_time wp_mono [OF presD [OF rest]]) (auto simp: start intro: held_tidy)
qed

text \<open>The handlers keep it too, when nobody else is in their own Redis state.\<close>

lemma Ping_tidy: "pres tidy (onRedis (Ping (o_jobs ob)))"
  by (rule presI) (auto simp: wp_onRedis careful_store tidy_def intro!: wp_mono [OF Ping_logged])

lemma tidy_handlers:
  assumes a: "a_orchestrator a = ob"
  shows "handler_invariant tidy tidy a"
  by (unfold_locales; (unfold a)?; (intro reads_tidy Ping_tidy)?)
     (use Callback_tidy SubmitSignatures_tidy DeleteJob_tidy in \<open>auto simp: pres_def\<close>)

definition seen :: "Job \<Rightarrow> ('r, 'u) sys \<Rightarrow> bool" where
  "seen j s \<longleftrightarrow> fine (s_redis s) \<and> owns (s_redis s) j"

lemma Status_seen: "tidy s \<Longrightarrow> wp (Status ob i) seen (\<lambda>_. tidy) s"
  unfolding Status_def wp_onRedis careful_store
  by (rule wp_mono [OF Load_logged]) (auto simp: tidy_def seen_def)

lemma poll_seen:
  assumes pe: "quiet pe" and "seen j s"
  shows "wp (poll_status pe ob i st d k n j) seen (\<lambda>_. tidy) s"
  using assms(2)
proof (induction n arbitrary: k j s st)
  case (Suc n)
  have status: "wp (tryE (Status ob i)) (\<lambda>r s'. case r of Inl e \<Rightarrow> seen j s' | Inr j2 \<Rightarrow> seen j2 s') (\<lambda>_. tidy) s1" if "seen j s1" for s1
    unfolding Status_def wp_tryE wp_onRedis careful_store
    by (rule wp_mono [OF wp_conj [OF Load_logged Load_fails [where j = j]]]) (use that in \<open>auto simp: seen_def\<close>)
  have round: "wp (bindE (tryE (Status ob i)) (\<lambda>r. case r of Inl x \<Rightarrow> retE j
       | Inr j2 \<Rightarrow> if j_State j2 \<noteq> st \<or> Terminal (j_State j2) then retE j2 else poll_status pe ob i st d (Suc k) n j2))
      seen (\<lambda>_. tidy) s1" if "seen j s1" for s1
    unfolding wp_bindE
    by (rule wp_mono [OF status [OF that]]) (auto simp: wp_rules split: sum.splits intro: Suc.IH)
  have go: "wp (bindE (pause pe k) (\<lambda>_. bindE (tryE (Status ob i)) (\<lambda>r. case r of Inl x \<Rightarrow> retE j
       | Inr j2 \<Rightarrow> if j_State j2 \<noteq> st \<or> Terminal (j_State j2) then retE j2 else poll_status pe ob i st d (Suc k) n j2)))
      seen (\<lambda>_. tidy) s1" if "seen j s1" for s1
    unfolding wp_bindE [of "modE _"] pause_def wp_modE pe [unfolded quiet_def, rule_format] by (rule round) (use that in \<open>simp add: seen_def\<close>)
  show ?case
    unfolding poll_status.simps wp_bindE [of "time ob"]
  proof (rule wp_time, goal_cases)
    case (1 t w)
    have s: "seen j (s\<lparr>s_net := w\<rparr>)" using Suc.prems by (simp add: seen_def)
    with go [OF s] show ?case
      by (cases "t < d"; cases "pe_cancelled pe k")
         (simp_all only: not_True_eq_False not_False_eq_True if_True if_False wp_retE)
  qed
qed (simp add: wp_rules)

lemma status_tidy:
  assumes pe: "quiet pe" and a: "a_orchestrator a = ob" and "tidy (w_sys w)"
  shows "tidy (w_sys (snd (status pe a q w)))"
proof -
  have job: "wp (status_job pe ob i wait) seen (\<lambda>_. tidy) s" if "tidy s" for i wait s
    unfolding status_job_def wp_bindE [of "Status ob i"]
    by (rule wp_mono [OF Status_seen [OF that]])
       (auto simp: wp_rules seen_def intro!: wp_time poll_seen [OF pe])
  have emit: "wp (emit_final a j) (\<lambda>_ w'. tidy (w_sys w')) (\<lambda>_ w'. tidy (w_sys w')) w1" if "seen j (w_sys w1)" for j w1
  proof -
    have "owns (s_redis (w_sys w1)) (j\<lparr>j_AuditFinalEmitted := True\<rparr>)"
      using that owns_onward [of _ j "j\<lparr>j_AuditFinalEmitted := True\<rparr>"] by (simp add: seen_def job_ok_def)
    with that show ?thesis
      unfolding emit_final_def Let_def a careful_store
      by (auto simp: wp_rules wp_onRedis tidy_def seen_def keeping_def intro!: wp_mono [OF Save_logged])
  qed
  have "wp (status pe a q) (\<lambda>_ w'. tidy (w_sys w')) (\<lambda>_ w'. tidy (w_sys w')) w"
    unfolding status_def wp_bindE [of "call _"] wp_call a
    by (rule wp_mono [OF job [OF assms(3)]]) (auto simp: wp_rules intro!: wp_mono [OF emit])
  then show ?thesis by (simp add: wp_same)
qed

lemma serve_tidy:
  assumes pe: "quiet pe" and a: "a_orchestrator a = ob" and w: "log (s_redis (w_sys w)) = []"
  shows "tidy (w_sys (snd (serve authenticate we pe a ep q w)))"
proof -
  note inv = tidy_handlers [OF a]
  have t: "tidy (w_sys w)" using w by (simp add: tidy_def fine_def)
  have "tidy (w_sys (snd (prepare we a q' (w\<lparr>w_headers := []\<rparr>))))" for q'
  proof (cases "prepare_request we (a_config a) q'")
    case (Inr inp)
    have "tidy (snd (Prepare ob inp (w_sys w)))" using Prepare_tidy [OF t w, of inp] by (simp add: wp_same)
    with Inr show ?thesis unfolding prepare_run a by (auto split: prod.splits sum.splits)
  qed (use t in \<open>simp add: prepare_run\<close>)
  moreover have "tidy (w_sys (snd (status pe a q' (w\<lparr>w_headers := []\<rparr>))))" for q'
    by (rule status_tidy [OF pe a]) (simp add: t)
  ultimately have "ep \<in> {EPrepare, EStatus} \<Longrightarrow> tidy (w_sys (snd (handler_of we pe a ep q' (w\<lparr>w_headers := []\<rparr>))))" for q'
    by auto
  with handler_invariant.webs_serve [OF inv, unfolded webs_def, OF t] show ?thesis by blast
qed

end

section \<open>Requests and workers that overlap\<close>

text \<open>
  A request and some rounds of a worker as functions of their Redis client. Each has the rest of its
  state to itself: its own network, clock and job in hand. What others do meanwhile to the store comes
  in through the answers, so that the sleep of a long poll changes nothing.
\<close>

definition request_body ::
    "(hreq \<Rightarrow> failure + user) \<Rightarrow> web_env \<Rightarrow> (scripted, 'u) poll_env \<Rightarrow> (scripted, 'u) App \<Rightarrow> endpoint \<Rightarrow> hreq \<Rightarrow> (scripted, 'u) web \<Rightarrow>
     scripted \<Rightarrow> scripted" where
  "request_body authenticate we pe a ep q w x = s_redis (w_sys (snd (serve authenticate we pe a ep q (w\<lparr>w_sys := (w_sys w)\<lparr>s_redis := x\<rparr>\<rparr>))))"

definition worker_body :: "(scripted, 'u) Orchestrator \<Rightarrow> (nat \<Rightarrow> bool) \<Rightarrow> nat \<Rightarrow> (scripted, 'u) sys \<Rightarrow> scripted \<Rightarrow> scripted" where
  "worker_body ob stopped n s x = s_redis (snd (worker_run ob stopped 0 n (s\<lparr>s_redis := x\<rparr>)))"

text \<open>Any request to, and any worker of, any instance of the application that started.\<close>

inductive service_thread :: "'u itself \<Rightarrow> (scripted \<Rightarrow> scripted) \<Rightarrow> bool" for u :: "'u itself" where
  request: "wi_redis w (g_RedisURL c) = Inr scripted_redis \<Longrightarrow> init w c = Inr (a :: (scripted, 'u) App) \<Longrightarrow>
    quiet pe \<Longrightarrow> service_thread u (request_body authenticate we pe a ep q ws)"
| worker: "wi_redis w (g_RedisURL c) = Inr scripted_redis \<Longrightarrow> init w c = Inr (a :: (scripted, 'u) App) \<Longrightarrow>
    service_thread u (worker_body (a_orchestrator a) stopped n s)"

lemma init_careful:
  assumes "wi_redis w (g_RedisURL c) = Inr R" and "init w c = Inr a" and "logged_redis R log"
  shows "careful R log (New R (g_JobTTL c)) (a_orchestrator a)"
  using assms(2)
proof (rule init_ok)
  fix R' broker access
  assume "wi_redis w (g_RedisURL c) = Inr R'" and a: "a = wire_app w c R' broker access"
  with assms(1) have o: "a_orchestrator a = new_orchestrator w c R" by (simp add: wire_app_def)
  show ?thesis
    by (intro careful.intro logged_store.intro logged_store_axioms.intro careful_axioms.intro assms(3))
       (simp_all add: o new_orchestrator_def NewOrchestrator_def Let_def New_def app_client.signapi_client_axioms)
qed

lemma service_thread_fair:
  assumes "service_thread u body"
  shows "fair (x_log (body \<lparr>x_answers = as, x_log = []\<rparr>))"
  using assms
proof cases
  case (request w c a pe authenticate we ep q ws)
  note c = init_careful [OF request(2,3) scripted.logged_redis_axioms]
  from careful.serve_tidy [OF c request(4) refl, of "ws\<lparr>w_sys := (w_sys ws)\<lparr>s_redis := \<lparr>x_answers = as, x_log = []\<rparr>\<rparr>\<rparr>"]
  show ?thesis by (simp add: request(1) request_body_def careful.tidy_def [OF c] logged_store.fine_def [OF careful.axioms(1) [OF c]])
next
  case (worker w c a stopped n s)
  note c = init_careful [OF worker(2,3) scripted.logged_redis_axioms]
  have "careful.tidy x_log (s\<lparr>s_redis := \<lparr>x_answers = as, x_log = []\<rparr>\<rparr>)"
    by (simp add: careful.tidy_def [OF c] logged_store.fine_def [OF careful.axioms(1) [OF c]])
  with careful.worker_run_tidy [OF c, of stopped 0 n] show ?thesis
    by (simp add: worker(1) worker_body_def pres_def careful.tidy_def [OF c] logged_store.fine_def [OF careful.axioms(1) [OF c]])
qed

section \<open>A demonstration\<close>

text \<open>
  An application on the scripted client and its requests and worker, each with what the network will
  answer it: a prepare request, two requests that submit the same signature, the worker, and requests
  to delete the job.
\<close>

definition plain_settings :: Configuration where
  "plain_settings = \<lparr>g_ServiceName = ''signer'', g_BrokerURL = None,
     g_Auth = \<lparr>au_IssuerURL = ''i'', au_Audience = ''a'', au_ServiceClientID = [], au_ServiceClientSecret = []\<rparr>,
     g_UploadHardening = True, g_MaxUploadBytes = 100, g_RedisURL = ''r'', g_JobTTL = 3600, g_SignAPIBaseURL = [],
     g_SignAPIFirstAttempt = 10, g_SignAPICallLimit = 60, g_TXBaseURL = [], g_TXASPath = [], g_TXClientID = [], g_TXClientSecret = [],
     g_TXRedirectURI = [], g_TXACRMobile = [], g_TXACREIDScan = [], g_TXACRCloudEseal = [], g_CSCBaseURL = [], g_CSCClientID = [],
     g_CSCClientSecret = [], g_CSCAuthCert = [], g_TSAAccessCert = [], g_TSAAccessCertFlows = [], g_LegacyEIDEnabled = False,
     g_IdentityFetchRetries = 5, g_IdentityFetchDelay = 2, g_EIDScanPollInterval = 2, g_EIDScanDeadline = 120,
     g_DefaultSignatureQualifier = ''q'', g_EIDASAuditTopic = ''t'', g_EidasAuditOutboxDir = [], g_AccessAuditURL = [],
     g_AccessAuditAudience = [], g_AccessAuditScope = [], g_AccessAuditOutboxDir = [], g_AuditClientID = [], g_AuditClientSecret = [],
     g_AuditIssuerURL = [], g_PseudonymKey = []\<rparr>"

definition shared_wire :: "(scripted, script) wire_env" where
  "shared_wire = \<lparr>wi_setup = None, wi_redis = (\<lambda>u. Inr scripted_redis), wi_auth = (\<lambda>a. None), wi_broker = (\<lambda>u. None),
     wi_eidas_outbox = (\<lambda>d. None), wi_gdpr_outbox = (\<lambda>d. None), wi_gdpr = (\<lambda>g. None), wi_task = (\<lambda>t. None),
     wi_csc = demo_csc, wi_env = script_env, wi_polls = 10\<rparr>"

definition shared_app :: "(scripted, script) App" where
  "shared_app = wire_app shared_wire plain_settings scripted_redis False None"

lemma init_shared: "init shared_wire plain_settings = Inr shared_app"
  by (simp add: shared_wire_def init_def need_def Let_def plain_settings_def AccessAuditEnabled_def shared_app_def)

lemma shared_redis: "wi_redis shared_wire (g_RedisURL c) = Inr scripted_redis"
  by (simp add: shared_wire_def)

interpretation shared: careful scripted_redis x_log "New scripted_redis (g_JobTTL plain_settings)" "a_orchestrator shared_app"
  by (rule init_careful [OF shared_redis init_shared scripted.logged_redis_axioms])

definition shared_poll :: "(scripted, script) poll_env" where
  "shared_poll = \<lparr>pe_sleep = (\<lambda>d u. u\<lparr>sc_clock := sc_clock u + d\<rparr>), pe_meanwhile = (\<lambda>k r. r), pe_cancelled = (\<lambda>k. False), pe_rounds = 40\<rparr>"

definition own_sys :: "(err + response) list \<Rightarrow> (scripted, script) sys" where
  "own_sys as = \<lparr>s_redis = \<lparr>x_answers = [], x_log = []\<rparr>, s_net = script_net as, s_closing = [], s_metrics = [], s_signhash = [], s_job = emptyJob\<rparr>"

definition shared_request :: "endpoint \<Rightarrow> json \<Rightarrow> (err + response) list \<Rightarrow> scripted \<Rightarrow> scripted" where
  "shared_request ep v as = request_body (\<lambda>q. Inr (demo_caller\<lparr>us_has := \<lambda>r l. True\<rparr>)) demo_web_env shared_poll shared_app ep
     ((demo_hreq ''webEid'')\<lparr>hq_param := \<lambda>k. ''J0'', hq_body := Inr \<lparr>p_text = ''json'', p_json = Some v\<rparr>\<rparr>)
     \<lparr>w_sys = own_sys as, w_trail = [], w_headers = []\<rparr>"

definition token_answer :: "err + response" where
  "token_answer = Inr (json_response 200 (JObj [(''access_token'', JStr ''t''), (''expires_in'', JNum 3600)]))"

definition client_signatures :: json where
  "client_signatures = JObj [(''signatures'', JArr [JObj [(''documentId'', JStr ''doc''), (''signatureValue'', JStr ''MAYCAQUCAQc='')]])]"

definition client_metadata :: json where
  "client_metadata = JObj [(''documents'', JArr [JObj [(''documentId'', JStr ''doc''), (''fileName'', JStr ''a.pdf''),
     (''signatureFormat'', JStr ''PAdES''), (''documentHash'', JStr ''AAAA'')]]), (''signingCertificate'', JStr ''cert''),
     (''authCertificate'', JStr ''auth'')]"

fun shared_threads :: "nat \<Rightarrow> scripted \<Rightarrow> scripted" where
  "shared_threads 0 = shared_request EPrepare client_metadata (token_answer # demo_prepare_answers)"
| "shared_threads (Suc 0) = shared_request ESubmit client_signatures []"
| "shared_threads (Suc (Suc 0)) = shared_request ESubmit client_signatures []"
| "shared_threads (Suc (Suc (Suc 0))) = worker_body (a_orchestrator shared_app) (\<lambda>_. False) 1 (own_sys [token_answer, Inr (json_response 200 JNull)])"
| "shared_threads (Suc (Suc (Suc (Suc n)))) = shared_request EDeleteJob JNull []"

lemma shared_service: "service_thread TYPE(script) (shared_threads t)"
  by (cases t rule: shared_threads.cases)
     (auto simp: shared_request_def quiet_def shared_poll_def
       intro!: service_thread.request [OF shared_redis init_shared] service_thread.worker [OF shared_redis init_shared])

definition waiting_job :: Job where
  "waiting_job = demo_job\<lparr>j_JobID := ''J0'', j_State := StateAwaitingClientSig, j_OAuthState := []\<rparr>"

text \<open>A first request reads the job and writes it, while a second has only read it.\<close>

definition submit_events :: "(event \<times> mem_state) list" where
  "submit_events = play mem_redis shared_threads [] [1, 2, 1] (demo_stored waiting_job)"

fun submit_checked :: "(event \<times> mem_state) list \<Rightarrow> bool" where
  "submit_checked [(e1, m1), (e2, m2), (e3, m3)] =
     (follows (shared_threads 1) (part 1 [e1, e2, e3]) \<and> follows (shared_threads 2) (part 2 [e1, e2, e3]) \<and>
      conflict_free (\<lambda>i. jobs_in m_content (demo_stored waiting_job) i \<noteq> None) [e1, e2, e3] \<and>
      visible (jobs_in m_content m2) ''J0'' = Some StateAwaitingClientSig \<and> visible (jobs_in m_content m3) ''J0'' = Some StateFinalizing)"
| "submit_checked _ = False"

lemma submit_events_run: "submit_checked submit_events"
  by code_simp

lemma submit_events_history:
  obtains e1 e2 e3 m2 m3 where
    "history mem_redis m_content (demo_stored waiting_job) [e1, e2] m2" and "happens mem_redis m_content m2 e3 m3"
    and "history mem_redis m_content (demo_stored waiting_job) [e1, e2, e3] m3"
    and "\<And>t. follows (shared_threads t) (part t [e1, e2, e3])"
    and "conflict_free (\<lambda>i. jobs_in m_content (demo_stored waiting_job) i \<noteq> None) [e1, e2, e3]"
    and "visible (jobs_in m_content m2) ''J0'' = Some StateAwaitingClientSig" and "visible (jobs_in m_content m3) ''J0'' = Some StateFinalizing"
  using submit_events_run
proof (rule submit_checked.elims(2))
  fix e1 m1 e2 m2 e3 m3
  assume es: "submit_events = [(e1, m1), (e2, m2), (e3, m3)]"
    and run: "follows (shared_threads 1) (part 1 [e1, e2, e3]) \<and> follows (shared_threads 2) (part 2 [e1, e2, e3]) \<and>
      conflict_free (\<lambda>i. jobs_in m_content (demo_stored waiting_job) i \<noteq> None) [e1, e2, e3] \<and>
      visible (jobs_in m_content m2) ''J0'' = Some StateAwaitingClientSig \<and> visible (jobs_in m_content m3) ''J0'' = Some StateFinalizing"
  note ev = submit_events_def [symmetric, unfolded es]
  have ev1: "play mem_redis shared_threads [] [1, 2, 1] (demo_stored waiting_job) = [(e1, m1)] @ (e2, m2) # [(e3, m3)]"
    and ev2: "play mem_redis shared_threads [] [1, 2, 1] (demo_stored waiting_job) = [(e1, m1), (e2, m2)] @ (e3, m3) # []"
    unfolding ev by simp_all
  have 1: "history mem_redis m_content (demo_stored waiting_job) [e1, e2] m2"
    using play_history [OF history.start ev1] by simp
  have 2: "history mem_redis m_content (demo_stored waiting_job) [e1, e2, e3] m3"
    using play_history [OF history.start ev2] by simp
  have 3: "happens mem_redis m_content m2 e3 m3" by (rule play_happens [OF ev1])
  have "follows (shared_threads t) (part t [e1, e2, e3])" for t
  proof (cases "t = 1 \<or> t = 2")
    case False
    then have "part t [e1, e2, e3] = []"
      using play_part [of t "[1, 2, 1]" mem_redis shared_threads "[]" "demo_stored waiting_job", unfolded ev] by simp
    then show ?thesis by (simp add: follows_def)
  qed (use run in blast)
  with 1 2 3 run show ?thesis by (intro that) blast+
qed

lemma waiting_ok: "store_ok (jobs_in m_content (demo_stored waiting_job))"
  by (simp add: store_ok_def job_ok_def waiting_job_def demo_defs)

section \<open>Properties\<close>

text \<open>
  C1: The stored jobs are in order however operations overlap. Any number of requests to, and workers
  of, any instances of the application that started share one Redis, whose commands may fail and
  whose keys may expire at any moment, and their commands come in any order: a job is always found
  under its own id, a job that is ready has only ready documents, and a document is ready only in a
  job that has ended.
\<close>

theorem overlapping_jobs_in_order:
  assumes "redis_server R content items" and "\<And>t. service_thread u (body t)"
    and "history R content m h1 m1" and "\<And>t. follows (body t) (part t (h1 @ h2))" and "store_ok (jobs_in content m)"
    and "jobs_in content m1 i = Some j"
  shows "j_JobID j = i \<and> (j_State j = StateReady \<longrightarrow> list_all (\<lambda>d. d_State d = DocReady) (j_Documents j)) \<and>
    (list_ex (\<lambda>d. d_State d = DocReady) (j_Documents j) \<longrightarrow> Terminal (j_State j))"
  using redis_server.history_sound [OF assms(1,3,4) service_thread_fair [OF assms(2)] assms(5)] assms(6)
  by (auto simp: store_ok_def job_ok_def)

theorem overlapping_jobs_in_order_witness:
  "\<exists>h m j. history mem_redis m_content (demo_stored waiting_job) h m \<and> length h = 3 \<and> jobs_in m_content m ''J0'' = Some j \<and>
     j_State j = StateFinalizing \<and> j_JobID j = ''J0''"
proof (rule submit_events_history)
  fix e1 e2 e3 m3
  assume h: "history mem_redis m_content (demo_stored waiting_job) [e1, e2, e3] m3" and f: "\<And>t. follows (shared_threads t) (part t [e1, e2, e3])"
    and "visible (jobs_in m_content m3) ''J0'' = Some StateFinalizing"
  then obtain j where j: "jobs_in m_content m3 ''J0'' = Some j" "j_State j = StateFinalizing" by (auto simp: visible_def)
  have f': "\<And>t. follows (shared_threads t) (part t ([e1, e2, e3] @ []))" using f by simp
  have "j_JobID j = ''J0''"
    using overlapping_jobs_in_order [OF demo_redis(1) shared_service h f' waiting_ok j(1)] by simp
  with h j show ?thesis by (intro exI [of _ "[e1, e2, e3]"] exI [of _ m3] exI [of _ j]) simp
qed

text \<open>
  C2: Operations that do not disturb each other follow the life cycle. In every such history in which
  nobody writes a job that someone else has written, removed or let expire since he read it, each
  command and each expiry is at most one step of the abstract signer: one job appears in one of its
  first states, moves along the declared transitions, fails or disappears.
\<close>

theorem undisturbed_refines_lifecycle:
  assumes "redis_server R content items" and "\<And>t. service_thread u (body t)"
    and "history R content m h1 m1" and "happens R content m1 e m2" and "\<And>t. follows (body t) (part t (h1 @ e # h2))"
    and "store_ok (jobs_in content m)" and "conflict_free (\<lambda>i. jobs_in content m i \<noteq> None) (h1 @ e # h2)"
  shows "visible_step (visible (jobs_in content m1)) (visible (jobs_in content m2))"
  by (rule redis_server.history_lifecycle [OF assms(1,3,4,5) service_thread_fair [OF assms(2)] assms(6,7)])

theorem undisturbed_refines_lifecycle_witness:
  "\<exists>v v'. visible_step v v' \<and> v ''J0'' = Some StateAwaitingClientSig \<and> v' ''J0'' = Some StateFinalizing"
proof (rule submit_events_history)
  fix e1 e2 e3 m2 m3
  assume h: "history mem_redis m_content (demo_stored waiting_job) [e1, e2] m2" "happens mem_redis m_content m2 e3 m3"
    and f: "\<And>t. follows (shared_threads t) (part t [e1, e2, e3])"
    and c: "conflict_free (\<lambda>i. jobs_in m_content (demo_stored waiting_job) i \<noteq> None) [e1, e2, e3]"
    and v: "visible (jobs_in m_content m2) ''J0'' = Some StateAwaitingClientSig" "visible (jobs_in m_content m3) ''J0'' = Some StateFinalizing"
  have f': "\<And>t. follows (shared_threads t) (part t ([e1, e2] @ [e3]))" using f by simp
  have "visible_step (visible (jobs_in m_content m2)) (visible (jobs_in m_content m3))"
    by (rule undisturbed_refines_lifecycle [OF demo_redis(1) shared_service h f' waiting_ok]) (use c in simp)
  with v show ?thesis by blast
qed

text \<open>
  What the premise excludes: two requests submit the signatures of one job, both read it waiting, the
  first writes and queues it, the worker makes it ready, and then the second writes what it read with
  its own signatures. The job that was ready waits for finalize again.
\<close>

definition reopening_events :: "(event \<times> mem_state) list" where
  "reopening_events = play mem_redis shared_threads [] [1, 2, 1, 1, 3, 3, 3, 2] (demo_stored waiting_job)"

lemma overlapping_submits_reopen:
  "map (\<lambda>(e, m). visible (jobs_in m_content m) ''J0'') reopening_events =
     [Some StateAwaitingClientSig, Some StateAwaitingClientSig, Some StateFinalizing, Some StateFinalizing,
      Some StateFinalizing, Some StateFinalizing, Some StateReady, Some StateFinalizing]"
  by code_simp

text \<open>A job that was deleted, with the answer that it is gone, comes back when a request that had read it writes it.\<close>

definition reviving_events :: "(event \<times> mem_state) list" where
  "reviving_events = play mem_redis shared_threads [] [1, 4, 4, 1] (demo_stored waiting_job)"

lemma overlapping_delete_undone:
  "map (\<lambda>(e, m). visible (jobs_in m_content m) ''J0'') reviving_events =
     [Some StateAwaitingClientSig, Some StateAwaitingClientSig, None, Some StateFinalizing]"
  by code_simp

end
