(* ===== verification/Worker.thy ===== *)
theory Worker
  imports Orchestrator
begin

text \<open>
  \<^verbatim>\<open>signing/worker.go\<close>: the background worker with its start and stop. Its goroutine is at one of the
  places below; a step takes it to the next. The channel \<^verbatim>\<open>stop\<close> tells it to end, \<^verbatim>\<open>done\<close> tells that it has:
  a channel that was never made is \<open>None\<close>, else it is known whether it is closed.

  Shown is that the steps are the rounds of \<open>worker_round\<close>, that \<open>Stop\<close> waits for the job in work and no
  job is taken after it returned, and that the goroutine ends three steps after the signal at the latest.
\<close>

section \<open>The worker\<close>

datatype place =
    NotStarted
  | AtSelect       \<comment> \<open>the head of the loop\<close>
  | AtDequeue      \<comment> \<open>\<^verbatim>\<open>DequeueWork\<close>\<close>
  | AtBackoff      \<comment> \<open>the second \<^verbatim>\<open>select\<close>\<close>
  | AtJob string   \<comment> \<open>\<^verbatim>\<open>RunJob\<close>\<close>
  | Returned

record worker =
  wk_stop :: "bool option"
  wk_done :: "bool option"
  wk_at :: place

definition NewWorker :: worker where
  "NewWorker = \<lparr>wk_stop = None, wk_done = None, wk_at = NotStarted\<rparr>"

definition worker_Start :: "worker \<Rightarrow> worker" where
  "worker_Start w = w\<lparr>wk_stop := Some False, wk_done := Some False, wk_at := AtSelect\<rparr>"

text \<open>\<open>Stop\<close> up to its wait, or the panic of a channel that is closed twice; and whether it gets past the wait.\<close>

definition worker_Stop :: "worker \<Rightarrow> err + worker" where
  "worker_Stop w =
     (case wk_stop w of
        None \<Rightarrow> Inr w
      | Some True \<Rightarrow> Inl (ErrOther ''close of closed channel'')
      | Some False \<Rightarrow> Inr (w\<lparr>wk_stop := Some True\<rparr>))"

definition stop_returns :: "worker \<Rightarrow> bool" where
  "stop_returns w \<longleftrightarrow> wk_stop w = None \<or> wk_done w = Some True"

text \<open>
  One step of \<open>run\<close>. \<open>cancelled\<close>: the context has ended. \<open>timer\<close>: in the second \<^verbatim>\<open>select\<close> the timer is taken,
  also when another case is ready. The wait itself is the environment's, as in \<open>worker_round\<close>.
\<close>

definition ending :: "worker \<Rightarrow> bool \<Rightarrow> bool" where
  "ending w cancelled \<longleftrightarrow> wk_stop w = Some True \<or> cancelled"

definition return_run :: "worker \<Rightarrow> worker" where
  "return_run w = w\<lparr>wk_done := Some True, wk_at := Returned\<rparr>"

fun run_next :: "('r, 'u) Orchestrator \<Rightarrow> bool \<Rightarrow> bool \<Rightarrow> worker \<times> ('r, 'u) sys \<Rightarrow> worker \<times> ('r, 'u) sys" where
  "run_next ob cancelled timer (w, s) =
     (case wk_at w of
        NotStarted \<Rightarrow> (w, s)
      | AtSelect \<Rightarrow> if ending w cancelled then (return_run w, s) else (w\<lparr>wk_at := AtDequeue\<rparr>, s)
      | AtDequeue \<Rightarrow>
          (case onRedis (DequeueWork (o_jobs ob) (secs 5)) s of
             (Inl e, s') \<Rightarrow> if err_is e ErrNotFound then (w\<lparr>wk_at := AtSelect\<rparr>, s') else (w\<lparr>wk_at := AtBackoff\<rparr>, s')
           | (Inr jobID, s') \<Rightarrow> (w\<lparr>wk_at := AtJob jobID\<rparr>, s'))
      | AtBackoff \<Rightarrow>
          if ending w cancelled \<and> \<not> timer then (return_run w, s)
          else (w\<lparr>wk_at := AtSelect\<rparr>, snd (onNet (onEnv (e_wait (o_env ob) (secs 1))) s))
      | AtJob jobID \<Rightarrow> (w\<lparr>wk_at := AtSelect\<rparr>, snd (RunJob ob jobID s))
      | Returned \<Rightarrow> (w, s))"

section \<open>Its life\<close>

text \<open>What can happen: a start (the framework starts a task once), a stop, a step of the goroutine, and anything done to the rest of the state by others.\<close>

inductive worker_step :: "('r, 'u) Orchestrator \<Rightarrow> worker \<times> ('r, 'u) sys \<Rightarrow> worker \<times> ('r, 'u) sys \<Rightarrow> bool" for ob where
  start: "wk_stop w = None \<Longrightarrow> worker_step ob (w, s) (worker_Start w, s)"
| stop: "worker_Stop w = Inr w' \<Longrightarrow> worker_step ob (w, s) (w', s)"
| run: "worker_step ob (w, s) (run_next ob cancelled timer (w, s))"
| others: "worker_step ob (w, s) (w, s')"

inductive_cases worker_stepE: "worker_step ob x y"

inductive worker_life :: "('r, 'u) Orchestrator \<Rightarrow> worker \<times> ('r, 'u) sys \<Rightarrow> bool" for ob where
  new: "worker_life ob (NewWorker, s)"
| step: "worker_life ob x \<Longrightarrow> worker_step ob x y \<Longrightarrow> worker_life ob y"

definition worker_ok :: "worker \<Rightarrow> bool" where
  "worker_ok w \<longleftrightarrow> (wk_done w = Some True \<longleftrightarrow> wk_at w = Returned) \<and> (wk_stop w = None \<longleftrightarrow> wk_at w = NotStarted)"

text \<open>How a step leaves the worker: the signal is kept, and the place is one of these.\<close>

lemma run_next_stop [simp]: "wk_stop (fst (run_next ob c t (w, s))) = wk_stop w"
  by (auto simp: return_run_def split: place.split prod.split sum.split)

lemma run_next_ok: "worker_ok w \<Longrightarrow> worker_ok (fst (run_next ob c t (w, s)))"
  by (auto simp: worker_ok_def return_run_def split: place.splits prod.splits sum.splits)

lemma worker_Stop_ok: "worker_Stop w = Inr w' \<Longrightarrow> worker_ok w \<Longrightarrow> worker_ok w'"
  by (auto simp: worker_Stop_def worker_ok_def split: option.splits bool.splits)

lemma worker_life_ok: "worker_life ob (w, s) \<Longrightarrow> worker_ok w"
proof (induction "(w, s)" arbitrary: w s rule: worker_life.induct)
  case (new s)
  then show ?case by (simp add: worker_ok_def NewWorker_def)
next
  case (step x w s)
  obtain w0 s0 where x: "x = (w0, s0)" by fastforce
  with step have ok: "worker_ok w0" by blast
  from step(3) [unfolded x] show ?case
  proof cases
    case start
    then show ?thesis by (simp add: worker_ok_def worker_Start_def)
  next
    case stop
    then show ?thesis using ok by (auto intro: worker_Stop_ok)
  next
    case (run c t)
    from run_next_ok [OF ok, of ob c t s0] show ?thesis by (simp add: run [symmetric] del: run_next.simps)
  next
    case others
    then show ?thesis using ok by simp
  qed
qed

text \<open>With the signal given, each place is left towards the end.\<close>

fun to_go :: "place \<Rightarrow> nat" where
  "to_go NotStarted = 0"
| "to_go AtSelect = 1"
| "to_go AtDequeue = 3"
| "to_go AtBackoff = 2"
| "to_go (AtJob i) = 2"
| "to_go Returned = 0"

lemma run_next_to_go:
  assumes "wk_stop w = Some True" and "worker_ok w" and "wk_at w \<noteq> Returned"
  shows "to_go (wk_at (fst (run_next ob c t (w, s)))) < to_go (wk_at w)"
  using assms by (auto simp: worker_ok_def ending_def return_run_def split: place.splits prod.splits sum.splits)

definition ending_in :: "nat \<Rightarrow> worker \<times> ('r, 'u) sys \<Rightarrow> bool" where
  "ending_in n x \<longleftrightarrow> wk_stop (fst x) = Some True \<and> worker_ok (fst x) \<and> to_go (wk_at (fst x)) \<le> n"

lemma run_next_returned: "wk_at (fst x) = Returned \<Longrightarrow> run_next ob c t x = x"
  by (cases x) simp

lemma ending_in_step: "ending_in (Suc n) x \<Longrightarrow> ending_in n (run_next ob c t x)"
proof (cases x)
  case (Pair w s)
  assume "ending_in (Suc n) x"
  then show ?thesis
    using run_next_to_go [of w ob c t s] run_next_ok [of w ob c t s] run_next_returned [of x ob c t]
    by (cases "wk_at w = Returned") (auto simp: ending_in_def Pair simp del: run_next.simps)
qed

lemma ending_in_0: "ending_in 0 x \<Longrightarrow> wk_at (fst x) = Returned"
  by (cases "wk_at (fst x)") (auto simp: ending_in_def worker_ok_def)

section \<open>Properties\<close>

text \<open>
  The steps are rounds. A worker at the head of its loop, not told to end, is there again after at
  most three steps, with the state \<open>worker_round\<close> leaves.
\<close>

theorem worker_steps_round:
  assumes "wk_at w = AtSelect" and "\<not> ending w c"
  shows "\<exists>n\<le>3. (run_next ob c True ^^ n) (w, s) = (w, snd (worker_round ob s))"
proof -
  have w: "w\<lparr>wk_at := AtSelect\<rparr> = w" using assms(1) by simp
  have 1: "run_next ob c True (w, s) = (w\<lparr>wk_at := AtDequeue\<rparr>, s)" using assms by simp
  have e: "ending (w\<lparr>wk_at := p\<rparr>) c \<longleftrightarrow> ending w c" for p by (simp add: ending_def)
  obtain r s1 where d: "onRedis (DequeueWork (o_jobs ob) (secs 5)) s = (r, s1)" by fastforce
  show ?thesis
  proof (cases r)
    case (Inl x)
    show ?thesis
    proof (cases "err_is x ErrNotFound")
      case True
      then have "(run_next ob c True ^^ 2) (w, s) = (w, snd (worker_round ob s))"
        using d Inl by (simp add: 1 w numeral_2_eq_2 worker_round_def run_defs del: run_next.simps) (simp add: w)
      then show ?thesis by (intro exI [of _ 2]) simp
    next
      case False
      then have "(run_next ob c True ^^ 3) (w, s) = (w, snd (worker_round ob s))"
        using d Inl by (simp add: 1 w numeral_3_eq_3 worker_round_def run_defs del: run_next.simps) (simp add: w)
      then show ?thesis by (intro exI [of _ 3]) simp
    qed
  next
    case (Inr i)
    then have "(run_next ob c True ^^ 3) (w, s) = (w, snd (worker_round ob s))"
      using d by (simp add: 1 w numeral_3_eq_3 worker_round_def run_defs del: run_next.simps) (simp add: w)
    then show ?thesis by (intro exI [of _ 3]) simp
  qed
qed

text \<open>
  C31: The worker stops, and not in the middle of a job. Once told to stop, it has returned after three
  of its steps at the latest, whatever the store, the network and the timer do, so it runs at most the
  one job it is about to take; \<open>Stop\<close> returns exactly when the goroutine has returned, and then it takes
  no step any more: no job is in work and none is taken from the queue.
\<close>

theorem worker_stops:
  assumes "worker_life ob (w, s)" and "wk_stop w = Some True"
  shows "(stop_returns w \<longleftrightarrow> wk_at w = Returned) \<and> (wk_at w = Returned \<longrightarrow> run_next ob c t (w, s) = (w, s)) \<and>
    wk_at (fst (run_next ob c3 t3 (run_next ob c2 t2 (run_next ob c1 t1 (w, s))))) = Returned"
proof -
  have ok: "worker_ok w" by (rule worker_life_ok [OF assms(1)])
  then have "ending_in 3 (w, s)" using assms(2) by (cases "wk_at w") (simp_all add: ending_in_def)
  then have "ending_in 0 (run_next ob c3 t3 (run_next ob c2 t2 (run_next ob c1 t1 (w, s))))"
    by (intro ending_in_step) (simp add: numeral_3_eq_3)
  then have "wk_at (fst (run_next ob c3 t3 (run_next ob c2 t2 (run_next ob c1 t1 (w, s))))) = Returned" by (rule ending_in_0)
  with ok assms(2) run_next_returned [of "(w, s)" ob c t] show ?thesis by (simp add: stop_returns_def worker_ok_def del: run_next.simps)
qed

theorem worker_stops_witness:
  "let w = (worker_Start NewWorker)\<lparr>wk_stop := Some True, wk_at := AtSelect\<rparr>; s = demo_sys mem_empty [] emptyJob in
   wk_at (fst (run_next demo False True (run_next demo False True (run_next demo False True (w, s))))) = Returned"
proof -
  let ?w = "(worker_Start NewWorker)\<lparr>wk_stop := Some True, wk_at := AtSelect\<rparr>" and ?s = "demo_sys mem_empty [] emptyJob"
  have "worker_life demo (worker_Start NewWorker, ?s)"
    by (rule worker_life.step [OF worker_life.new]) (rule worker_step.start, simp add: NewWorker_def)
  then have "worker_life demo (?w, ?s)"
    by (rule worker_life.step) (rule worker_step.stop, simp add: worker_Stop_def worker_Start_def)
  from worker_stops [OF this] show ?thesis by (simp add: Let_def del: run_next.simps)
qed

text \<open>A second stop of a worker that was started closes a closed channel: the goroutine that calls it panics.\<close>

lemma worker_Stop_twice: "wk_stop w = Some False \<Longrightarrow> worker_Stop w = Inr w' \<Longrightarrow> \<exists>e. worker_Stop w' = Inl e"
  by (auto simp: worker_Stop_def)

end
