(* ===== verification/Job_Text.thy ===== *)
theory Job_Text
  imports Json_Text Store
begin

text \<open>
  The bytes a job is stored as: \<open>job_text\<close> is what \<open>Store.Save\<close> marshals and
  \<open>job_of_text\<close> what \<open>Store.Get\<close> unmarshals (\<^verbatim>\<open>job/store.go\<close>). Every job whose texts are
  valid UTF-8 and whose times are of the years 0 to 9999 is read back from its bytes field
  for field, its times to the nanosecond; of a job with other bytes in a text, those bytes
  are replaced and nothing else changes.
\<close>

definition job_text :: "Job \<Rightarrow> string" where
  "job_text j = json_text (job_json j)"

definition job_of_text :: "string \<Rightarrow> Job option" where
  "job_of_text s = Option.bind (json_parse s) job_of_json"

section \<open>Jobs with valid texts\<close>

definition valid_error :: "JobError \<Rightarrow> bool" where
  "valid_error e \<longleftrightarrow> valid_utf8 (e_Code e) \<and> valid_utf8 (e_Message e)"

definition valid_document :: "Document \<Rightarrow> bool" where
  "valid_document d \<longleftrightarrow>
     list_all valid_utf8 [d_DocumentID d, d_FileName d, d_MimeType d, d_Format d, d_SessionID d, d_Digest d,
       d_DigestAlgorithm d, d_DigestsSummary d, d_SignatureValue d] \<and>
     (case d_Error d of None \<Rightarrow> True | Some e \<Rightarrow> valid_error e)"

definition valid_job :: "Job \<Rightarrow> bool" where
  "valid_job j \<longleftrightarrow>
     list_all valid_utf8 [j_JobID j, j_Flow j, j_Caller j, j_Locale j, j_PostAuthRedirect j, j_AuthErrorRedirect j,
       j_SignatureQualifier j, j_SignAlgo j, j_HashAlgorithmOID j, j_DigestsSummary j, j_DigestsSummaryAlgo j,
       j_SealID j, j_OAuthState j, j_PKCEVerifier j, j_SignIdentityID j, j_SigningCert j, j_AuthCert j,
       j_CredentialID j, j_ProfileToken j, j_SigningToken j, j_VerificationCode j, j_VerificationMessage j,
       j_SubjectRef j] \<and>
     list_all valid_document (j_Documents j) \<and> (case j_Err j of None \<Rightarrow> True | Some e \<Rightarrow> valid_error e) \<and>
     in_range (j_CreatedAt j) \<and> in_range (j_UpdatedAt j)"

text \<open>ASCII is valid, and so are the keys, the constants and the times.\<close>

definition ascii :: "string \<Rightarrow> bool" where
  "ascii s \<longleftrightarrow> list_all (byte_in 0 127) s"

lemma ascii_valid: "ascii s \<Longrightarrow> valid_utf8 s"
  by (induction s) (auto simp: ascii_def first_rune.simps)

lemma ascii_digits: "list_all is_digit s \<Longrightarrow> ascii s"
  by (auto simp: ascii_def list_all_iff is_digit_def byte_in_def)

lemma ascii_append [simp]: "ascii (s @ t) \<longleftrightarrow> ascii s \<and> ascii t" "ascii (c # s) \<longleftrightarrow> byte_in 0 127 c \<and> ascii s" "ascii []"
  by (simp_all add: ascii_def)

lemma ascii_pad2: "0 \<le> n \<Longrightarrow> n < 100 \<Longrightarrow> ascii (pad2 n)"
  using digit_of_char [of "n div 10"] digit_of_char [of "n mod 10"]
  by (intro ascii_digits) (simp add: pad2_def div_less_iff_less_mult)

lemma ascii_pad4: "0 \<le> n \<Longrightarrow> n < 10000 \<Longrightarrow> ascii (pad4 n)"
  by (simp add: pad4_def ascii_pad2 div_less_iff_less_mult)

lemma ascii_clock: "0 \<le> c \<Longrightarrow> c < 86400 \<Longrightarrow> ascii (clock_text c)"
proof -
  assume c: "0 \<le> c" "c < 86400"
  have "x mod 60 < 100" "0 \<le> x mod 60" for x :: int using pos_mod_bound [of 60 x] by auto
  with c show ?thesis by (simp add: clock_text_def byte_in_def ascii_pad2 div_less_iff_less_mult)
qed

lemma ascii_date:
  assumes "days_before 0 \<le> n" "n < days_before 10000"
  shows "ascii (date_text n)"
proof -
  obtain m r where d: "date_text n = pad4 (year_of_day n) @ ''-'' @ pad2 (m + 1) @ ''-'' @ pad2 (r + 1)"
    "0 \<le> m" "m < 12" "0 \<le> r" "r + 1 < 100"
    using date_parts [OF assms] by blast
  with year_range [OF assms] show ?thesis by (simp add: ascii_pad4 ascii_pad2 byte_in_def)
qed

lemma ascii_frac: "0 \<le> n \<Longrightarrow> n < second \<Longrightarrow> ascii (frac_text n)"
proof -
  assume n: "0 \<le> n" "n < second"
  have "ascii (rev (dropWhile p (rev s)))" if "ascii s" for p s
    using that by (auto simp: ascii_def list_all_iff dest: set_dropWhileD)
  with ascii_digits [OF pad9_digits [OF n]] show ?thesis by (simp add: frac_text_def byte_in_def)
qed

lemma ascii_time: "in_range t \<Longrightarrow> ascii (rfc3339_nano t)"
  using ascii_frac [of "t mod second"]
  by (simp add: rfc3339_nano_def seconds_text_def in_range_def ascii_date ascii_clock byte_in_def second_def)

section \<open>Objects through their text\<close>

lemma clean_mk_obj:
  "clean (mk_obj fs) = mk_obj (map (\<lambda>(k, v). (to_valid k, map_option clean v)) fs)"
  by (induction fs) (auto simp: mk_obj_def split: option.splits)

definition ascii_keys :: "(string \<times> json option) list \<Rightarrow> bool" where
  "ascii_keys fs \<longleftrightarrow> list_all (\<lambda>f. ascii (fst f)) fs"

lemma field_clean: "ascii_keys fs \<Longrightarrow> field (clean (mk_obj fs)) k = map_option clean (field (mk_obj fs) k)"
  unfolding clean_mk_obj
proof (induction fs)
  case (Cons f fs)
  then show ?case
    by (cases f) (auto simp: ascii_keys_def field_mk_obj_cons to_valid_id ascii_valid)
qed (simp add: mk_obj_def)

lemma clean_omit [simp]:
  "valid_utf8 s \<Longrightarrow> map_option clean (omit_str s) = omit_str s"
  "map_option clean (omit_bool b) = omit_bool b" "map_option clean (omit_num n) = omit_num n"
  by (simp_all add: omit_str_def omit_bool_def omit_num_def to_valid_id)

lemma clean_constants [simp]:
  "to_valid (state_str st) = state_str st" "to_valid (op_str op) = op_str op" "to_valid (dstate_str ds) = dstate_str ds"
  by (rule to_valid_id, rule ascii_valid, (cases st; cases op; cases ds; simp add: byte_in_def))+

lemma clean_time: "in_range t \<Longrightarrow> parse_rfc3339 (to_valid (rfc3339_nano t)) = Some t"
  by (simp add: to_valid_id ascii_valid ascii_time)

lemma is_obj_clean: "is_obj (clean (mk_obj fs))"
  by (simp add: mk_obj_def)

lemma error_of_clean: "valid_error e \<Longrightarrow> error_of_json (clean (error_json e)) = Some e"
  unfolding error_of_json_def error_json_def
  by (simp add: is_obj_clean field_clean ascii_keys_def byte_in_def field_mk_obj valid_error_def to_valid_id)

lemma opt_error_of_clean:
  assumes "case e of None \<Rightarrow> True | Some x \<Rightarrow> valid_error x"
  shows "opt_error_of_json (map_option clean (map_option error_json e)) = Some e"
proof (cases e)
  case (Some x)
  obtain fs where "clean (error_json x) = JObj fs" by (simp add: error_json_def mk_obj_def)
  with Some assms error_of_clean [of x] show ?thesis by simp
qed simp

lemma document_of_clean: "valid_document d \<Longrightarrow> document_of_json (clean (document_json d)) = Some d"
  unfolding document_of_json_def document_json_def document_strs_def
  by (simp add: field_clean ascii_keys_def byte_in_def field_mk_obj valid_document_def to_valid_id opt_error_of_clean)

lemma documents_of_clean:
  "list_all valid_document ds \<Longrightarrow>
     documents_of_json (Some (JArr (map clean (map document_json ds)))) = Some ds"
  by (induction ds) (simp_all add: document_of_clean)

lemma job_field_clean: "field (clean (job_json j)) k = map_option clean (field (job_json j) k)"
  unfolding job_json_def by (rule field_clean) (simp add: ascii_keys_def byte_in_def)

lemma job_of_clean: "valid_job j \<Longrightarrow> job_of_json (clean (job_json j)) = Some j"
  by (simp add: job_of_json_def job_strs_def job_nums_def job_times_def job_field_clean job_json_field valid_job_def
      opt_error_of_clean documents_of_clean clean_time to_valid_id
      del: documents_of_json.simps map_map)

section \<open>The stored bytes\<close>

text \<open>
  The store of \<open>Store\<close> keeps values; the bytes Redis really holds for them, and what \<open>Load\<close>
  makes of bytes. For such a job reading the bytes is reading the value.
\<close>

fun rval_bytes :: "rval \<Rightarrow> string" where
  "rval_bytes (RText t) = t"
| "rval_bytes (RJson v) = json_text v"

definition unmarshal_bytes :: "string \<Rightarrow> err + Job" where
  "unmarshal_bytes s =
     (case json_parse s of None \<Rightarrow> Inl (ErrOther ''invalid character'') | Some v \<Rightarrow> unmarshal_job (RJson v))"

interpretation stored_text: codec valid_job job_text job_of_text
  by unfold_locales (simp add: job_of_text_def job_text_def json_parse_text job_of_clean)

lemma unmarshal_bytes_saved:
  "valid_job j \<Longrightarrow> unmarshal_bytes (rval_bytes (RJson (job_json j))) = unmarshal_job (RJson (job_json j))"
  by (simp add: unmarshal_bytes_def unmarshal_job_def json_parse_text job_of_clean)

text \<open>
  C34: the bytes stored for a job give the job back. Whatever its texts contain (quotes,
  backslashes, control characters, runes of several bytes), a job whose texts are valid
  UTF-8 and whose times are of the years 0 to 9999, marshalled to JSON text, escapes and
  RFC 3339 times included, and unmarshalled by whichever replica runs the next step, is the
  same job in every field, its times to the nanosecond.
\<close>

theorem job_text_roundtrip: "valid_job j \<Longrightarrow> job_of_text (job_text j) = Some j"
  by (rule stored_text.reads_writes)

definition text_job :: Job where
  "text_job = emptyJob\<lparr>j_JobID := ''j1'', j_Flow := ''webEid'', j_State := StateFinalizing,
     j_CreatedAt := 1718000000120000000, j_UpdatedAt := 1718000001000000000,
     j_Caller := [CHR 0x22, CHR 0x5C, CHR 0x0A, CHR 0xC4, CHR 0x81, CHR 0xE2, CHR 0x80, CHR 0xA8, CHR ''<''],
     j_Err := Some (JobError ''code'' ''x'')\<rparr>"

lemma text_job_valid: "valid_job text_job"
  by code_simp

theorem job_text_roundtrip_witness: "valid_job text_job \<and> job_of_text (job_text text_job) = Some text_job"
  using job_text_roundtrip [OF text_job_valid] text_job_valid by simp

end
