(* ===== verification/Responses.thy ===== *)
theory Responses
  imports Handlers
begin

text \<open>
  What the replies of the routes say: the JSON value that the struct tags of
  \<^verbatim>\<open>routes/response/response.go\<close> give each response type (\<open>body_json\<close>), and how much of a job a
  status response tells. A field tagged \<open>omitempty\<close> is left out when it has its zero value; a
  list to which nothing was appended is null. Two jobs have the same status response exactly
  when they agree on \<open>public_view\<close>: a client learns what that lists, all of it and nothing
  else, so no token, certificate, identity, OAuth state or PKCE verifier of a job.
\<close>

section \<open>The response types\<close>

definition respError_json :: "string \<times> string \<Rightarrow> json" where
  "respError_json e = mk_obj [(''code'', Some (JStr (fst e))), (''message'', Some (JStr (snd e)))]"

definition authorization_json :: "Authorization \<Rightarrow> json" where
  "authorization_json a = mk_obj [
     (''type'', Some (JStr (az_Type a))),
     (''authorizeUrl'', Some (JStr (az_AuthorizeURL a))),
     (''expiresIn'', omit_num (int (az_ExpiresIn a)))]"

definition prepareDocumentRef_json :: "PrepareDocumentRef \<Rightarrow> json" where
  "prepareDocumentRef_json d = mk_obj [
     (''documentId'', Some (JStr (pq_DocumentID d))),
     (''digest'', omit_str (pq_Digest d)),
     (''digestAlgorithm'', omit_str (pq_DigestAlgorithm d))]"

definition omit_arr :: "json list \<Rightarrow> json option" where
  "omit_arr vs = (if vs = [] then None else Some (JArr vs))"

definition prepare_json :: "PrepareResponse \<Rightarrow> json" where
  "prepare_json p = mk_obj [
     (''jobId'', Some (JStr (ps_JobID p))),
     (''flow'', Some (JStr (ps_Flow p))),
     (''state'', Some (JStr (state_str (ps_State p)))),
     (''authorization'', map_option authorization_json (ps_Authorization p)),
     (''signAlgorithm'', omit_str (ps_SignAlgorithm p)),
     (''documents'', omit_arr (map prepareDocumentRef_json (ps_Documents p)))]"

definition accepted_json :: "Accepted \<Rightarrow> json" where
  "accepted_json a = mk_obj [
     (''jobId'', Some (JStr (ad_JobID a))),
     (''flow'', Some (JStr (ad_Flow a))),
     (''state'', Some (JStr (state_str (ad_State a))))]"

definition statusDocument_json :: "StatusDocument \<Rightarrow> json" where
  "statusDocument_json d = mk_obj [
     (''documentId'', Some (JStr (sd_DocumentID d))),
     (''state'', Some (JStr (dstate_str (sd_State d)))),
     (''downloadUrl'', omit_str (sd_DownloadURL d)),
     (''error'', map_option respError_json (sd_Error d))]"

definition list_json :: "json list \<Rightarrow> json" where
  "list_json vs = (if vs = [] then JNull else JArr vs)"

definition status_json :: "StatusResponse \<Rightarrow> json" where
  "status_json s = mk_obj [
     (''jobId'', Some (JStr (so_JobID s))),
     (''flow'', Some (JStr (so_Flow s))),
     (''state'', Some (JStr (state_str (so_State s)))),
     (''verificationCode'', omit_str (so_VerificationCode s)),
     (''verificationMessage'', omit_str (so_VerificationMessage s)),
     (''signingDeadline'', omit_num (so_SigningDeadline s)),
     (''documents'', Some (list_json (map statusDocument_json (so_Documents s)))),
     (''updatedAt'', Some (JStr (so_UpdatedAt s)))]"

definition info_json :: "string list \<Rightarrow> json" where
  "info_json fs = mk_obj [(''flows'', Some (JArr (map (\<lambda>f. mk_obj [(''name'', Some (JStr f))]) fs)))]"

definition probe_json :: "string \<Rightarrow> json" where
  "probe_json s = mk_obj [(''status'', Some (JStr s))]"

text \<open>The JSON a reply carries; the other replies are a container, a report, a text, a redirect or nothing.\<close>

fun body_json :: "reply_body \<Rightarrow> json option" where
  "body_json (RPrepare p) = Some (prepare_json p)"
| "body_json (RAccepted a) = Some (accepted_json a)"
| "body_json (RStatus s) = Some (status_json s)"
| "body_json (RInfo fs) = Some (info_json fs)"
| "body_json (RProbe s) = Some (probe_json s)"
| "body_json _ = None"

section \<open>Responses differ when they say different things\<close>

lemma constants_differ [simp]:
  "state_str x = state_str y \<longleftrightarrow> x = y" "dstate_str a = dstate_str b \<longleftrightarrow> a = b"
  by (metis state_read option.inject, metis dstate_read option.inject)

lemma omit_differ [simp]:
  "omit_str s = omit_str t \<longleftrightarrow> s = t" "omit_num m = omit_num n \<longleftrightarrow> m = n"
  by (metis omit_read(2), metis omit_read(6))

lemma respError_differ: "inj respError_json"
  by (auto simp: inj_def respError_json_def mk_obj_def prod_eq_iff)

lemma list_json_differ [simp]: "list_json vs = list_json ws \<longleftrightarrow> vs = ws"
  by (auto simp: list_json_def)

text \<open>Two objects with the same keys are equal when all their fields are.\<close>

lemma statusDocument_differ: "statusDocument_json d = statusDocument_json d' \<longleftrightarrow> d = d'"
proof
  assume "statusDocument_json d = statusDocument_json d'"
  then have "field (statusDocument_json d) k = field (statusDocument_json d') k" for k by simp
  from this [of "''documentId''"] this [of "''state''"] this [of "''downloadUrl''"] this [of "''error''"]
  show "d = d'"
    by (simp add: statusDocument_json_def field_mk_obj option.inj_map_strong inj_eq [OF option.inj_map [OF respError_differ]])
qed simp

lemma status_differ: "status_json s = status_json s' \<longleftrightarrow> s = s'"
proof
  assume "status_json s = status_json s'"
  then have f: "field (status_json s) k = field (status_json s') k" for k by simp
  have "inj statusDocument_json" by (simp add: inj_def statusDocument_differ)
  with f [of "''jobId''"] f [of "''flow''"] f [of "''state''"] f [of "''verificationCode''"] f [of "''verificationMessage''"]
    f [of "''signingDeadline''"] f [of "''documents''"] f [of "''updatedAt''"]
  show "s = s'" by (simp add: status_json_def field_mk_obj inj_map_eq_map)
qed simp

section \<open>What a status response tells\<close>

text \<open>
  The job id, flow and state; the verification code, message and deadline of a device signature
  while it runs; per document its id, state and error; and the second of the last change.
\<close>

definition public_document :: "Document \<Rightarrow> string \<times> DocState \<times> (string \<times> string) option" where
  "public_document d = (d_DocumentID d, d_State d, map_option (\<lambda>e. (e_Code e, e_Message e)) (d_Error d))"

definition public_view :: "Job \<Rightarrow>
    string \<times> string \<times> JobState \<times> (string \<times> string \<times> int) \<times> (string \<times> DocState \<times> (string \<times> string) option) list \<times> int" where
  "public_view j =
     (j_JobID j, j_Flow j, j_State j,
      (if j_State j = StateSigning \<and> j_Flow j = FlowEIDScan
       then (j_VerificationCode j, j_VerificationMessage j, j_SigningDeadline j) else ([], [], 0)),
      map public_document (j_Documents j),
      j_UpdatedAt j div second)"

lemma documents_agree: "map (status_document i) ds = map (status_document i) ds' \<longleftrightarrow> map public_document ds = map public_document ds'"
proof -
  have "status_document i d = status_document i d' \<longleftrightarrow> public_document d = public_document d'" for d d'
    by (auto simp: status_document_def public_document_def)
  then show ?thesis by (induction ds arbitrary: ds') (auto simp: Cons_eq_map_conv)
qed

text \<open>
  C19: a status response tells exactly the public view of a job. Two jobs (with times of the years
  0 to 9999) have the same status response, as the JSON that is sent, if and only if they agree on
  job id, flow and state, on the verification code, message and deadline while a device signature
  runs, on the id, state and error of every document in order, and on the second of the last
  change. So the client is told all of that, and whatever else a job holds (the access tokens, the
  OAuth state, the PKCE verifier, certificates, the subject, sessions, digests and signatures, the
  caller, and the verification data outside a running device signature) leaves no trace in it.
\<close>

theorem status_tells_public_view:
  assumes "in_range (j_UpdatedAt j)" "in_range (j_UpdatedAt j')"
  shows "body_json (RStatus (buildStatus j)) = body_json (RStatus (buildStatus j')) \<longleftrightarrow> public_view j = public_view j'"
proof -
  have "buildStatus j = buildStatus j' \<longleftrightarrow> public_view j = public_view j'"
    using rfc3339_differ [OF assms] by (auto simp: buildStatus_def public_view_def Let_def documents_agree)
  then show ?thesis by (simp add: status_differ)
qed

definition told_job :: Job where
  "told_job = emptyJob\<lparr>j_JobID := ''j1'', j_Flow := FlowEIDScan, j_State := StateSigning, j_VerificationCode := ''42'',
     j_UpdatedAt := 1718000000120000000,
     j_Documents := [emptyDocument\<lparr>d_DocumentID := ''d1'', d_State := DocReady\<rparr>]\<rparr>"

lemma told_in_range: "in_range 1718000000120000000" "in_range 1718000000999999999" "in_range 1718000001000000000"
  by code_simp+

theorem status_tells_public_view_witness:
  "body_json (RStatus (buildStatus told_job)) =
     body_json (RStatus (buildStatus (told_job\<lparr>j_SigningToken := ''secret'', j_UpdatedAt := 1718000000999999999\<rparr>))) \<and>
   body_json (RStatus (buildStatus told_job)) \<noteq>
     body_json (RStatus (buildStatus (told_job\<lparr>j_UpdatedAt := 1718000001000000000\<rparr>)))"
  using status_tells_public_view [of told_job "told_job\<lparr>j_SigningToken := ''secret'', j_UpdatedAt := 1718000000999999999\<rparr>"]
    status_tells_public_view [of told_job "told_job\<lparr>j_UpdatedAt := 1718000001000000000\<rparr>"]
  by (simp add: told_job_def emptyJob_def public_view_def told_in_range second_def del: body_json.simps)

end
