(* ===== verification/Start.thy ===== *)
theory Start
  imports Handlers
begin

text \<open>
  How the process starts (\<^verbatim>\<open>cmd/server/\<close>) and the broker transport of development
  (\<^verbatim>\<open>logtransport.go\<close>). The environment is a map from names to values; the web framework's
  server, which runs until it is told to stop, is a parameter. The lemmas show that an address the
  operator set is kept, that a server runs only for an application whose start succeeded, and that
  the log transport refuses nothing and keeps the order of what it was given.
\<close>

section \<open>The log transport\<close>

record log_line =
  ll_message :: string
  ll_topic :: string
  ll_key :: string
  ll_event :: bytes

text \<open>A logger takes lines or, the \<^verbatim>\<open>zap.NewNop\<close> that stands for a missing one, drops them.\<close>

datatype logger = Logger | Nop

record logTransport =
  lt_log :: logger

definition newLogTransport :: "logger option \<Rightarrow> logTransport" where
  "newLogTransport log = \<lparr>lt_log = (case log of None \<Rightarrow> Nop | Some l \<Rightarrow> l)\<rparr>"

definition log_info :: "logger \<Rightarrow> log_line \<Rightarrow> (log_line list, err, unit) prog" where
  "log_info l x = (case l of Nop \<Rightarrow> retE () | Logger \<Rightarrow> modE (\<lambda>ls. ls @ [x]))"

definition Publish :: "logTransport \<Rightarrow> string \<Rightarrow> string \<Rightarrow> bytes \<Rightarrow> (log_line list, err, unit) prog" where
  "Publish t topic key payload =
     bindE (log_info (lt_log t) \<lparr>ll_message = ''audit_event'', ll_topic = topic, ll_key = key, ll_event = payload\<rparr>) (\<lambda>_. retE ())"

section \<open>The commands\<close>

text \<open>The address the server listens on, unless the environment has one (an empty one counts).\<close>

definition main_environment :: "(string \<rightharpoonup> string) \<Rightarrow> (string \<rightharpoonup> string)" where
  "main_environment env =
     (if env ''SERVER_URLS'' = None then env(''SERVER_URLS'' \<mapsto> ''http://0.0.0.0:8080'') else env)"

text \<open>
  \<open>runWeb\<close>, the default command: the error that ends it, or that the server ran. \<open>server\<close> is the
  framework's set-up with the configuration it loaded, \<open>run\<close> its \<^verbatim>\<open>RunContext\<close>; the registration of
  the routes, which \<open>serve\<close> models, cannot fail.
\<close>

definition runWeb :: "('r, 'u) wire_env \<Rightarrow> err + Configuration \<Rightarrow> (('r, 'u) App \<Rightarrow> 'x) \<Rightarrow> err + 'x" where
  "runWeb w server run = (case app_New w server of Inl e \<Rightarrow> Inl e | Inr a \<Rightarrow> Inr (run a))"

section \<open>Properties\<close>

fun publish_all :: "logTransport \<Rightarrow> (string \<times> string \<times> bytes) list \<Rightarrow> (log_line list, err, unit) prog" where
  "publish_all t [] = retE ()"
| "publish_all t ((topic, key, payload) # es) = bindE (Publish t topic key payload) (\<lambda>_. publish_all t es)"

lemma log_transport_keeps_order:
  "publish_all (newLogTransport (Some Logger)) es ls = (r, ls') \<Longrightarrow>
     r = Inr () \<and> map (\<lambda>l. (ll_topic l, ll_key l, ll_event l)) ls' =
       map (\<lambda>l. (ll_topic l, ll_key l, ll_event l)) ls @ es"
proof (induction es arbitrary: ls)
  case (Cons e es)
  obtain topic key payload where e: "e = (topic, key, payload)" by (cases e)
  from Cons.prems have "publish_all (newLogTransport (Some Logger)) es
      (ls @ [\<lparr>ll_message = ''audit_event'', ll_topic = topic, ll_key = key, ll_event = payload\<rparr>]) = (r, ls')"
    by (simp add: e Publish_def log_info_def newLogTransport_def bindE_def modE_def retE_def)
  from Cons.IH [OF this] show ?case by (simp add: e)
qed (simp add: retE_def)

lemma server_urls_kept:
  "env ''SERVER_URLS'' = Some u \<Longrightarrow> main_environment env = env"
  "main_environment env ''SERVER_URLS'' \<noteq> None"
  "k \<noteq> ''SERVER_URLS'' \<Longrightarrow> main_environment env k = env k"
  by (auto simp: main_environment_def)

lemma runWeb_serves:
  "runWeb w server run = Inr x \<longleftrightarrow> (\<exists>c a. server = Inr c \<and> init w c = Inr a \<and> x = run a)"
  by (auto simp: runWeb_def app_New_def split: sum.splits)

end
