(* ===== verification/Spec2Isabelle.thy ===== *)
theory Spec2Isabelle
  imports Overlap Worker Job_Text Responses Start
begin

text \<open>
  A verification of the eParaksts Signing Service (the Go sources under \<^verbatim>\<open>src/\<close>): a coordinator that
  takes documents to be signed, keeps one job per request in Redis, drives the signing provider
  (the signing API that stores and packages documents, the TrustedX platform and the CSC service that
  sign, the person's eID card) and records what it did in three audit regimes.

  \<^bold>\<open>The parts and how they work together.\<close> A handler (\<^verbatim>\<open>routes/\<close>) reads a request, calls one operation of
  the orchestrator (\<^verbatim>\<open>signing/orchestrator.go\<close>, \<^verbatim>\<open>signing/operations.go\<close>) and hands events to the audit
  recorder (\<^verbatim>\<open>audit/\<close>). The orchestrator loads and saves jobs (\<^verbatim>\<open>job/\<close>), calls the signing API client
  (\<^verbatim>\<open>signapi/\<close>) and the platform client (\<^verbatim>\<open>entrust/\<close>), and leaves the steps of a method of signing to its
  flow (\<^verbatim>\<open>signing/flows.go\<close>, \<^verbatim>\<open>signing/csc.go\<close>). The background worker (\<^verbatim>\<open>signing/worker.go\<close>) takes job ids
  off a queue in Redis and brings the jobs to an end. \<^verbatim>\<open>config.go\<close> and \<^verbatim>\<open>app.go\<close> put all of it together.

  \<^bold>\<open>Theories and sources.\<close>
  \<^item> \<^theory_text>\<open>Prelude\<close>: bytes, texts, programs with state and errors, their weakest preconditions and frame
    rules; what it is to write and read back (locale \<open>codec\<close>, for times, Base64 and stored jobs).
  \<^item> \<^theory_text>\<open>Base64\<close>, \<^theory_text>\<open>Der\<close>, \<^theory_text>\<open>Sha256\<close>, \<^theory_text>\<open>Urls\<close>, \<^theory_text>\<open>Times\<close>, \<^theory_text>\<open>Json_Text\<close>: the standard encodings the code
    uses, byte by byte: calendar and RFC 3339 times, JSON text with its escapes and its reader.
  \<^item> \<^theory_text>\<open>Errors\<close>: the errors of all packages, with wrapping and \<^verbatim>\<open>errors.Is\<close>.
  \<^item> \<^theory_text>\<open>Job\<close>, \<^theory_text>\<open>Job_Json\<close>, \<^theory_text>\<open>Store\<close>: \<^verbatim>\<open>job/job.go\<close> (flows, states and transitions, the job record), its stored
    form, \<^verbatim>\<open>job/store.go\<close>; \<^theory_text>\<open>Job_Text\<close>: the bytes of that form. What Redis promises is the locale \<open>redis_server\<close>, what the store promises
    \<open>job_store\<close> and, on a Redis that answers, \<open>reliable_store\<close>.
  \<^item> \<^theory_text>\<open>Ecdsa\<close>: \<^verbatim>\<open>signing/ecdsa.go\<close>. \<^theory_text>\<open>Authcert\<close>: \<^verbatim>\<open>signing/authcert.go\<close>.
  \<^item> \<^theory_text>\<open>Http\<close>: requests, answers, clock and randomness as parameters, with the history of what was sent.
  \<^item> \<^theory_text>\<open>Signapi\<close>: \<^verbatim>\<open>signapi/\<close>. \<^theory_text>\<open>Identities\<close>, \<^theory_text>\<open>Entrust\<close>: \<^verbatim>\<open>entrust/\<close>.
  \<^item> \<^theory_text>\<open>Spine\<close>, \<^theory_text>\<open>Flows\<close>, \<^theory_text>\<open>Orchestrator\<close>, \<^theory_text>\<open>Operations\<close>: the orchestrator's state, its shared steps, the flows,
    the operations, the worker. An operation is a function from the state to its error or result and
    the state it leaves. Locale \<open>running\<close>: the orchestrator on a Redis that is up.
  \<^item> \<^theory_text>\<open>Worker\<close>: \<^verbatim>\<open>signing/worker.go\<close>, the goroutine of the worker with its start and stop, step by step.
  \<^item> \<^theory_text>\<open>Lifecycle\<close>: all operations as a transition system and the abstract signer (locale \<open>hosted\<close>).
  \<^item> \<^theory_text>\<open>Audit_Recorder\<close>: \<^verbatim>\<open>audit/audit.go\<close>, \<^verbatim>\<open>audit/drain.go\<close>, \<^verbatim>\<open>auditposter.go\<close>.
  \<^item> \<^theory_text>\<open>Settings\<close>: \<^verbatim>\<open>config.go\<close>. \<^theory_text>\<open>Wiring\<close>: \<^verbatim>\<open>app.go\<close>.
  \<^item> \<^theory_text>\<open>Web\<close>, \<^theory_text>\<open>Handlers\<close>: \<^verbatim>\<open>routes/\<close> with its request and response types; \<^theory_text>\<open>Responses\<close>: the
    replies as JSON and what they tell of a job. \<^theory_text>\<open>Start\<close>: \<^verbatim>\<open>cmd/server/\<close>, \<^verbatim>\<open>logtransport.go\<close>. \<^theory_text>\<open>Api\<close>, \<^theory_text>\<open>Polling\<close>: their properties.
  \<^item> \<^theory_text>\<open>Service\<close>: requests, worker and environment as one transition system, one at a time (locale
    \<open>handler_invariant\<close>); this theory: its properties.
  \<^item> \<^theory_text>\<open>Commands\<close>, \<^theory_text>\<open>Overlap\<close>: requests and workers that overlap. The Redis commands of any number of them,
    in any order, are a history; an operation takes part in it by running on the answers it got there.
    Locales \<open>logged_redis\<close>, \<open>logged_store\<close>, \<open>careful\<close>: what one operation does when it can rely on nothing
    but its own exchanges. Each has the rest of its state, network and token cache, to itself.

  \<^bold>\<open>What is shown.\<close> For the whole service: the stored jobs are in order in every reachable state, however
  operations overlap, and what is seen of them follows the abstract life cycle, one step of it for each
  step of the service, or for each Redis command of operations that overlap without disturbing each
  other; two examples show what a disturbance can do. For each operation of the orchestrator: its exact
  effect on the store, the queue and the upstream services, errors included. For the clients: how
  often a request is sent, and after which failures again. For the signatures: what is handed to
  finalize, in which encoding, under which certificate. For the interface: the checks before any
  effect, the scope of every route, the audit trail, the pseudonyms, the answers to errors, what a status response tells and hides. For the
  stored form: that its bytes give every job back. For the
  configuration: what an application that started has wired.

  \<^bold>\<open>Bounds.\<close> Two loops can run long. \<open>poll_device\<close> (the wait for a phone) has \<open>o_polls\<close> rounds in the model:
  \<open>device_poll_ends\<close> shows that the rounds that reach past the deadline are enough and more change
  nothing. \<open>poll_status\<close> has \<open>pe_rounds\<close>: \<open>status_wait_bounded\<close> shows that 31 are enough. The worker's loop
  is meant to run for ever; \<open>worker_round\<close> is one round of it, and \<open>worker_stops\<close> shows that it ends when told to. The reader of
  JSON text has fuel: \<open>fuel_enough\<close> shows that twice the length of the text is enough, so \<open>json_parse\<close> never runs
  out of it. Every other loop is over a list or a fixed number of tries.

  \<^bold>\<open>What is assumed.\<close> Parameters stand for code outside the repository: Redis, the network, the clock,
  randomness, the CSC client library, the document gate, the validator's messages, the web framework
  with its authentication, the audit emitters and their outboxes. What a theorem needs of them is in
  its premises, mostly as a locale, and each has an interpretation that runs.

  \<^bold>\<open>Not modelled.\<close> Log lines and tracing; the text of multipart bodies and the
  texts of JSON bodies on the wire (their values are kept instead; \<open>json_text\<close> is their text); keys
  matched without regard to case, keys that occur twice, fractions and the nesting limit in the JSON decoder; the end of a key's life in Redis
  other than as a step of the environment; the introspect token's cache as shared by overlapping
  requests (its lock makes each use of it one step); the framework's routing of a path to its handler; \<^verbatim>\<open>testing.go\<close>, which
  only tests use, and \<^verbatim>\<open>cmd/server/health.go\<close>, which only registers the framework's health command.
  Jobs with times outside the years 0 to 9999, which \<^verbatim>\<open>json.Marshal\<close> would refuse to write, do not arise:
  the times are those of the clock.
\<close>

section \<open>Properties of the whole service\<close>

text \<open>
  The stored jobs are always in order. However requests, the worker, expiring keys and failing
  Redis commands follow one another in an application that started, from an empty store, every
  stored job is found under its own id, a job that is ready has only ready documents, and a document
  is ready only in a job that has ended. During a long poll others may do anything that keeps that.
\<close>

theorem stored_jobs_in_order:
  assumes "redis_server R content items" and "wi_redis w (g_RedisURL c) = Inr R" and "init w c = Inr a"
    and "orderly content pe" and "in_service content authenticate we pe a s" and "jobs_in content (s_redis (w_sys s)) i = Some j"
  shows "j_JobID j = i \<and> (j_State j = StateReady \<longrightarrow> list_all (\<lambda>d. d_State d = DocReady) (j_Documents j)) \<and>
    (list_ex (\<lambda>d. d_State d = DocReady) (j_Documents j) \<longrightarrow> Terminal (j_State j))"
  using hosted.in_service_ok [OF init_hosted [OF assms(1-3)] assms(5) refl assms(4)] assms(6) by (auto simp: store_ok_def job_ok_def)

lemma demo_quiet: "quiet demo_poll"
  by (simp add: quiet_def demo_poll_def)

definition demo_start_web :: "(mem_state, script) web" where
  "demo_start_web = \<lparr>w_sys = demo_sys mem_empty [] emptyJob, w_trail = [], w_headers = []\<rparr>"

lemma demo_web_started: "in_service m_content authenticate demo_web_env demo_poll demo_app demo_start_web"
  by (rule in_service.start) (simp add: demo_start_web_def demo_sys_def jobs_in_def mem_empty_def fun_eq_iff)

lemma demo_web_step:
  "service_step m_content authenticate demo_web_env demo_poll demo_app demo_start_web
     (snd (serve authenticate demo_web_env demo_poll demo_app ep q demo_start_web))"
  by (rule service_step.request) (simp add: demo_start_web_def demo_sys_def jobs_in_def mem_empty_def)

lemma demo_web_prepared:
  "let s = snd (serve (\<lambda>q. Inr (demo_caller\<lparr>us_has := \<lambda>r l. True\<rparr>)) demo_web_env demo_poll demo_app EPrepare (demo_hreq ''webEid'') demo_start_web) in
   map_option j_State (jobs_in m_content (s_redis (w_sys s)) ''J0'') = Some StateFailed"
  by code_simp

theorem stored_jobs_in_order_witness:
  "let s = snd (serve (\<lambda>q. Inr (demo_caller\<lparr>us_has := \<lambda>r l. True\<rparr>)) demo_web_env demo_poll demo_app EPrepare (demo_hreq ''webEid'') demo_start_web) in
   \<exists>j. jobs_in m_content (s_redis (w_sys s)) ''J0'' = Some j \<and> j_State j = StateFailed \<and> j_JobID j = ''J0''"
proof -
  let ?auth = "\<lambda>q. Inr (demo_caller\<lparr>us_has := \<lambda>r l. True\<rparr>)"
  let ?s = "snd (serve ?auth demo_web_env demo_poll demo_app EPrepare (demo_hreq ''webEid'') demo_start_web)"
  obtain j where j: "jobs_in m_content (s_redis (w_sys ?s)) ''J0'' = Some j" "j_State j = StateFailed"
    using demo_web_prepared by (auto simp: Let_def)
  have "in_service m_content ?auth demo_web_env demo_poll demo_app ?s"
    by (rule in_service.step [OF demo_web_started demo_web_step])
  from stored_jobs_in_order [OF demo_redis init_demo quiet_orderly [OF demo_quiet] this j(1)] j show ?thesis by (auto simp: Let_def)
qed

text \<open>
  C3: The service implements the life cycle it declares. Seen from outside, as the state of each
  existing job, every step of the running service, a request, a round of the worker, an expiring
  key, is one step of the abstract signer: nothing, or one job appears in one of its first states,
  moves along the declared transitions, fails, or disappears. All other jobs keep every field.
\<close>

theorem service_refines_lifecycle:
  assumes "redis_server R content items" and "wi_redis w (g_RedisURL c) = Inr R" and "init w c = Inr a"
    and "quiet pe" and "in_service content authenticate we pe a s" and "service_step content authenticate we pe a s s'"
  shows "visible_step (visible (jobs_in content (s_redis (w_sys s)))) (visible (jobs_in content (s_redis (w_sys s')))) \<and>
    (\<exists>i. \<forall>k. k \<noteq> i \<longrightarrow> jobs_in content (s_redis (w_sys s')) k = jobs_in content (s_redis (w_sys s)) k)"
proof -
  note h = init_hosted [OF assms(1-3)]
  from hosted.service_step_kept [OF h assms(6) refl assms(4) hosted.in_service_ok [OF h assms(5) refl quiet_orderly [OF assms(4)]]]
  show ?thesis unfolding hosted.kept_def [OF h] at_most_def [symmetric] by (blast intro: kept_visible)
qed

theorem service_refines_lifecycle_witness:
  "visible_step (visible (jobs_in m_content (s_redis (w_sys demo_start_web))))
     (visible (jobs_in m_content (s_redis (w_sys (snd (serve (\<lambda>q. Inr (demo_caller\<lparr>us_has := \<lambda>r l. True\<rparr>)) demo_web_env demo_poll demo_app
        EPrepare (demo_hreq ''webEid'') demo_start_web))))))"
  using service_refines_lifecycle [OF demo_redis init_demo demo_quiet demo_web_started demo_web_step] by blast

end
